(* ===== verification/Go_Prelude.thy ===== *)
theory Go_Prelude
  imports Main "HOL-Library.AList" "HOL-Library.Monad_Syntax"
begin

text \<open>
  The parts of the Go language and of its standard library that the cbfs sources use, shared by
  every component theory.

  \<^item> Integers: \<open>int\<close> and \<open>int64\<close> are HOL integers; where the code adds or multiplies them the result
    is wrapped by \<open>i64\<close>. A \<open>time.Time\<close> is the number of nanoseconds since Go's zero time, so
    the zero value of the type is 0; \<open>time.Duration\<close> is a number of nanoseconds and
    \<open>Time.Sub\<close> saturates at the 64-bit bounds (\<open>timeSub\<close>).
  \<^item> Maps: a Go map is an association list in its iteration order, or nil (\<open>None\<close>): reading,
    ranging over and deleting from a nil map are allowed, storing into it panics.
  \<^item> Strings are lists of bytes; the functions of package \<open>strings\<close> and \<open>strconv\<close> in use.
  \<^item> JSON values and the decoding rules of \<open>encoding/json\<close> for struct fields. A JSON string that
    is an RFC 3339 timestamp is kept as the instant it denotes (\<open>JTime\<close>); \<open>JStr\<close> is any
    other string. Numbers are the integral ones.
  \<^item> \<open>net/http\<close> headers with their canonical keys.
\<close>

section \<open>Collections of rules\<close>

named_theorems gomap_simps \<open>rewrite rules of Go maps\<close>
named_theorems json_simps \<open>rewrite rules of the JSON decoder\<close>

section \<open>Integers, times and durations\<close>

type_synonym time = int
type_synonym duration = int

definition i64 :: "int \<Rightarrow> int" where
  "i64 x = (x + 2 ^ 63) mod 2 ^ 64 - 2 ^ 63"

definition i64_range :: "int \<Rightarrow> bool" where
  "i64_range x \<longleftrightarrow> - (2 ^ 63) \<le> x \<and> x < 2 ^ 63"

definition timeSub :: "time \<Rightarrow> time \<Rightarrow> duration" where
  "timeSub t u = max (- (2 ^ 63)) (min (2 ^ 63 - 1) (t - u))"

definition second :: duration where "second = 1000000000"
definition minute :: duration where "minute = 60 * second"
definition hour :: duration where "hour = 60 * minute"

text \<open>Integer division of Go truncates towards zero.\<close>

definition goDiv :: "int \<Rightarrow> int \<Rightarrow> int" where
  "goDiv a b = sgn a * sgn b * (\<bar>a\<bar> div \<bar>b\<bar>)"

section \<open>Errors\<close>

text \<open>
  The error values the code tells apart. \<open>ENotFound\<close> is what \<open>gomemcached.IsNotFound\<close>
  recognises, \<open>EUpdateCancel\<close> is \<open>cb.UpdateCancel\<close>, and \<open>EMsg\<close> carries a message built
  by \<open>errors.New\<close> or \<open>fmt.Errorf\<close> or the text of any other error.
\<close>

datatype gerr =
    ENotFound
  | EUpdateCancel
  | EUploadPrecondition
  | EItemExists
  | EAlreadyRunning
  | ENoSuchTask
  | ETaskAlreadyQueued
  | ENotQueued
  | ETooSoon
  | EInsufficientReplicas
  | ELostLock
  | EJson
  | EMsg string

section \<open>Go maps\<close>

type_synonym ('k, 'v) gomap = "('k \<times> 'v) list option"

definition mrange :: "('k, 'v) gomap \<Rightarrow> ('k \<times> 'v) list" where
  "mrange m = (case m of None \<Rightarrow> [] | Some xs \<Rightarrow> xs)"

definition mget :: "('k, 'v) gomap \<Rightarrow> 'k \<Rightarrow> 'v option" where
  "mget m k = map_of (mrange m) k"

definition mlen :: "('k, 'v) gomap \<Rightarrow> int" where
  "mlen m = int (length (mrange m))"

definition mdel :: "'k \<Rightarrow> ('k, 'v) gomap \<Rightarrow> ('k, 'v) gomap" where
  "mdel k m = map_option (AList.delete k) m"

text \<open>Assignment to an entry: \<open>None\<close> is the panic on a nil map.\<close>

definition mput :: "'k \<Rightarrow> 'v \<Rightarrow> ('k, 'v) gomap \<Rightarrow> ('k, 'v) gomap option" where
  "mput k v m = (case m of None \<Rightarrow> None | Some xs \<Rightarrow> Some (Some (AList.update k v xs)))"

definition mkeys :: "('k, 'v) gomap \<Rightarrow> 'k set" where
  "mkeys m = fst ` set (mrange m)"

definition mwf :: "('k, 'v) gomap \<Rightarrow> bool" where
  "mwf m \<longleftrightarrow> distinct (map fst (mrange m))"

section \<open>Strings\<close>

definition hasPrefix :: "string \<Rightarrow> string \<Rightarrow> bool" where
  "hasPrefix s p \<longleftrightarrow> take (length p) s = p"

definition hasSuffix :: "string \<Rightarrow> string \<Rightarrow> bool" where
  "hasSuffix s p \<longleftrightarrow> length p \<le> length s \<and> drop (length s - length p) s = p"

fun containsStr :: "string \<Rightarrow> string \<Rightarrow> bool" where
  "containsStr [] sub = (sub = [])"
| "containsStr (c # s) sub = (hasPrefix (c # s) sub \<or> containsStr s sub)"

text \<open>\<open>strings.Split\<close> at a one-byte separator, and \<open>strings.Join\<close>.\<close>

fun splitOn :: "char \<Rightarrow> string \<Rightarrow> string list" where
  "splitOn c [] = [[]]"
| "splitOn c (x # s) =
     (if x = c then [] # splitOn c s
      else (case splitOn c s of [] \<Rightarrow> [[x]] | p # ps \<Rightarrow> (x # p) # ps))"

fun joinWith :: "string \<Rightarrow> string list \<Rightarrow> string" where
  "joinWith sep [] = []"
| "joinWith sep [s] = s"
| "joinWith sep (s # t # ts) = s @ sep @ joinWith sep (t # ts)"

definition lowerChar :: "char \<Rightarrow> char" where
  "lowerChar c = (let n = (of_char c :: nat) in if 65 \<le> n \<and> n \<le> 90 then char_of (n + 32) else c)"

definition upperChar :: "char \<Rightarrow> char" where
  "upperChar c = (let n = (of_char c :: nat) in if 97 \<le> n \<and> n \<le> 122 then char_of (n - 32) else c)"

definition toLower :: "string \<Rightarrow> string" where
  "toLower s = map lowerChar s"

text \<open>The loop that drops every leading slash of a path, written out in several handlers.\<close>

fun trimSlashes :: "string \<Rightarrow> string" where
  "trimSlashes [] = []"
| "trimSlashes (c # s) = (if c = CHR ''/'' then trimSlashes s else c # s)"

text \<open>Decimal integers: \<open>strconv.Itoa\<close> and \<open>strconv.Atoi\<close>.\<close>

definition digitChar :: "nat \<Rightarrow> char" where
  "digitChar d = char_of (48 + d)"

definition charDigit :: "char \<Rightarrow> nat option" where
  "charDigit c = (let n = (of_char c :: nat) in if 48 \<le> n \<and> n \<le> 57 then Some (n - 48) else None)"

fun showNat :: "nat \<Rightarrow> string" where
  "showNat n = (if n < 10 then [digitChar n] else showNat (n div 10) @ [digitChar (n mod 10)])"

definition itoa :: "int \<Rightarrow> string" where
  "itoa i = (if i < 0 then CHR ''-'' # showNat (nat (- i)) else showNat (nat i))"

fun readDigits :: "string \<Rightarrow> nat \<Rightarrow> nat option" where
  "readDigits [] acc = Some acc"
| "readDigits (c # s) acc =
     (case charDigit c of None \<Rightarrow> None | Some d \<Rightarrow> readDigits s (acc * 10 + d))"

definition readNat :: "string \<Rightarrow> nat option" where
  "readNat s = (if s = [] then None else readDigits s 0)"

definition atoi :: "string \<Rightarrow> int option" where
  "atoi s =
     (let (neg, ds) = (case s of
           [] \<Rightarrow> (False, [])
         | c # r \<Rightarrow> if c = CHR ''-'' then (True, r) else if c = CHR ''+'' then (False, r) else (False, s))
      in case readNat ds of
           None \<Rightarrow> None
         | Some n \<Rightarrow> (let v = (if neg then - int n else int n) in if i64_range v then Some v else None))"

text \<open>\<open>strconv.ParseBool\<close>; the callers that ignore its error read \<open>false\<close> there.\<close>

definition parseBool :: "string \<Rightarrow> bool option" where
  "parseBool s =
     (if s \<in> set [''1'', ''t'', ''T'', ''true'', ''TRUE'', ''True''] then Some True
      else if s \<in> set [''0'', ''f'', ''F'', ''false'', ''FALSE'', ''False''] then Some False
      else None)"

text \<open>\<open>hex.EncodeToString\<close> and \<open>hex.DecodeString\<close>; a byte is a \<open>char\<close>.\<close>

definition hexDigit :: "nat \<Rightarrow> char" where
  "hexDigit n = (if n < 10 then char_of (48 + n) else char_of (87 + n))"

definition hexVal :: "char \<Rightarrow> nat option" where
  "hexVal c =
     (let n = (of_char c :: nat) in
      if 48 \<le> n \<and> n \<le> 57 then Some (n - 48)
      else if 97 \<le> n \<and> n \<le> 102 then Some (n - 87)
      else if 65 \<le> n \<and> n \<le> 70 then Some (n - 55)
      else None)"

fun hexEncode :: "string \<Rightarrow> string" where
  "hexEncode [] = []"
| "hexEncode (c # s) = hexDigit (of_char c div 16) # hexDigit (of_char c mod 16) # hexEncode s"

fun hexDecode :: "string \<Rightarrow> string option" where
  "hexDecode [] = Some []"
| "hexDecode [c] = None"
| "hexDecode (c # d # s) =
     (case (hexVal c, hexVal d) of
        (Some a, Some b) \<Rightarrow> map_option ((#) (char_of (16 * a + b))) (hexDecode s)
      | _ \<Rightarrow> None)"

section \<open>JSON\<close>

datatype json =
    JNull
  | JBool bool
  | JNum int
  | JStr string
  | JTime time
  | JArr "json list"
  | JObj "(string \<times> json) list"

text \<open>
  The bytes of a stored value: a JSON text, or bytes that are not one. An absent value, the nil
  slice a callback receives for a missing document, is \<open>None :: raw option\<close>.
\<close>

datatype raw = RJson json | RText string

text \<open>
  The member a struct field is decoded from: the last one whose name matches the field's name
  up to case; a null leaves the field as it is.
\<close>

fun jmember :: "string \<Rightarrow> (string \<times> json) list \<Rightarrow> json option" where
  "jmember n [] = None"
| "jmember n ((k, v) # ms) =
     (case jmember n ms of
        Some j \<Rightarrow> Some j
      | None \<Rightarrow> if toLower k = toLower n \<and> v \<noteq> JNull then Some v else None)"

text \<open>Decode a field; its zero value where the member is absent; \<open>None\<close> for a type mismatch.\<close>

definition fld :: "string \<Rightarrow> (json \<Rightarrow> 'a option) \<Rightarrow> 'a \<Rightarrow> (string \<times> json) list \<Rightarrow> 'a option" where
  "fld n dec z ms = (case jmember n ms of None \<Rightarrow> Some z | Some j \<Rightarrow> dec j)"

fun decStr :: "json \<Rightarrow> string option" where
  "decStr (JStr s) = Some s"
| "decStr _ = None"

fun decInt :: "json \<Rightarrow> int option" where
  "decInt (JNum n) = (if i64_range n then Some n else None)"
| "decInt _ = None"

fun decBool :: "json \<Rightarrow> bool option" where
  "decBool (JBool b) = Some b"
| "decBool _ = None"

fun decTime :: "json \<Rightarrow> time option" where
  "decTime (JTime t) = Some t"
| "decTime _ = None"

fun decEntries :: "(json \<Rightarrow> 'a option) \<Rightarrow> 'a \<Rightarrow> (string \<times> json) list \<Rightarrow> (string \<times> 'a) list
    \<Rightarrow> (string \<times> 'a) list option" where
  "decEntries dec z [] acc = Some acc"
| "decEntries dec z ((k, v) # ms) acc =
     (case (if v = JNull then Some z else dec v) of
        None \<Rightarrow> None
      | Some x \<Rightarrow> decEntries dec z ms (AList.update k x acc))"

fun decMap :: "(json \<Rightarrow> 'a option) \<Rightarrow> 'a \<Rightarrow> json \<Rightarrow> (string, 'a) gomap option" where
  "decMap dec z (JObj ms) = map_option Some (decEntries dec z ms [])"
| "decMap dec z _ = None"

fun decAll :: "(json \<Rightarrow> 'a option) \<Rightarrow> 'a \<Rightarrow> json list \<Rightarrow> 'a list option" where
  "decAll dec z [] = Some []"
| "decAll dec z (v # vs) =
     (case (if v = JNull then Some z else dec v) of
        None \<Rightarrow> None
      | Some x \<Rightarrow> map_option ((#) x) (decAll dec z vs))"

fun decList :: "(json \<Rightarrow> 'a option) \<Rightarrow> 'a \<Rightarrow> json \<Rightarrow> 'a list option" where
  "decList dec z (JArr vs) = decAll dec z vs"
| "decList dec z _ = None"

definition encMap :: "('a \<Rightarrow> json) \<Rightarrow> (string, 'a) gomap \<Rightarrow> json" where
  "encMap enc m = (case m of None \<Rightarrow> JNull | Some xs \<Rightarrow> JObj (map (\<lambda>(k, v). (k, enc v)) xs))"

text \<open>
  \<open>json.Unmarshal\<close> into a struct whose fields are decoded by \<open>f\<close>: no bytes and bytes
  that are not JSON are errors, as is a value that is not an object; a null changes nothing.
\<close>

definition unmarshal :: "((string \<times> json) list \<Rightarrow> 'a option) \<Rightarrow> raw option \<Rightarrow> 'a option" where
  "unmarshal f r =
     (case r of
        Some (RJson (JObj ms)) \<Rightarrow> f ms
      | Some (RJson JNull) \<Rightarrow> f []
      | _ \<Rightarrow> None)"

section \<open>HTTP headers\<close>

type_synonym header = "(string, string list) gomap"

fun canonRest :: "bool \<Rightarrow> string \<Rightarrow> string" where
  "canonRest up [] = []"
| "canonRest up (c # s) =
     (if up then upperChar c else lowerChar c) # canonRest (c = CHR ''-'') s"

definition canonKey :: "string \<Rightarrow> string" where
  "canonKey k = canonRest True k"

definition hdrGet :: "header \<Rightarrow> string \<Rightarrow> string" where
  "hdrGet h k = (case mget h (canonKey k) of Some (v # _) \<Rightarrow> v | _ \<Rightarrow> [])"

definition hdrSet :: "string \<Rightarrow> string \<Rightarrow> (string \<times> string list) list \<Rightarrow> (string \<times> string list) list" where
  "hdrSet k v h = AList.update (canonKey k) [v] h"

section \<open>Lemmas\<close>

subsection \<open>Integers and times\<close>

lemma i64_id [simp]: "i64_range x \<Longrightarrow> i64 x = x"
  by (simp add: i64_def i64_range_def)

lemma i64_range_0 [simp]: "i64_range 0"
  by (simp add: i64_range_def)

lemma i64_range_i64 [simp]: "i64_range (i64 x)"
  using pos_mod_bound [of "2 ^ 64" "x + 2 ^ 63"] pos_mod_sign [of "2 ^ 64" "x + 2 ^ 63"]
  by (simp add: i64_def i64_range_def)

lemma timeSub_bounds: "- (2 ^ 63) \<le> timeSub t u" "timeSub t u < 2 ^ 63"
  by (simp_all add: timeSub_def)

lemma timeSub_less: "d < 2 ^ 63 \<Longrightarrow> - (2 ^ 63) < d \<Longrightarrow> timeSub t u < d \<longleftrightarrow> t - u < d"
  by (auto simp: timeSub_def)

lemma timeSub_greater: "d < 2 ^ 63 - 1 \<Longrightarrow> - (2 ^ 63) \<le> d \<Longrightarrow> d < timeSub t u \<longleftrightarrow> d < t - u"
  by (auto simp: timeSub_def)

lemmas duration_defs = second_def minute_def hour_def

subsection \<open>Go maps\<close>

lemma mrange_simps [simp, gomap_simps]: "mrange None = []" "mrange (Some xs) = xs"
  by (simp_all add: mrange_def)

lemma mget_None [simp, gomap_simps]: "mget None k = None"
  by (simp add: mget_def)

lemma mlen_nonneg [simp]: "0 \<le> mlen m"
  by (simp add: mlen_def)

lemma mget_mdel [gomap_simps]: "mget (mdel k m) k' = (if k' = k then None else mget m k')"
  by (cases m) (auto simp: mget_def mdel_def delete_conv')

lemma mwf_mdel [simp]: "mwf m \<Longrightarrow> mwf (mdel k m)"
  by (cases m) (auto simp: mwf_def mdel_def distinct_delete)

lemma mput_Some [gomap_simps]: "mput k v (Some xs) = Some (Some (AList.update k v xs))"
  by (simp add: mput_def)

lemma mput_eq_None_iff [simp]: "mput k v m = None \<longleftrightarrow> m = None"
  by (simp add: mput_def split: option.splits)

lemma mget_mput: "mput k v m = Some m' \<Longrightarrow> mget m' k' = (if k' = k then Some v else mget m k')"
  by (cases m) (auto simp: mput_def mget_def update_conv')

lemma mwf_mput: "mput k v m = Some m' \<Longrightarrow> mwf m \<Longrightarrow> mwf m'"
  by (cases m) (auto simp: mput_def mwf_def distinct_update)

lemma mkeys_iff_mget: "k \<in> mkeys m \<longleftrightarrow> mget m k \<noteq> None"
  by (auto simp: mkeys_def mget_def map_of_eq_None_iff)

lemma mkeys_mdel [gomap_simps]: "mkeys (mdel k m) = mkeys m - {k}"
  by (auto simp: mkeys_iff_mget mget_mdel split: if_splits)

lemma mkeys_mput: "mput k v m = Some m' \<Longrightarrow> mkeys m' = insert k (mkeys m)"
  by (auto simp: mkeys_iff_mget mget_mput split: if_splits)

lemma mput_not_nil: "mput k v m = Some m' \<Longrightarrow> m' \<noteq> None"
  by (cases m) (auto simp: mput_def)

lemma finite_mkeys [simp]: "finite (mkeys m)"
  by (simp add: mkeys_def)

lemma mlen_card: "mwf m \<Longrightarrow> mlen m = int (card (mkeys m))"
  using distinct_card [of "map fst (mrange m)"] by (simp add: mlen_def mkeys_def mwf_def)

lemma mlen_mdel:
  assumes "mwf m"
  shows "mlen (mdel k m) = mlen m - (if k \<in> mkeys m then 1 else 0)"
proof -
  have c: "card (mkeys m - {k}) = card (mkeys m) - (if k \<in> mkeys m then 1 else 0)"
    by simp
  have "k \<in> mkeys m \<Longrightarrow> 0 < card (mkeys m)"
    by (auto simp: card_gt_0_iff)
  then show ?thesis
    using assms c by (auto simp: mlen_card mkeys_mdel)
qed

lemma mlen_mput:
  assumes "mput k v m = Some m'" "mwf m"
  shows "mlen m' = mlen m + (if k \<in> mkeys m then 0 else 1)"
proof -
  have "mwf m'" using assms by (rule mwf_mput)
  then show ?thesis
    using assms by (simp add: mlen_card mkeys_mput card_insert_if)
qed

subsection \<open>Strings\<close>

lemma hasPrefix_append [simp]: "hasPrefix (p @ s) p"
  by (simp add: hasPrefix_def)

lemma hasPrefix_iff: "hasPrefix s p \<longleftrightarrow> (\<exists>r. s = p @ r)"
  by (metis append_eq_conv_conj append_take_drop_id hasPrefix_def)

lemma hasSuffix_append [simp]: "hasSuffix (s @ p) p"
  by (simp add: hasSuffix_def)

lemma hasSuffix_iff: "hasSuffix s p \<longleftrightarrow> (\<exists>r. s = r @ p)"
  by (metis append_take_drop_id hasSuffix_append hasSuffix_def)

lemma containsStr_iff: "containsStr s sub \<longleftrightarrow> (\<exists>a b. s = a @ sub @ b)"
proof (induction s)
  case Nil
  then show ?case by auto
next
  case (Cons c s)
  have "(\<exists>a b. c # s = a @ sub @ b) \<longleftrightarrow> (\<exists>b. c # s = sub @ b) \<or> (\<exists>a b. s = a @ sub @ b)"
    by (metis append_Cons append_Nil list.exhaust list.inject)
  with Cons show ?case by (simp add: hasPrefix_iff)
qed

lemma splitOn_not_Nil [simp]: "splitOn c s \<noteq> []"
  by (induction s) (auto split: list.splits)

lemma joinWith_splitOn: "joinWith [c] (splitOn c s) = s"
proof (induction s)
  case (Cons x s)
  obtain p ps where ps: "splitOn c s = p # ps"
    by (cases "splitOn c s") auto
  with Cons show ?case by (cases ps) auto
qed simp

lemma splitOn_no_sep: "p \<in> set (splitOn c s) \<Longrightarrow> c \<notin> set p"
  by (induction s arbitrary: p) (auto split: list.splits if_splits)

lemma trimSlashes_no_slash: "trimSlashes s = [] \<or> hd (trimSlashes s) \<noteq> CHR ''/''"
  by (induction s) auto

lemma trimSlashes_id: "s = [] \<or> hd s \<noteq> CHR ''/'' \<Longrightarrow> trimSlashes s = s"
  by (cases s) auto

lemma trimSlashes_idem [simp]: "trimSlashes (trimSlashes s) = trimSlashes s"
  by (rule trimSlashes_id) (rule trimSlashes_no_slash)

declare showNat.simps [simp del]

lemma charDigit_digitChar: "d < 10 \<Longrightarrow> charDigit (digitChar d) = Some d"
  by (simp add: charDigit_def digitChar_def)

lemma readDigits_append:
  "readDigits (s @ t) acc = (case readDigits s acc of None \<Rightarrow> None | Some a \<Rightarrow> readDigits t a)"
  by (induction s arbitrary: acc) (auto split: option.splits)

lemma readDigits_showNat: "readDigits (showNat n) 0 = Some n"
proof (induction n rule: showNat.induct)
  case (1 n)
  show ?case
  proof (cases "n < 10")
    case True
    then show ?thesis by (simp add: showNat.simps [of n] charDigit_digitChar)
  next
    case False
    with 1 show ?thesis
      by (simp add: showNat.simps [of n] readDigits_append charDigit_digitChar)
  qed
qed

lemma showNat_not_Nil [simp]: "showNat n \<noteq> []"
  by (subst showNat.simps) simp

lemma readNat_showNat [simp]: "readNat (showNat n) = Some n"
  by (simp add: readNat_def readDigits_showNat)

lemma charDigit_not_sign:
  assumes "d < 10"
  shows "digitChar d \<noteq> CHR ''-''" "digitChar d \<noteq> CHR ''+''"
proof -
  have "charDigit CHR ''-'' = None" "charDigit CHR ''+'' = None"
    by (simp_all add: charDigit_def)
  with charDigit_digitChar [OF assms]
  show "digitChar d \<noteq> CHR ''-''" "digitChar d \<noteq> CHR ''+''" by force+
qed

lemma hd_showNat: "\<exists>d < 10. hd (showNat n) = digitChar d"
proof (induction n rule: showNat.induct)
  case (1 n)
  then show ?case by (cases "n < 10") (auto simp: showNat.simps [of n])
qed

lemma atoi_itoa: "i64_range i \<Longrightarrow> atoi (itoa i) = Some i"
proof -
  assume r: "i64_range i"
  obtain d where d: "d < 10" "hd (showNat (nat i)) = digitChar d"
    using hd_showNat by blast
  obtain c cs where c: "showNat (nat i) = c # cs"
    by (cases "showNat (nat i)") auto
  then have "c \<noteq> CHR ''-''" "c \<noteq> CHR ''+''"
    using d charDigit_not_sign by auto
  then show ?thesis
    using r c readNat_showNat [of "nat i"] by (auto simp: atoi_def itoa_def Let_def)
qed

lemma hexVal_hexDigit: "n < 16 \<Longrightarrow> hexVal (hexDigit n) = Some n"
  by (auto simp: hexVal_def hexDigit_def)

lemma hexDecode_hexEncode [simp]: "hexDecode (hexEncode s) = Some s"
proof (induction s)
  case (Cons c s)
  have "(of_char c :: nat) div 16 < 16"
    using nat_of_char_less_256 [of c] by linarith
  with Cons show ?case by (simp add: hexVal_hexDigit)
qed simp

lemma hexEncode_inject: "hexEncode s = hexEncode t \<longleftrightarrow> s = t"
  by (metis hexDecode_hexEncode option.inject)

lemma length_hexEncode [simp]: "length (hexEncode s) = 2 * length s"
  by (induction s) auto

subsection \<open>JSON\<close>

lemma jmember_Nil [simp]: "jmember n [] = None"
  by simp

lemma fld_absent [json_simps]: "jmember n ms = None \<Longrightarrow> fld n dec z ms = Some z"
  by (simp add: fld_def)

lemma fld_present [json_simps]: "jmember n ms = Some j \<Longrightarrow> fld n dec z ms = dec j"
  by (simp add: fld_def)

lemma unmarshal_simps [simp, json_simps]:
  "unmarshal f None = None"
  "unmarshal f (Some (RText s)) = None"
  "unmarshal f (Some (RJson (JObj ms))) = f ms"
  "unmarshal f (Some (RJson JNull)) = f []"
  by (simp_all add: unmarshal_def)

lemma update_new: "k \<notin> fst ` set xs \<Longrightarrow> AList.update k v xs = xs @ [(k, v)]"
  by (induction xs) auto

lemma decEntries_enc:
  assumes "\<And>x. x \<in> snd ` set xs \<Longrightarrow> enc x \<noteq> JNull \<and> dec (enc x) = Some x"
    and "distinct (map fst (acc @ xs))"
  shows "decEntries dec z (map (\<lambda>(k, v). (k, enc v)) xs) acc = Some (acc @ xs)"
  using assms
proof (induction xs arbitrary: acc)
  case (Cons x xs)
  obtain k v where x: "x = (k, v)" by (cases x)
  with Cons.prems have u: "AList.update k v acc = acc @ [(k, v)]"
    by (intro update_new) auto
  have "decEntries dec z (map (\<lambda>(k, v). (k, enc v)) xs) (acc @ [(k, v)]) = Some ((acc @ [(k, v)]) @ xs)"
    using Cons.prems x by (intro Cons.IH) auto
  then show ?case using Cons.prems x u by simp
qed simp

lemma decMap_encMap:
  assumes "\<And>x. enc x \<noteq> JNull \<and> dec (enc x) = Some x" and "mwf (Some xs)"
  shows "decMap dec z (encMap enc (Some xs)) = Some (Some xs)"
  using assms decEntries_enc [of xs enc dec "[]" z] by (simp add: encMap_def mwf_def)

lemma decAll_enc:
  assumes "\<And>x. x \<in> set xs \<Longrightarrow> enc x \<noteq> JNull \<and> dec (enc x) = Some x"
  shows "decAll dec z (map enc xs) = Some xs"
  using assms by (induction xs) auto

lemma decEntries_distinct:
  "decEntries dec z ms acc = Some xs \<Longrightarrow> distinct (map fst acc) \<Longrightarrow> distinct (map fst xs)"
  by (induction dec z ms acc rule: decEntries.induct)
    (auto split: option.splits if_splits simp: distinct_update)

lemma decMap_mwf: "decMap dec z j = Some m \<Longrightarrow> mwf m"
  by (cases j) (auto simp: mwf_def dest: decEntries_distinct)

end
