(* ===== verification/Couchbase.thy ===== *)
theory Couchbase
  imports Go_Prelude
begin

text \<open>
  The couchbase bucket, as the client library go-couchbase offers it, and the view definitions
  that cbfs installs in it (\<open>src/database.go\<close>).

  The library and the server behind it are not part of the repository: they are the parameter
  \<open>cb\<close> of every definition that talks to the bucket, a record of the calls the sources make. What
  the code relies on is the predicate \<open>bucket_ok\<close>: the documented behaviour of the calls, stated
  over the contents function \<open>st\<close> of the store. In particular \<open>Update\<close> invokes its callback with
  the current contents, stores what it returns (or deletes the document) by compare-and-swap, and
  after a conflict invokes it again with the newer contents. A callback is a Go closure whose captured
  variables survive from one invocation to the next, so it is a function of the whole list of contents
  it was invoked with, the current one last (\<open>runCb\<close>). \<open>memBucket\<close> is a bucket in memory
  that has the documented behaviour.

  The views are JavaScript functions in the design document; each is a function from a document's
  id and contents to the rows it emits.
\<close>

section \<open>The bucket interface\<close>

text \<open>What an update callback returns: new contents, nil (delete), or an error; or it panics.\<close>

datatype upd = UStore raw | UDelete | UErr gerr | UPanic

record vrow =
  vr_id :: string
  vr_key :: json
  vr_value :: json
  vr_doc :: json

record viewRes =
  vRows :: "vrow list"
  vErrors :: "gerr list"

text \<open>
  \<open>cbGets\<close> and \<open>cbCas\<close> are the memcached \<open>Get\<close> and the \<open>SET\<close> request with a
  \<open>Cas\<close> that the code sends by hand inside \<open>couchbase.Do\<close>. An entry of \<open>cbGetBulk\<close>'s
  answer whose status is not \<open>SUCCESS\<close> has \<open>None\<close>. A panic inside a callback of
  \<open>cbUpdate\<close> is the result \<open>UpdPanic\<close>.
\<close>

datatype updRes = UpdOk | UpdErr gerr | UpdPanic

record 'db bucket =
  cbGet :: "string \<Rightarrow> 'db \<Rightarrow> gerr + raw"
  cbSet :: "string \<Rightarrow> int \<Rightarrow> raw \<Rightarrow> 'db \<Rightarrow> gerr option \<times> 'db"
  cbAdd :: "string \<Rightarrow> int \<Rightarrow> raw \<Rightarrow> 'db \<Rightarrow> (gerr + bool) \<times> 'db"
  cbDelete :: "string \<Rightarrow> 'db \<Rightarrow> gerr option \<times> 'db"
  cbUpdate :: "string \<Rightarrow> int \<Rightarrow> (raw option list \<Rightarrow> upd) \<Rightarrow> 'db \<Rightarrow> raw option list \<times> updRes \<times> 'db"
  cbIncr :: "string \<Rightarrow> int \<Rightarrow> int \<Rightarrow> int \<Rightarrow> 'db \<Rightarrow> (gerr + int) \<times> 'db"
  cbGetBulk :: "string list \<Rightarrow> 'db \<Rightarrow> gerr + (string \<times> raw option) list"
  cbGets :: "string \<Rightarrow> 'db \<Rightarrow> gerr + (raw \<times> nat)"
  cbCas :: "string \<Rightarrow> nat \<Rightarrow> int \<Rightarrow> raw \<Rightarrow> 'db \<Rightarrow> gerr option \<times> 'db"
  cbView :: "string \<Rightarrow> (string \<times> json) list \<Rightarrow> 'db \<Rightarrow> gerr + viewRes"

text \<open>
  Running a closure \<open>f\<close> with captured variables \<open>s\<close> on the contents it was invoked with: the captured
  variables after the last invocation, and what that invocation returned.
\<close>

fun runCb :: "('s \<Rightarrow> raw option \<Rightarrow> 's \<times> upd) \<Rightarrow> 's \<Rightarrow> raw option list \<Rightarrow> 's \<times> upd" where
  "runCb f s [] = (s, UErr EUpdateCancel)"
| "runCb f s [x] = f s x"
| "runCb f s (x # y # ys) = runCb f (fst (f s x)) (y # ys)"

definition closure :: "('s \<Rightarrow> raw option \<Rightarrow> 's \<times> upd) \<Rightarrow> 's \<Rightarrow> raw option list \<Rightarrow> upd" where
  "closure f s h = snd (runCb f s h)"

section \<open>The documented behaviour\<close>

text \<open>
  A callback outcome that is written back; the other two end the call. \<open>tried f h\<close> says that every
  invocation before the last one returned something to write (and lost to a concurrent writer).
\<close>

definition writes :: "upd \<Rightarrow> bool" where
  "writes u \<longleftrightarrow> (case u of UStore _ \<Rightarrow> True | UDelete \<Rightarrow> True | _ \<Rightarrow> False)"

definition tried :: "(raw option list \<Rightarrow> upd) \<Rightarrow> raw option list \<Rightarrow> bool" where
  "tried f h \<longleftrightarrow> (\<forall>n. 0 < n \<and> n < length h \<longrightarrow> writes (f (take n h)))"

definition contents_after :: "upd \<Rightarrow> raw option" where
  "contents_after u = (case u of UStore v \<Rightarrow> Some v | _ \<Rightarrow> None)"

definition get_ok :: "'db bucket \<Rightarrow> ('db \<Rightarrow> string \<Rightarrow> raw option) \<Rightarrow> bool" where
  "get_ok cb st \<longleftrightarrow>
     (\<forall>k d v. cbGet cb k d = Inr v \<longrightarrow> st d k = Some v) \<and>
     (\<forall>k d. cbGet cb k d = Inl ENotFound \<longrightarrow> st d k = None)"

definition set_ok :: "'db bucket \<Rightarrow> ('db \<Rightarrow> string \<Rightarrow> raw option) \<Rightarrow> bool" where
  "set_ok cb st \<longleftrightarrow>
     (\<forall>k e v d d'. cbSet cb k e v d = (None, d') \<longrightarrow> st d' = (st d)(k \<mapsto> v)) \<and>
     (\<forall>k e v d r d' k'. cbSet cb k e v d = (r, d') \<longrightarrow> k' \<noteq> k \<longrightarrow> st d' k' = st d k')"

definition add_ok :: "'db bucket \<Rightarrow> ('db \<Rightarrow> string \<Rightarrow> raw option) \<Rightarrow> bool" where
  "add_ok cb st \<longleftrightarrow>
     (\<forall>k e v d d'. cbAdd cb k e v d = (Inr True, d') \<longrightarrow> st d k = None \<and> st d' = (st d)(k \<mapsto> v)) \<and>
     (\<forall>k e v d d'. cbAdd cb k e v d = (Inr False, d') \<longrightarrow> st d k \<noteq> None \<and> st d' = st d)"

definition delete_ok :: "'db bucket \<Rightarrow> ('db \<Rightarrow> string \<Rightarrow> raw option) \<Rightarrow> bool" where
  "delete_ok cb st \<longleftrightarrow>
     (\<forall>k d d'. cbDelete cb k d = (None, d') \<longrightarrow> st d' = (st d)(k := None)) \<and>
     (\<forall>k d r d' k'. cbDelete cb k d = (r, d') \<longrightarrow> k' \<noteq> k \<longrightarrow> st d' k' = st d k')"

text \<open>
  \<open>Update\<close>: success means the last value of the callback was committed over the contents it was
  invoked with; an error of the callback is the error of the call and commits nothing; and the two
  errors that only callbacks return come from the callback.
\<close>

definition update_ok :: "'db bucket \<Rightarrow> ('db \<Rightarrow> string \<Rightarrow> raw option) \<Rightarrow> bool" where
  "update_ok cb st \<longleftrightarrow>
     (\<forall>k e f d h r d'. cbUpdate cb k e f d = (h, r, d') \<longrightarrow>
        (\<forall>k'. k' \<noteq> k \<longrightarrow> st d' k' = st d k') \<and> tried f h \<and>
        (r = UpdOk \<longrightarrow> h \<noteq> [] \<and> writes (f h) \<and> st d' k = contents_after (f h)) \<and>
        (h \<noteq> [] \<longrightarrow> (\<forall>e. f h = UErr e \<longrightarrow> r = UpdErr e \<and> st d' k = last h)) \<and>
        (h \<noteq> [] \<longrightarrow> f h = UPanic \<longrightarrow> r = UpdPanic) \<and>
        (\<forall>e. r = UpdErr e \<longrightarrow> e \<in> {EUpdateCancel, EUploadPrecondition} \<longrightarrow> h \<noteq> [] \<and> f h = UErr e))"

definition cas_ok :: "'db bucket \<Rightarrow> ('db \<Rightarrow> string \<Rightarrow> raw option) \<Rightarrow> bool" where
  "cas_ok cb st \<longleftrightarrow>
     (\<forall>k d v c. cbGets cb k d = Inr (v, c) \<longrightarrow> st d k = Some v) \<and>
     (\<forall>k d. cbGets cb k d = Inl ENotFound \<longrightarrow> st d k = None) \<and>
     (\<forall>k c e v d d'. cbCas cb k c e v d = (None, d') \<longrightarrow> st d' = (st d)(k \<mapsto> v)) \<and>
     (\<forall>k c e v d r d'. cbCas cb k c e v d = (Some r, d') \<longrightarrow> st d' = st d)"

text \<open>A bulk get answers with the documents that exist, under distinct keys that were asked for.\<close>

definition bulk_ok :: "'db bucket \<Rightarrow> ('db \<Rightarrow> string \<Rightarrow> raw option) \<Rightarrow> bool" where
  "bulk_ok cb st \<longleftrightarrow>
     (\<forall>ks d rs. cbGetBulk cb ks d = Inr rs \<longrightarrow>
        distinct (map fst rs) \<and> fst ` set rs \<subseteq> set ks \<and>
        (\<forall>k v. (k, Some v) \<in> set rs \<longrightarrow> st d k = Some v))"

definition bucket_ok :: "'db bucket \<Rightarrow> ('db \<Rightarrow> string \<Rightarrow> raw option) \<Rightarrow> bool" where
  "bucket_ok cb st \<longleftrightarrow>
     get_ok cb st \<and> set_ok cb st \<and> add_ok cb st \<and> delete_ok cb st \<and> update_ok cb st \<and>
     cas_ok cb st \<and> bulk_ok cb st"

section \<open>A bucket in memory\<close>

type_synonym memdb = "(string \<times> raw) list"

definition memSet :: "string \<Rightarrow> raw \<Rightarrow> memdb \<Rightarrow> memdb" where
  "memSet k v d = AList.update k v d"

definition memUpdate ::
  "string \<Rightarrow> int \<Rightarrow> (raw option list \<Rightarrow> upd) \<Rightarrow> memdb \<Rightarrow> raw option list \<times> updRes \<times> memdb" where
  "memUpdate k e f d =
     (let h = [map_of d k] in
      case f h of
        UStore v \<Rightarrow> (h, UpdOk, memSet k v d)
      | UDelete \<Rightarrow> (h, UpdOk, AList.delete k d)
      | UErr er \<Rightarrow> (h, UpdErr er, d)
      | UPanic \<Rightarrow> (h, UpdPanic, d))"

definition memBulk :: "string list \<Rightarrow> memdb \<Rightarrow> (string \<times> raw option) list" where
  "memBulk ks d = map (\<lambda>k. (k, map_of d k)) (filter (\<lambda>k. map_of d k \<noteq> None) (remdups ks))"

definition memBucket :: "(string \<Rightarrow> (string \<times> json) list \<Rightarrow> memdb \<Rightarrow> gerr + viewRes) \<Rightarrow> memdb bucket" where
  "memBucket vw =
     \<lparr> cbGet = (\<lambda>k d. case map_of d k of None \<Rightarrow> Inl ENotFound | Some v \<Rightarrow> Inr v),
       cbSet = (\<lambda>k e v d. (None, memSet k v d)),
       cbAdd = (\<lambda>k e v d. case map_of d k of
                  None \<Rightarrow> (Inr True, memSet k v d) | Some _ \<Rightarrow> (Inr False, d)),
       cbDelete = (\<lambda>k d. case map_of d k of
                  None \<Rightarrow> (Some ENotFound, d) | Some _ \<Rightarrow> (None, AList.delete k d)),
       cbUpdate = memUpdate,
       cbIncr = (\<lambda>k a df e d. case map_of d k of
                  Some (RJson (JNum n)) \<Rightarrow> (Inr (n + a), memSet k (RJson (JNum (n + a))) d)
                | _ \<Rightarrow> (Inr df, memSet k (RJson (JNum df)) d)),
       cbGetBulk = (\<lambda>ks d. Inr (memBulk ks d)),
       cbGets = (\<lambda>k d. case map_of d k of None \<Rightarrow> Inl ENotFound | Some v \<Rightarrow> Inr (v, 0)),
       cbCas = (\<lambda>k c e v d. (None, memSet k v d)),
       cbView = vw \<rparr>"

text \<open>The answer of a bucket whose views have no rows.\<close>

definition noView :: "string \<Rightarrow> (string \<times> json) list \<Rightarrow> memdb \<Rightarrow> gerr + viewRes" where
  "noView v ps d = Inr \<lparr>vRows = [], vErrors = []\<rparr>"

section \<open>The design document\<close>

text \<open>Property access of the view functions; a missing property is undefined, here \<open>JNull\<close>.\<close>

fun jsGet :: "string \<Rightarrow> json \<Rightarrow> json" where
  "jsGet n (JObj ms) = (case map_of (rev ms) n of None \<Rightarrow> JNull | Some j \<Rightarrow> j)"
| "jsGet n _ = JNull"

fun jsKeys :: "json \<Rightarrow> string list" where
  "jsKeys (JObj ms) = remdups (map fst ms)"
| "jsKeys _ = []"

fun jsItems :: "json \<Rightarrow> json list" where
  "jsItems (JArr xs) = xs"
| "jsItems _ = []"

fun jsStr :: "json \<Rightarrow> string" where
  "jsStr (JStr s) = s"
| "jsStr _ = ''undefined''"

text \<open>\<^verbatim>\<open>doc.name ? doc.name : meta.id\<close>\<close>

definition docName :: "string \<Rightarrow> json \<Rightarrow> string" where
  "docName i doc = (case jsGet ''name'' doc of JStr s \<Rightarrow> if s = [] then i else s | _ \<Rightarrow> i)"

definition view_file_blobs :: "string \<Rightarrow> json \<Rightarrow> (string list \<times> json) list" where
  "view_file_blobs i doc =
     (if jsGet ''type'' doc = JStr ''file'' then
        map (\<lambda>k. ([k, ''file'', docName i doc], JNull))
          (remdups (jsStr (jsGet ''oid'' doc) #
                    map (\<lambda>o'. jsStr (jsGet ''oid'' o')) (jsItems (jsGet ''older'' doc))))
      else if jsGet ''type'' doc = JStr ''blob'' then
        (let ns = jsKeys (jsGet ''nodes'' doc); h = jsStr (jsGet ''oid'' doc) in
         if ns = [] then [([h, ''blob'', []], JNull)]
         else map (\<lambda>n. ([h, ''blob'', n], JNull)) ns)
      else [])"

definition view_file_browse :: "string \<Rightarrow> json \<Rightarrow> (string list \<times> json) list" where
  "view_file_browse i doc =
     (if jsGet ''type'' doc = JStr ''file''
      then [(splitOn (CHR ''/'') (docName i doc), jsGet ''length'' doc)] else [])"

definition view_garbage :: "string \<Rightarrow> json \<Rightarrow> (string \<times> json) list" where
  "view_garbage i doc =
     (if jsGet ''type'' doc = JStr ''blob''
      then [(if jsGet ''garbage'' doc = JBool True then ''garbage'' else ''live'', jsGet ''length'' doc)]
      else [])"

definition view_node_blobs :: "string \<Rightarrow> json \<Rightarrow> (string \<times> json) list" where
  "view_node_blobs i doc =
     (if jsGet ''type'' doc = JStr ''blob''
      then map (\<lambda>n. (n, JNull)) (jsKeys (jsGet ''nodes'' doc)) else [])"

definition view_node_size :: "string \<Rightarrow> json \<Rightarrow> (string \<times> json) list" where
  "view_node_size i doc =
     (if jsGet ''type'' doc = JStr ''node'' then [(drop 1 i, JNum 0)]
      else if jsGet ''type'' doc = JStr ''blob''
      then map (\<lambda>n. (n, jsGet ''length'' doc)) (jsKeys (jsGet ''nodes'' doc)) else [])"

definition view_repcounts :: "string \<Rightarrow> json \<Rightarrow> (int \<times> json) list" where
  "view_repcounts i doc =
     (if jsGet ''type'' doc = JStr ''blob'' \<and> jsGet ''garbage'' doc \<noteq> JBool True
      then [(int (length (jsKeys (jsGet ''nodes'' doc))), JNull)] else [])"

section \<open>Lemmas\<close>

subsection \<open>Closures\<close>

lemma closure_single [simp]: "closure f s [x] = snd (f s x)"
  by (simp add: closure_def)

text \<open>The last invocation sees the last contents, with whatever was captured before.\<close>

lemma runCb_last: "h \<noteq> [] \<Longrightarrow> \<exists>s'. runCb f s h = f s' (last h)"
  by (induction f s h rule: runCb.induct) auto

lemma runCb_invariant:
  assumes "h \<noteq> []" and "I s" and "\<And>s x. I s \<Longrightarrow> I (fst (f s x))"
  shows "\<exists>s'. I s' \<and> runCb f s h = f s' (last h)"
  using assms by (induction f s h rule: runCb.induct) auto

lemma closure_last: "h \<noteq> [] \<Longrightarrow> \<exists>s'. closure f s h = snd (f s' (last h))"
  using runCb_last [of h f s] by (auto simp: closure_def)

lemma closure_stateless:
  assumes "h \<noteq> []" and "\<And>s x. f s x = (s, g x)"
  shows "closure f s h = g (last h)"
proof -
  obtain s' where "closure f s h = snd (f s' (last h))"
    using closure_last [OF assms(1), of f s] by blast
  then show ?thesis by (simp add: assms(2))
qed

subsection \<open>Consequences of the documented behaviour\<close>

lemma bucket_okD:
  assumes "bucket_ok cb st"
  shows "get_ok cb st" "set_ok cb st" "add_ok cb st" "delete_ok cb st" "update_ok cb st"
    "cas_ok cb st" "bulk_ok cb st"
  using assms by (simp_all add: bucket_ok_def)

lemma update_okD:
  assumes "update_ok cb st" and "cbUpdate cb k e f d = (h, r, d')"
  shows "k' \<noteq> k \<Longrightarrow> st d' k' = st d k'"
    and "r = UpdOk \<Longrightarrow> h \<noteq> []"
    and "r = UpdOk \<Longrightarrow> writes (f h)"
    and "r = UpdOk \<Longrightarrow> st d' k = contents_after (f h)"
    and "h \<noteq> [] \<Longrightarrow> f h = UErr er \<Longrightarrow> r = UpdErr er \<and> st d' k = last h"
    and "h \<noteq> [] \<Longrightarrow> f h = UPanic \<Longrightarrow> r = UpdPanic"
    and "r = UpdErr er \<Longrightarrow> er \<in> {EUpdateCancel, EUploadPrecondition} \<Longrightarrow> h \<noteq> [] \<and> f h = UErr er"
    and "tried f h"
proof -
  note all = assms(1) [unfolded update_ok_def, THEN spec, THEN spec, THEN spec, THEN spec,
      THEN spec, THEN spec, THEN spec, THEN mp, OF assms(2)]
  note step = all [THEN conjunct2]
  show "k' \<noteq> k \<Longrightarrow> st d' k' = st d k'" using all [THEN conjunct1] by blast
  show "tried f h" by (rule step [THEN conjunct1])
  note ok = step [THEN conjunct2, THEN conjunct1]
  show "r = UpdOk \<Longrightarrow> h \<noteq> []" "r = UpdOk \<Longrightarrow> writes (f h)"
    "r = UpdOk \<Longrightarrow> st d' k = contents_after (f h)" using ok by blast+
  note err = step [THEN conjunct2, THEN conjunct2]
  show "h \<noteq> [] \<Longrightarrow> f h = UErr er \<Longrightarrow> r = UpdErr er \<and> st d' k = last h"
    using err [THEN conjunct1] by blast
  show "h \<noteq> [] \<Longrightarrow> f h = UPanic \<Longrightarrow> r = UpdPanic"
    using err [THEN conjunct2, THEN conjunct1] by blast
  show "r = UpdErr er \<Longrightarrow> er \<in> {EUpdateCancel, EUploadPrecondition} \<Longrightarrow> h \<noteq> [] \<and> f h = UErr er"
    using err [THEN conjunct2, THEN conjunct2] by blast
qed

lemma update_callback_errD:
  assumes "update_ok cb st" and "cbUpdate cb k e f d = (h, UpdErr er, d')"
    and "er \<in> {EUpdateCancel, EUploadPrecondition}"
  shows "h \<noteq> []" "f h = UErr er" "st d' k = last h"
proof -
  from update_okD(7) [OF assms(1,2) refl assms(3)] show h: "h \<noteq> []" and f: "f h = UErr er" by auto
  from update_okD(5) [OF assms(1,2) h f] show "st d' k = last h" by blast
qed

subsection \<open>The contract of an update callback\<close>

text \<open>
  \<open>captured\<close> holds of the captured variables before every invocation, \<open>rel\<close> relates the contents
  an invocation saw to the contents it asks for. Whatever the conflicts, an update that succeeds then
  committed contents related to those it replaced, and touched no other document.
\<close>

locale doc_callback =
  fixes step :: "'s \<Rightarrow> raw option \<Rightarrow> 's \<times> upd"
    and captured :: "'s \<Rightarrow> bool"
    and rel :: "raw option \<Rightarrow> raw option \<Rightarrow> bool"
  assumes captured_step: "captured s \<Longrightarrow> captured (fst (step s x))"
    and rel_step: "captured s \<Longrightarrow> writes (snd (step s x)) \<Longrightarrow> rel x (contents_after (snd (step s x)))"
begin

lemma run_cases:
  assumes "captured s" and "h \<noteq> []"
  obtains s' where "captured s'" "runCb step s h = step s' (last h)"
  using runCb_invariant [OF assms(2), of captured s step] assms(1) captured_step by blast

lemma run_captured: "captured s \<Longrightarrow> h \<noteq> [] \<Longrightarrow> captured (fst (runCb step s h))"
  by (erule (1) run_cases) (simp add: captured_step)

lemma update_success:
  assumes "update_ok cb st" and "captured s" and "cbUpdate cb k e (closure step s) d = (h, UpdOk, d')"
  shows "h \<noteq> []" "rel (last h) (st d' k)" "\<And>k'. k' \<noteq> k \<Longrightarrow> st d' k' = st d k'"
proof -
  show h: "h \<noteq> []" using update_okD(2) [OF assms(1,3)] by blast
  obtain s' where s': "captured s'" "runCb step s h = step s' (last h)"
    by (rule run_cases [OF assms(2) h])
  have "writes (closure step s h)" using update_okD(3) [OF assms(1,3)] by blast
  with rel_step [OF s'(1), of "last h"] s'(2) have "rel (last h) (contents_after (closure step s h))"
    by (simp add: closure_def)
  then show "rel (last h) (st d' k)" using update_okD(4) [OF assms(1,3)] by simp
  show "\<And>k'. k' \<noteq> k \<Longrightarrow> st d' k' = st d k'" using update_okD(1) [OF assms(1,3)] by blast
qed

lemma update_refused:
  assumes "update_ok cb st" and "captured s" and "cbUpdate cb k e (closure step s) d = (h, UpdErr er, d')"
    and "er \<in> {EUpdateCancel, EUploadPrecondition}"
  obtains s' where "captured s'" "snd (step s' (st d' k)) = UErr er"
    "\<And>k'. k' \<noteq> k \<Longrightarrow> st d' k' = st d k'"
proof -
  note r = update_callback_errD [OF assms(1,3,4)]
  obtain s' where s': "captured s'" "runCb step s h = step s' (last h)"
    by (rule run_cases [OF assms(2) r(1)])
  have "snd (step s' (st d' k)) = UErr er" using r(2,3) s'(2) by (simp add: closure_def)
  with s'(1) show thesis using update_okD(1) [OF assms(1,3)] by (intro that)
qed

end

subsection \<open>The bucket in memory\<close>

lemma map_of_memSet [simp]: "map_of (memSet k v d) = (map_of d)(k \<mapsto> v)"
  by (simp add: memSet_def update_conv')

lemma memBucket_get_ok: "get_ok (memBucket vw) map_of"
  by (auto simp: get_ok_def memBucket_def split: option.splits)

lemma memBucket_set_ok: "set_ok (memBucket vw) map_of"
  by (auto simp: set_ok_def memBucket_def)

lemma memBucket_add_ok: "add_ok (memBucket vw) map_of"
  by (auto simp: add_ok_def memBucket_def split: option.splits)

lemma memBucket_delete_ok: "delete_ok (memBucket vw) map_of"
  by (auto simp: delete_ok_def memBucket_def delete_conv' split: option.splits)

lemma memBucket_cas_ok: "cas_ok (memBucket vw) map_of"
  by (auto simp: cas_ok_def memBucket_def split: option.splits)

lemma memBucket_bulk_ok: "bulk_ok (memBucket vw) map_of"
  by (auto simp: bulk_ok_def memBucket_def memBulk_def comp_def)

lemma memBucket_update_ok: "update_ok (memBucket vw) map_of"
  unfolding update_ok_def
proof (intro allI impI)
  fix k e f d h r d'
  assume "cbUpdate (memBucket vw) k e f d = (h, r, d')"
  then have u: "memUpdate k e f d = (h, r, d')" by (simp add: memBucket_def)
  then have h: "h = [map_of d k]"
    by (auto simp: memUpdate_def Let_def split: upd.splits)
  then have "tried f h" by (simp add: tried_def)
  with u h show "(\<forall>k'. k' \<noteq> k \<longrightarrow> map_of d' k' = map_of d k') \<and> tried f h \<and>
        (r = UpdOk \<longrightarrow> h \<noteq> [] \<and> writes (f h) \<and> map_of d' k = contents_after (f h)) \<and>
        (h \<noteq> [] \<longrightarrow> (\<forall>e. f h = UErr e \<longrightarrow> r = UpdErr e \<and> map_of d' k = last h)) \<and>
        (h \<noteq> [] \<longrightarrow> f h = UPanic \<longrightarrow> r = UpdPanic) \<and>
        (\<forall>e. r = UpdErr e \<longrightarrow> e \<in> {EUpdateCancel, EUploadPrecondition} \<longrightarrow> h \<noteq> [] \<and> f h = UErr e)"
    by (cases "f [map_of d k]")
      (auto simp: memUpdate_def Let_def writes_def contents_after_def delete_conv')
qed

lemma memBucket_ok: "bucket_ok (memBucket vw) map_of"
  by (simp add: bucket_ok_def memBucket_get_ok memBucket_set_ok memBucket_add_ok memBucket_delete_ok
      memBucket_update_ok memBucket_cas_ok memBucket_bulk_ok)

end
