(* ===== verification/Config.thy ===== *)
theory Config
  imports Couchbase
begin

text \<open>
  The cluster configuration: \<open>src/config/config.go\<close> and its place in the bucket (\<open>src/conf.go\<close>).

  The struct is the record \<open>cbfsConfig\<close>. The code walks its fields by reflection; here that is the
  table \<open>cfgFields\<close>, one entry per field in the order of the struct, with the field's JSON name, its
  kind, and how to read and set it. \<open>time.Duration\<close> values travel as strings, so the two conversions
  of package \<open>time\<close> are modelled as well: \<open>durString\<close> (\<open>Duration.String\<close>) and
  \<open>parseDuration\<close>. The fraction of a number is scaled exactly, as \<open>float64\<close> does for the up
  to nine digits that \<open>String\<close> prints. JSON numbers reach \<open>SetParameter\<close> as \<open>float64\<close>;
  \<open>f64\<close> is the rounding of an integer to that type.

  Lemmas: parsing a printed duration of whole seconds gives it back; setting a parameter changes that
  parameter only; a configuration survives its JSON form.
\<close>

section \<open>Durations as strings\<close>

definition isDigit :: "char \<Rightarrow> bool" where
  "isDigit c \<longleftrightarrow> charDigit c \<noteq> None"

definition digitsVal :: "string \<Rightarrow> nat" where
  "digitsVal s = (case readDigits s 0 of None \<Rightarrow> 0 | Some n \<Rightarrow> n)"

fun padNat :: "nat \<Rightarrow> nat \<Rightarrow> string" where
  "padNat 0 n = []"
| "padNat (Suc p) n = padNat p (n div 10) @ [digitChar (n mod 10)]"

fun dropZeros :: "string \<Rightarrow> string" where
  "dropZeros [] = []"
| "dropZeros (c # s) = (let r = dropZeros s in if r = [] \<and> c = CHR ''0'' then [] else c # r)"

text \<open>\<open>fmtFrac\<close>: the fraction of \<open>v / 10^prec\<close> without trailing zeros, and the whole part.\<close>

definition fmtFrac :: "nat \<Rightarrow> nat \<Rightarrow> string \<times> nat" where
  "fmtFrac v prec =
     (let r = dropZeros (padNat prec (v mod 10 ^ prec)) in
      (if r = [] then [] else CHR ''.'' # r, v div 10 ^ prec))"

definition durString :: "duration \<Rightarrow> string" where
  "durString d =
     (let u = nat \<bar>d\<bar>; sign = (if d < 0 then ''-'' else []) in
      if u < 1000000000 then
        if u = 0 then ''0s''
        else if u < 1000 then sign @ showNat u @ ''ns''
        else if u < 1000000 then
          (let (f, w) = fmtFrac u 3 in sign @ showNat w @ f @ [CHR 0xC2, CHR 0xB5] @ ''s'')
        else (let (f, w) = fmtFrac u 6 in sign @ showNat w @ f @ ''ms'')
      else
        (let (f, w) = fmtFrac u 9;
             secs = showNat (w mod 60) @ f @ ''s'';
             m = w div 60;
             mins = (if m > 0 then showNat (m mod 60) @ ''m'' else []);
             h = m div 60;
             hrs = (if h > 0 then showNat h @ ''h'' else [])
         in sign @ hrs @ mins @ secs))"

definition unitMap :: "string \<Rightarrow> nat option" where
  "unitMap u = map_of
     [(''ns'', 1), (''us'', 1000), ([CHR 0xC2, CHR 0xB5] @ ''s'', 1000), ([CHR 0xCE, CHR 0xBC] @ ''s'', 1000),
      (''ms'', 1000000), (''s'', 1000000000), (''m'', 60000000000), (''h'', 3600000000000)] u"

fun leadingFraction :: "string \<Rightarrow> nat \<Rightarrow> nat \<Rightarrow> bool \<Rightarrow> nat \<times> nat" where
  "leadingFraction [] x scale over = (x, scale)"
| "leadingFraction (c # s) x scale over =
     (if over then leadingFraction s x scale over
      else if x > (2 ^ 63 - 1) div 10 then leadingFraction s x scale True
      else (let y = x * 10 + the (charDigit c) in
            if y > 2 ^ 63 then leadingFraction s x scale True
            else leadingFraction s y (scale * 10) False))"

text \<open>One round of the loop: a number with an optional fraction and a unit; the value and the rest.\<close>

definition parseOne :: "string \<Rightarrow> (nat \<times> string) option" where
  "parseOne s =
     (let ds = takeWhile isDigit s; s1 = dropWhile isDigit s; v = digitsVal ds;
          dot = (s1 \<noteq> [] \<and> hd s1 = CHR ''.'');
          fs = (if dot then takeWhile isDigit (tl s1) else []);
          s2 = (if dot then dropWhile isDigit (tl s1) else s1);
          (f, scale) = leadingFraction fs 0 1 False;
          u = takeWhile (\<lambda>c. c \<noteq> CHR ''.'' \<and> \<not> isDigit c) s2;
          s3 = dropWhile (\<lambda>c. c \<noteq> CHR ''.'' \<and> \<not> isDigit c) s2 in
      if v > 2 ^ 63 \<or> (ds = [] \<and> fs = []) \<or> u = [] then None
      else (case unitMap u of
              None \<Rightarrow> None
            | Some unit \<Rightarrow>
                if v > 2 ^ 63 div unit then None
                else (let w = v * unit + (if f > 0 then f * unit div scale else 0) in
                      if w > 2 ^ 63 then None else Some (w, s3))))"

lemma parseOne_shorter:
  assumes "parseOne s = Some (v, r)"
  shows "length r < length s"
proof -
  let ?P = "\<lambda>c. c \<noteq> CHR ''.'' \<and> \<not> isDigit c"
  obtain s2 where u: "takeWhile ?P s2 \<noteq> []" and r: "r = dropWhile ?P s2" and l: "length s2 \<le> length s"
  proof -
    let ?s1 = "dropWhile isDigit s"
    let ?s2 = "if ?s1 \<noteq> [] \<and> hd ?s1 = CHR ''.'' then dropWhile isDigit (tl ?s1) else ?s1"
    have "length ?s1 \<le> length s" by (rule length_dropWhile_le)
    moreover have "length (dropWhile isDigit (tl ?s1)) \<le> length (tl ?s1)" by (rule length_dropWhile_le)
    ultimately have "length ?s2 \<le> length s" by auto
    moreover have "takeWhile ?P ?s2 \<noteq> []" "r = dropWhile ?P ?s2"
      using assms by (auto simp: parseOne_def Let_def split: prod.splits if_splits option.splits)
    ultimately show thesis by (intro that)
  qed
  from u have "0 < length (takeWhile ?P s2)" by blast
  moreover have "length (takeWhile ?P s2) + length (dropWhile ?P s2) = length s2"
    by (metis length_append takeWhile_dropWhile_id)
  ultimately show ?thesis unfolding r using l by linarith
qed

function parseLoop :: "string \<Rightarrow> nat \<Rightarrow> nat option" where
  "parseLoop s d =
     (if s = [] then Some d
      else case parseOne s of
             None \<Rightarrow> None
           | Some (v, r) \<Rightarrow> if d + v > 2 ^ 63 then None else parseLoop r (d + v))"
  by pat_completeness auto
termination
  by (relation "measure (length \<circ> fst)") (auto dest: parseOne_shorter)

definition parseDuration :: "string \<Rightarrow> duration option" where
  "parseDuration s =
     (let neg = (s \<noteq> [] \<and> hd s = CHR ''-'');
          r = (if s \<noteq> [] \<and> (hd s = CHR ''-'' \<or> hd s = CHR ''+'') then tl s else s) in
      if r = ''0'' then Some 0
      else if r = [] then None
      else case parseLoop r 0 of
             None \<Rightarrow> None
           | Some d \<Rightarrow>
               if neg then Some (- int d) else if d > 2 ^ 63 - 1 then None else Some (int d))"

section \<open>The configuration\<close>

record cbfsConfig =
  cf_GCFreq :: duration
  cf_GCEnabled :: bool
  cf_GCLimit :: int
  cf_Hash :: string
  cf_HeartbeatFreq :: duration
  cf_MinReplicas :: int
  cf_MaxReplicas :: int
  cf_NodeCleanCount :: int
  cf_ReconcileFreq :: duration
  cf_ReconcileAge :: duration
  cf_QuickReconcileFreq :: duration
  cf_LocalValidationFreq :: duration
  cf_StaleNodeCheckFreq :: duration
  cf_StaleNodeLimit :: duration
  cf_UnderReplicaCheckFreq :: duration
  cf_OverReplicaCheckFreq :: duration
  cf_ReplicationCheckLimit :: int
  cf_DefaultVersionCount :: int
  cf_UpdateNodeSizesFreq :: duration
  cf_TrimFullNodesFreq :: duration
  cf_TrimFullNodesCount :: int
  cf_TrimFullNodesSpace :: int
  cf_DriftWarnThresh :: duration

definition DefaultConfig :: cbfsConfig where
  "DefaultConfig =
     \<lparr> cf_GCFreq = hour * 8,
       cf_GCEnabled = False,
       cf_GCLimit = 5000,
       cf_Hash = ''sha1'',
       cf_HeartbeatFreq = second * 5,
       cf_MinReplicas = 3,
       cf_MaxReplicas = 5,
       cf_NodeCleanCount = 5000,
       cf_ReconcileFreq = hour * 24 * 7,
       cf_ReconcileAge = hour * 24 * 30,
       cf_QuickReconcileFreq = hour * 27,
       cf_LocalValidationFreq = hour * 31,
       cf_StaleNodeCheckFreq = minute,
       cf_StaleNodeLimit = minute * 10,
       cf_UnderReplicaCheckFreq = minute * 5,
       cf_OverReplicaCheckFreq = minute * 10,
       cf_ReplicationCheckLimit = 10000,
       cf_DefaultVersionCount = 0,
       cf_UpdateNodeSizesFreq = second * 5,
       cf_TrimFullNodesFreq = hour,
       cf_TrimFullNodesCount = 10000,
       cf_TrimFullNodesSpace = 1 * 1024 * 1024 * 1024,
       cf_DriftWarnThresh = 5 * minute \<rparr>"

text \<open>
  A field as reflection shows it: JSON name, kind, value, and setter. No field has another kind, so the
  code's \<open>default\<close> case (\<open>Unhandled type\<close>) has no counterpart.
\<close>

datatype cfgField =
    FDur string "cbfsConfig \<Rightarrow> duration" "duration \<Rightarrow> cbfsConfig \<Rightarrow> cbfsConfig"
  | FBool string "cbfsConfig \<Rightarrow> bool" "bool \<Rightarrow> cbfsConfig \<Rightarrow> cbfsConfig"
  | FStr string "cbfsConfig \<Rightarrow> string" "string \<Rightarrow> cbfsConfig \<Rightarrow> cbfsConfig"
  | FInt string "cbfsConfig \<Rightarrow> int" "int \<Rightarrow> cbfsConfig \<Rightarrow> cbfsConfig"

fun jsonFieldName :: "cfgField \<Rightarrow> string" where
  "jsonFieldName (FDur n _ _) = n"
| "jsonFieldName (FBool n _ _) = n"
| "jsonFieldName (FStr n _ _) = n"
| "jsonFieldName (FInt n _ _) = n"

definition cfgFields :: "cfgField list" where
  "cfgFields =
     [FDur ''gcfreq'' cf_GCFreq (\<lambda>v c. c\<lparr>cf_GCFreq := v\<rparr>),
      FBool ''gcEnabled'' cf_GCEnabled (\<lambda>v c. c\<lparr>cf_GCEnabled := v\<rparr>),
      FInt ''gclimit'' cf_GCLimit (\<lambda>v c. c\<lparr>cf_GCLimit := v\<rparr>),
      FStr ''hash'' cf_Hash (\<lambda>v c. c\<lparr>cf_Hash := v\<rparr>),
      FDur ''hbfreq'' cf_HeartbeatFreq (\<lambda>v c. c\<lparr>cf_HeartbeatFreq := v\<rparr>),
      FInt ''minrepl'' cf_MinReplicas (\<lambda>v c. c\<lparr>cf_MinReplicas := v\<rparr>),
      FInt ''maxrepl'' cf_MaxReplicas (\<lambda>v c. c\<lparr>cf_MaxReplicas := v\<rparr>),
      FInt ''cleanCount'' cf_NodeCleanCount (\<lambda>v c. c\<lparr>cf_NodeCleanCount := v\<rparr>),
      FDur ''reconcileFreq'' cf_ReconcileFreq (\<lambda>v c. c\<lparr>cf_ReconcileFreq := v\<rparr>),
      FDur ''reconcileAge'' cf_ReconcileAge (\<lambda>v c. c\<lparr>cf_ReconcileAge := v\<rparr>),
      FDur ''quickReconcileFreq'' cf_QuickReconcileFreq (\<lambda>v c. c\<lparr>cf_QuickReconcileFreq := v\<rparr>),
      FDur ''localValidationFreq'' cf_LocalValidationFreq (\<lambda>v c. c\<lparr>cf_LocalValidationFreq := v\<rparr>),
      FDur ''nodeCheckFreq'' cf_StaleNodeCheckFreq (\<lambda>v c. c\<lparr>cf_StaleNodeCheckFreq := v\<rparr>),
      FDur ''staleLimit'' cf_StaleNodeLimit (\<lambda>v c. c\<lparr>cf_StaleNodeLimit := v\<rparr>),
      FDur ''underReplicaCheckFreq'' cf_UnderReplicaCheckFreq (\<lambda>v c. c\<lparr>cf_UnderReplicaCheckFreq := v\<rparr>),
      FDur ''overReplicaCheckFreq'' cf_OverReplicaCheckFreq (\<lambda>v c. c\<lparr>cf_OverReplicaCheckFreq := v\<rparr>),
      FInt ''replicaCheckLimit'' cf_ReplicationCheckLimit (\<lambda>v c. c\<lparr>cf_ReplicationCheckLimit := v\<rparr>),
      FInt ''defaultVersionCount'' cf_DefaultVersionCount (\<lambda>v c. c\<lparr>cf_DefaultVersionCount := v\<rparr>),
      FDur ''updateSizesFreq'' cf_UpdateNodeSizesFreq (\<lambda>v c. c\<lparr>cf_UpdateNodeSizesFreq := v\<rparr>),
      FDur ''trimFullFreq'' cf_TrimFullNodesFreq (\<lambda>v c. c\<lparr>cf_TrimFullNodesFreq := v\<rparr>),
      FInt ''trimFullCount'' cf_TrimFullNodesCount (\<lambda>v c. c\<lparr>cf_TrimFullNodesCount := v\<rparr>),
      FInt ''trimFullSize'' cf_TrimFullNodesSpace (\<lambda>v c. c\<lparr>cf_TrimFullNodesSpace := v\<rparr>),
      FDur ''driftWarnThresh'' cf_DriftWarnThresh (\<lambda>v c. c\<lparr>cf_DriftWarnThresh := v\<rparr>)]"

fun fieldJson :: "cbfsConfig \<Rightarrow> cfgField \<Rightarrow> json" where
  "fieldJson c (FDur _ g _) = JStr (durString (g c))"
| "fieldJson c (FBool _ g _) = JBool (g c)"
| "fieldJson c (FStr _ g _) = JStr (g c)"
| "fieldJson c (FInt _ g _) = JNum (g c)"

definition ToMap :: "cbfsConfig \<Rightarrow> (string \<times> json) list" where
  "ToMap c = map (\<lambda>f. (jsonFieldName f, fieldJson c f)) cfgFields"

definition marshal_config :: "cbfsConfig \<Rightarrow> json" where
  "marshal_config c = JObj (ToMap c)"

section \<open>Setting parameters\<close>

text \<open>An integer as a \<open>float64\<close>: to 53 bits, ties to even; and back to \<open>int64\<close>.\<close>

fun halvings :: "nat \<Rightarrow> nat" where
  "halvings n = (if n < 2 ^ 53 then 0 else Suc (halvings (n div 2)))"

definition f64 :: "int \<Rightarrow> int" where
  "f64 x =
     (let m = nat \<bar>x\<bar>; e = halvings m; q = m div 2 ^ e; r = m mod 2 ^ e;
          q' = (if 2 * r > 2 ^ e \<or> (2 * r = 2 ^ e \<and> odd q) then q + 1 else q)
      in sgn x * int (q' * 2 ^ e))"

definition f64int :: "int \<Rightarrow> int" where
  "f64int x = (let v = f64 x in if i64_range v then v else - (2 ^ 63))"

text \<open>
  The value of an \<open>interface{}\<close>: what a JSON document holds, or a string from a request. A timestamp
  is a string like any other here; \<open>timeText\<close> is its text.
\<close>

datatype ival = IStr string | INum int | IBool bool | IOther

fun ivalOf :: "(time \<Rightarrow> string) \<Rightarrow> json \<Rightarrow> ival" where
  "ivalOf timeText (JStr s) = IStr s"
| "ivalOf timeText (JTime t) = IStr (timeText t)"
| "ivalOf timeText (JNum n) = INum n"
| "ivalOf timeText (JBool b) = IBool b"
| "ivalOf timeText _ = IOther"

datatype setRes = SetOk cbfsConfig | SetErr gerr | SetPanic

fun setField :: "cfgField \<Rightarrow> ival \<Rightarrow> cbfsConfig \<Rightarrow> setRes" where
  "setField (FDur _ _ u) v c =
     (case v of
        IStr s \<Rightarrow> (case parseDuration s of
                   None \<Rightarrow> SetErr (EMsg ''time: invalid duration'') | Some d \<Rightarrow> SetOk (u d c))
      | INum n \<Rightarrow> SetOk (u (f64int n) c)
      | _ \<Rightarrow> SetOk (u 0 c))"
| "setField (FBool _ _ u) v c =
     (case v of
        IStr s \<Rightarrow> (case parseBool s of
                   None \<Rightarrow> SetErr (EMsg ''strconv.ParseBool'') | Some b \<Rightarrow> SetOk (u b c))
      | IBool b \<Rightarrow> SetOk (u b c)
      | _ \<Rightarrow> SetOk (u False c))"
| "setField (FStr _ _ u) v c = (case v of IStr s \<Rightarrow> SetOk (u s c) | _ \<Rightarrow> SetPanic)"
| "setField (FInt _ _ u) v c =
     (case v of
        IStr s \<Rightarrow> (case atoi s of
                   None \<Rightarrow> SetErr (EMsg ''strconv.ParseInt'') | Some n \<Rightarrow> SetOk (u n c))
      | INum n \<Rightarrow> SetOk (u (f64int n) c)
      | _ \<Rightarrow> SetOk (u 0 c))"

fun setIn :: "cfgField list \<Rightarrow> string \<Rightarrow> ival \<Rightarrow> cbfsConfig \<Rightarrow> setRes" where
  "setIn [] name v c = SetErr (EMsg (''unhandled value: '' @ name))"
| "setIn (f # fs) name v c = (if jsonFieldName f \<noteq> name then setIn fs name v c else setField f v c)"

definition SetParameter :: "string \<Rightarrow> ival \<Rightarrow> cbfsConfig \<Rightarrow> setRes" where
  "SetParameter name v c = setIn cfgFields name v c"

fun setAll :: "(string \<times> ival) list \<Rightarrow> cbfsConfig \<Rightarrow> setRes" where
  "setAll [] c = SetOk c"
| "setAll ((k, v) # m) c =
     (case SetParameter k v c of SetOk c' \<Rightarrow> setAll m c' | r \<Rightarrow> r)"

text \<open>Decoding: the members as a Go map (of duplicates the last one), over the defaults.\<close>

definition jsonMap :: "(string \<times> json) list \<Rightarrow> (string \<times> json) list" where
  "jsonMap ms = fold (\<lambda>(k, v) acc. AList.update k v acc) ms []"

definition unmarshal_config :: "(time \<Rightarrow> string) \<Rightarrow> raw \<Rightarrow> setRes" where
  "unmarshal_config timeText r =
     (case r of
        RJson (JObj ms) \<Rightarrow> setAll (map (\<lambda>(k, v). (k, ivalOf timeText v)) (jsonMap ms)) DefaultConfig
      | RJson JNull \<Rightarrow> SetOk DefaultConfig
      | _ \<Rightarrow> SetErr EJson)"

section \<open>In the bucket\<close>

definition configKey :: string where "configKey = ''/@globalConfig''"

definition StoreConfig :: "'db bucket \<Rightarrow> cbfsConfig \<Rightarrow> 'db \<Rightarrow> gerr option \<times> 'db" where
  "StoreConfig cb conf d = cbSet cb configKey 0 (RJson (marshal_config conf)) d"

definition RetrieveConfig :: "'db bucket \<Rightarrow> (time \<Rightarrow> string) \<Rightarrow> 'db \<Rightarrow> setRes" where
  "RetrieveConfig cb timeText d =
     (case cbGet cb configKey d of Inl e \<Rightarrow> SetErr e | Inr r \<Rightarrow> unmarshal_config timeText r)"
section \<open>Lemmas\<close>

subsection \<open>Durations of whole seconds\<close>

lemma isDigit_digitChar [simp]: "d < 10 \<Longrightarrow> isDigit (digitChar d)"
  by (simp add: isDigit_def charDigit_digitChar)

lemma isDigit_showNat: "c \<in> set (showNat n) \<Longrightarrow> isDigit c"
proof (induction n rule: showNat.induct)
  case (1 n)
  then show ?case by (cases "n < 10") (auto simp: showNat.simps [of n])
qed

lemma units_not_digits [simp]:
  "\<not> isDigit CHR ''h''" "\<not> isDigit CHR ''m''" "\<not> isDigit CHR ''s''" "\<not> isDigit CHR ''.''"
  "\<not> isDigit CHR ''-''" "\<not> isDigit CHR ''+''"
  by (simp_all add: isDigit_def charDigit_def)

lemma digitsVal_showNat [simp]: "digitsVal (showNat n) = n"
  by (simp add: digitsVal_def readDigits_showNat)

lemma span_showNat:
  assumes "\<not> isDigit c"
  shows "takeWhile isDigit (showNat n @ c # r) = showNat n" "dropWhile isDigit (showNat n @ c # r) = c # r"
proof -
  have d: "\<forall>x \<in> set (showNat n). isDigit x" using isDigit_showNat by blast
  show "takeWhile isDigit (showNat n @ c # r) = showNat n"
    using d assms by (simp add: takeWhile_append2)
  show "dropWhile isDigit (showNat n @ c # r) = c # r"
    using d assms by (simp add: dropWhile_append2)
qed

lemma parseOne_unit:
  assumes "unitMap [u] = Some unit" and "u \<in> {CHR ''h'', CHR ''m'', CHR ''s''}"
    and "r = [] \<or> isDigit (hd r)" and "n \<le> 2 ^ 63 div unit" and "0 < unit"
  shows "parseOne (showNat n @ u # r) = Some (n * unit, r)"
proof -
  let ?P = "\<lambda>c. c \<noteq> CHR ''.'' \<and> \<not> isDigit c"
  have nd: "\<not> isDigit u" "u \<noteq> CHR ''.''" using assms(2) by auto
  have r: "takeWhile ?P r = []" "dropWhile ?P r = r"
    using assms(3) by (cases r; auto)+
  have "n * unit \<le> 2 ^ 63" using assms(4,5) by (metis div_times_less_eq_dividend mult_le_mono1 order_trans)
  moreover from this have "n \<le> 2 ^ 63" using assms(5) by (cases unit) auto
  ultimately show ?thesis
    using assms(1,4) nd by (simp add: parseOne_def span_showNat [OF nd(1)] r)
qed

lemma unitMap_simps [simp]:
  "unitMap ''s'' = Some 1000000000" "unitMap ''m'' = Some 60000000000" "unitMap ''h'' = Some 3600000000000"
  by (simp_all add: unitMap_def)

declare parseLoop.simps [simp del]

lemma parseLoop_Nil [simp]: "parseLoop [] d = Some d"
  by (subst parseLoop.simps) simp

lemma parseLoop_unit:
  assumes "unitMap [u] = Some unit" and "u \<in> {CHR ''h'', CHR ''m'', CHR ''s''}"
    and "r = [] \<or> isDigit (hd r)" and "d + n * unit \<le> 2 ^ 63" and "0 < unit"
  shows "parseLoop (showNat n @ u # r) d = parseLoop r (d + n * unit)"
proof -
  have "n \<le> 2 ^ 63 div unit" using assms(4,5) by (simp add: less_eq_div_iff_mult_less_eq)
  from parseOne_unit [OF assms(1-3) this assms(5)] show ?thesis
    using assms(4) by (subst parseLoop.simps) simp
qed

lemma hd_showNat_digit [simp]: "isDigit (hd (showNat n))"
  by (metis hd_in_set isDigit_showNat showNat_not_Nil)

lemma dropZeros_pad0: "dropZeros (padNat p 0) = []"
proof (induction p)
  case (Suc p)
  have a: "dropZeros (s @ ''0'') = dropZeros s" for s
    by (induction s) (simp_all add: Let_def)
  have "digitChar 0 = CHR ''0''" by code_simp
  with Suc show ?case by (simp add: a)
qed simp

lemma fmtFrac_whole: "fmtFrac (w * 10 ^ p) p = ([], w)"
  by (simp add: fmtFrac_def dropZeros_pad0)

lemma durString_secs:
  assumes "0 < w"
  shows "durString (int w * second) =
     (if w div 3600 > 0 then showNat (w div 3600) @ ''h'' else []) @
     (if w div 60 > 0 then showNat (w div 60 mod 60) @ ''m'' else []) @ showNat (w mod 60) @ ''s''"
proof -
  have u: "nat \<bar>int w * second\<bar> = w * 10 ^ 9" by (simp add: second_def nat_mult_distrib)
  have "\<not> w * 10 ^ 9 < 1000000000" "w * 10 ^ 9 \<noteq> 0" "\<not> int w * second < 0"
    using assms by (simp_all add: second_def)
  moreover have "w div 60 div 60 = w div 3600" by (simp add: div_mult2_eq [symmetric])
  ultimately show ?thesis
    unfolding durString_def Let_def u fmtFrac_whole by simp
qed

lemma parseLoop_durString:
  assumes "0 < w" and "int w * second < 2 ^ 63"
  shows "parseLoop (durString (int w * second)) 0 = Some (w * 1000000000)"
proof -
  let ?h = "w div 3600" and ?m = "w div 60 mod 60" and ?s = "w mod 60"
  have sum: "?h * 3600000000000 + ?m * 60000000000 + ?s * 1000000000 = w * 1000000000"
  proof -
    have "w = 60 * (w div 60) + w mod 60" by simp
    moreover have "w div 60 = 60 * (w div 60 div 60) + ?m" by simp
    moreover have "w div 60 div 60 = ?h" by (simp add: div_mult2_eq [symmetric])
    ultimately show ?thesis by linarith
  qed
  have b: "w * 1000000000 < 2 ^ 63"
    using assms(2) by (simp add: second_def)
  have s: "parseLoop (showNat ?s @ ''s'') d = Some (d + ?s * 1000000000)" if "d + ?s * 1000000000 \<le> 2 ^ 63" for d
    using parseLoop_unit [of "CHR ''s''" _ "[]" d ?s] that by simp
  have m: "parseLoop (showNat ?m @ ''m'' @ showNat ?s @ ''s'') d = Some (d + ?m * 60000000000 + ?s * 1000000000)"
    if "d + ?m * 60000000000 + ?s * 1000000000 \<le> 2 ^ 63" for d
    using parseLoop_unit [of "CHR ''m''" _ "showNat ?s @ ''s''" d ?m] s [of "d + ?m * 60000000000"] that by simp
  have h: "parseLoop (showNat ?h @ ''h'' @ showNat ?m @ ''m'' @ showNat ?s @ ''s'') 0
      = Some (?h * 3600000000000 + ?m * 60000000000 + ?s * 1000000000)"
    using parseLoop_unit [of "CHR ''h''" _ "showNat ?m @ ''m'' @ showNat ?s @ ''s''" 0 ?h]
      m [of "?h * 3600000000000"] sum b by simp
  have z: "?h = 0 \<Longrightarrow> ?m = w div 60" "w div 60 = 0 \<Longrightarrow> ?h = 0" "w div 60 = 0 \<Longrightarrow> ?m = 0"
    by (simp_all add: div_eq_0_iff)
  show ?thesis
    unfolding durString_secs [OF assms(1)]
    using h m [of 0] s [of 0] sum b z by auto
qed
declare halvings.simps [simp del]

text \<open>A duration that \<open>String\<close> prints without a fraction and without a sign.\<close>

definition wholeSecs :: "duration \<Rightarrow> bool" where
  "wholeSecs d \<longleftrightarrow> 0 \<le> d \<and> d < 2 ^ 63 \<and> second dvd d"

lemma hd_durString:
  assumes "0 < w"
  shows "isDigit (hd (durString (int w * second)))" "durString (int w * second) \<noteq> []"
    "durString (int w * second) \<noteq> ''0''"
proof -
  obtain n r where "durString (int w * second) = showNat n @ r" "r \<noteq> []"
    unfolding durString_secs [OF assms] by (cases "w div 3600 > 0"; cases "w div 60 > 0") auto
  moreover have "length (showNat n) > 0" by simp
  ultimately show "isDigit (hd (durString (int w * second)))" "durString (int w * second) \<noteq> []"
    "durString (int w * second) \<noteq> ''0''"
    by (auto simp: append_eq_Cons_conv)
qed

lemma parseDuration_durString:
  assumes "wholeSecs d"
  shows "parseDuration (durString d) = Some d"
proof (cases "d = 0")
  case True
  have z: "showNat 0 = ''0''" by code_simp
  have "parseLoop ''0s'' 0 = Some 0"
    using parseLoop_unit [of "CHR ''s''" _ "[]" 0 0] by (simp add: z)
  with True show ?thesis by (simp add: durString_def parseDuration_def)
next
  case False
  obtain k where k: "d = second * k" using assms by (auto simp: wholeSecs_def)
  with assms False have "0 < k" by (simp add: wholeSecs_def second_def zero_less_mult_iff)
  then obtain w where w: "k = int w" "0 < w" by (metis of_nat_0_less_iff zero_less_imp_eq_int)
  with k have d: "d = int w * second" by simp
  have "hd (durString d) \<noteq> CHR ''-''" "hd (durString d) \<noteq> CHR ''+''"
    using hd_durString(1) [OF w(2)] d by (metis units_not_digits(5,6))+
  moreover have "w * 1000000000 < 2 ^ 63"
    using assms d by (simp add: wholeSecs_def second_def)
  ultimately show ?thesis
    using hd_durString(2,3) [OF w(2)] parseLoop_durString [OF w(2)] assms d
    by (simp add: parseDuration_def wholeSecs_def second_def)
qed

lemma f64int_exact: "\<bar>n\<bar> \<le> 2 ^ 53 \<Longrightarrow> f64int n = n"
proof -
  assume n: "\<bar>n\<bar> \<le> 2 ^ 53"
  have "f64 n = n"
  proof (cases "nat \<bar>n\<bar> < 2 ^ 53")
    case True
    then show ?thesis
      by (simp add: f64_def halvings.simps [of "nat \<bar>n\<bar>"] sgn_if)
  next
    case False
    with n have "nat \<bar>n\<bar> = 2 ^ 53" by simp
    moreover have "halvings (2 ^ 53) = 1"
      by (simp add: halvings.simps [of 9007199254740992] halvings.simps [of 4503599627370496])
    ultimately show ?thesis by (auto simp: f64_def sgn_if)
  qed
  moreover have "i64_range n" using n by (simp add: i64_range_def abs_le_iff)
  ultimately show ?thesis by (simp add: f64int_def)
qed

subsection \<open>Setting parameters\<close>

fun fieldOk :: "cbfsConfig \<Rightarrow> cfgField \<Rightarrow> bool" where
  "fieldOk c (FDur _ g _) = wholeSecs (g c)"
| "fieldOk c (FInt _ g _) = (\<bar>g c\<bar> \<le> 2 ^ 53)"
| "fieldOk c _ = True"

definition wf_config :: "cbfsConfig \<Rightarrow> bool" where
  "wf_config c \<longleftrightarrow> list_all (fieldOk c) cfgFields"

fun copyField :: "cbfsConfig \<Rightarrow> cfgField \<Rightarrow> cbfsConfig \<Rightarrow> cbfsConfig" where
  "copyField c (FDur _ g u) = u (g c)"
| "copyField c (FBool _ g u) = u (g c)"
| "copyField c (FStr _ g u) = u (g c)"
| "copyField c (FInt _ g u) = u (g c)"

lemma setField_fieldJson:
  "fieldOk c f \<Longrightarrow> setField f (ivalOf tt (fieldJson c f)) x = SetOk (copyField c f x)"
  by (cases f) (simp_all add: parseDuration_durString f64int_exact)

lemma setIn_field:
  "distinct (map jsonFieldName fs) \<Longrightarrow> f \<in> set fs \<Longrightarrow> setIn fs (jsonFieldName f) v x = setField f v x"
  by (induction fs) auto

lemma distinct_cfgFields: "distinct (map jsonFieldName cfgFields)"
  by (simp add: cfgFields_def)

lemma setAll_copy:
  assumes "list_all (fieldOk c) fs" and "set fs \<subseteq> set cfgFields"
  shows "setAll (map (\<lambda>f. (jsonFieldName f, ivalOf tt (fieldJson c f))) fs) x
       = SetOk (fold (copyField c) fs x)"
  using assms
  by (induction fs arbitrary: x)
    (simp_all add: SetParameter_def setIn_field [OF distinct_cfgFields] setField_fieldJson)

lemma copy_all: "fold (copyField c) cfgFields x = c"
  by (simp add: cfgFields_def)

lemma jsonMap_distinct: "distinct (map fst ms) \<Longrightarrow> jsonMap ms = ms"
proof -
  have "distinct (map fst (acc @ ms)) \<Longrightarrow> fold (\<lambda>(k, v) acc. AList.update k v acc) ms acc = acc @ ms" for acc
  proof (induction ms arbitrary: acc)
    case (Cons m ms)
    have u: "AList.update (fst m) (snd m) acc = acc @ [m]"
      using Cons.prems update_new [of "fst m" acc "snd m"] by auto
    have "distinct (map fst ((acc @ [m]) @ ms))" using Cons.prems by simp
    from Cons.IH [OF this] show ?case by (simp add: split_beta u)
  qed simp
  from this [of "[]"] show "distinct (map fst ms) \<Longrightarrow> jsonMap ms = ms" by (simp add: jsonMap_def)
qed

lemma config_roundtrip:
  assumes "wf_config c"
  shows "unmarshal_config tt (RJson (marshal_config c)) = SetOk c"
proof -
  have d: "distinct (map fst (ToMap c))" using distinct_cfgFields by (simp add: ToMap_def comp_def)
  have "setAll (map (\<lambda>(k, v). (k, ivalOf tt v)) (ToMap c)) DefaultConfig
      = setAll (map (\<lambda>f. (jsonFieldName f, ivalOf tt (fieldJson c f))) cfgFields) DefaultConfig"
    by (simp add: ToMap_def comp_def)
  also have "\<dots> = SetOk c"
    using setAll_copy [of c cfgFields tt DefaultConfig] assms by (simp add: wf_config_def copy_all)
  finally show ?thesis by (simp add: unmarshal_config_def marshal_config_def jsonMap_distinct [OF d])
qed

text \<open>The setters act on different fields.\<close>

lemma setField_frame:
  assumes "f \<in> set cfgFields" "g \<in> set cfgFields" "jsonFieldName f \<noteq> jsonFieldName g"
    and "setField f v c = SetOk c'"
  shows "fieldJson c' g = fieldJson c g"
proof -
  have "\<forall>f \<in> set cfgFields. \<forall>g \<in> set cfgFields. jsonFieldName f \<noteq> jsonFieldName g \<longrightarrow>
      (case f of FDur _ _ u \<Rightarrow> \<forall>x. fieldJson (u x c) g = fieldJson c g
       | FBool _ _ u \<Rightarrow> \<forall>x. fieldJson (u x c) g = fieldJson c g
       | FStr _ _ u \<Rightarrow> \<forall>x. fieldJson (u x c) g = fieldJson c g
       | FInt _ _ u \<Rightarrow> \<forall>x. fieldJson (u x c) g = fieldJson c g)"
    by (simp add: cfgFields_def)
  with assms(1-3) have "case f of FDur _ _ u \<Rightarrow> \<forall>x. fieldJson (u x c) g = fieldJson c g
       | FBool _ _ u \<Rightarrow> \<forall>x. fieldJson (u x c) g = fieldJson c g
       | FStr _ _ u \<Rightarrow> \<forall>x. fieldJson (u x c) g = fieldJson c g
       | FInt _ _ u \<Rightarrow> \<forall>x. fieldJson (u x c) g = fieldJson c g"
    by blast
  then show ?thesis
    using assms(4) by (cases f) (auto split: ival.splits option.splits)
qed

lemma setIn_cases:
  "setIn fs name v c = (case find (\<lambda>f. jsonFieldName f = name) fs of
     None \<Rightarrow> SetErr (EMsg (''unhandled value: '' @ name)) | Some f \<Rightarrow> setField f v c)"
  by (induction fs) auto
section \<open>Properties\<close>

text \<open>
  C38: a configuration whose durations are whole seconds and whose numbers fit a \<open>float64\<close> exactly comes
  back from the bucket as it was stored: every later read that succeeds decodes to it.
\<close>

theorem config_stored_and_retrieved:
  assumes "bucket_ok cb st" and "wf_config c"
    and "StoreConfig cb c d = (None, d')" and "cbGet cb configKey d' = Inr v"
  shows "RetrieveConfig cb timeText d' = SetOk c"
proof -
  have "st d' = (st d)(configKey \<mapsto> RJson (marshal_config c))"
    using bucket_okD(2) [OF assms(1)] assms(3) by (auto simp: set_ok_def StoreConfig_def)
  moreover have "st d' configKey = Some v"
    using bucket_okD(1) [OF assms(1)] assms(4) by (auto simp: get_ok_def)
  ultimately have "v = RJson (marshal_config c)" by simp
  with assms(4) show ?thesis by (simp add: RetrieveConfig_def config_roundtrip [OF assms(2)])
qed

theorem config_stored_and_retrieved_witness:
  "RetrieveConfig (memBucket noView) (\<lambda>t. []) (snd (StoreConfig (memBucket noView) DefaultConfig [])) = SetOk DefaultConfig"
proof -
  have w: "wf_config DefaultConfig"
    by (simp add: wf_config_def cfgFields_def DefaultConfig_def wholeSecs_def duration_defs)
  have s: "StoreConfig (memBucket noView) DefaultConfig [] = (None, [(configKey, RJson (marshal_config DefaultConfig))])"
    by (simp add: StoreConfig_def memBucket_def memSet_def)
  have g: "cbGet (memBucket noView) configKey [(configKey, RJson (marshal_config DefaultConfig))]
      = Inr (RJson (marshal_config DefaultConfig))"
    by (simp add: memBucket_def)
  from config_stored_and_retrieved [OF memBucket_ok w s g] show ?thesis by (simp add: s)
qed

text \<open>
  setting a parameter by name changes that parameter and no other; a name that is no parameter is
  an error, and so is a text that does not parse as the parameter's type. Only a value that is not a
  string, given for the hash, panics.
\<close>

theorem SetParameter_changes_one:
  "(SetParameter name v c = SetOk c' \<longrightarrow>
      (\<forall>f \<in> set cfgFields. jsonFieldName f \<noteq> name \<longrightarrow> fieldJson c' f = fieldJson c f)) \<and>
   (name \<notin> jsonFieldName ` set cfgFields \<longrightarrow>
      SetParameter name v c = SetErr (EMsg (''unhandled value: '' @ name))) \<and>
   (SetParameter name v c = SetPanic \<longleftrightarrow> name = ''hash'' \<and> (\<forall>s. v \<noteq> IStr s))"
proof (cases "find (\<lambda>f. jsonFieldName f = name) cfgFields")
  case None
  then have "SetParameter name v c = SetErr (EMsg (''unhandled value: '' @ name))"
    by (simp add: SetParameter_def setIn_cases)
  moreover have "name \<noteq> ''hash''" using None by (auto simp: find_None_iff cfgFields_def)
  ultimately show ?thesis by simp
next
  case (Some f)
  then have f: "f \<in> set cfgFields" "jsonFieldName f = name"
    by (auto simp: find_Some_iff)
  from Some have s: "SetParameter name v c = setField f v c"
    by (simp add: SetParameter_def setIn_cases)
  have "setField f v c = SetPanic \<longleftrightarrow> name = ''hash'' \<and> (\<forall>s. v \<noteq> IStr s)"
  proof -
    have "setField f v c = SetPanic \<longleftrightarrow> (\<exists>n g u. f = FStr n g u) \<and> (\<forall>s. v \<noteq> IStr s)"
      by (cases f; cases v) (auto split: option.splits)
    moreover have "(\<exists>n g u. f = FStr n g u) \<longleftrightarrow> jsonFieldName f = ''hash''"
      using f(1) by (auto simp: cfgFields_def)
    ultimately show ?thesis using f(2) by simp
  qed
  with s f setField_frame [OF f(1)] show ?thesis by (auto simp: image_iff)
qed

theorem SetParameter_changes_one_witness:
  "\<exists>c'. SetParameter ''minrepl'' (IStr ''4'') DefaultConfig = SetOk c' \<and>
     fieldJson c' (FInt ''maxrepl'' cf_MaxReplicas (\<lambda>v c. c\<lparr>cf_MaxReplicas := v\<rparr>)) = JNum 5"
proof -
  let ?f = "FInt ''maxrepl'' cf_MaxReplicas (\<lambda>v c. c\<lparr>cf_MaxReplicas := v\<rparr>)"
  let ?c = "DefaultConfig\<lparr>cf_MinReplicas := 4\<rparr>"
  have "atoi ''4'' = Some 4" by code_simp
  then have s: "SetParameter ''minrepl'' (IStr ''4'') DefaultConfig = SetOk ?c"
    by (simp add: SetParameter_def cfgFields_def)
  have "?f \<in> set cfgFields" "jsonFieldName ?f \<noteq> ''minrepl''" by (simp_all add: cfgFields_def)
  with s SetParameter_changes_one [of "''minrepl''" "IStr ''4''" DefaultConfig ?c]
  have "fieldJson ?c ?f = fieldJson DefaultConfig ?f" by blast
  with s show ?thesis by (simp add: DefaultConfig_def)
qed

end
