(* ===== verification/Nodes.thy ===== *)
theory Nodes
  imports Config "HOL-Library.Multiset"
begin

text \<open>
  Storage nodes: \<open>src/nodes.go\<close>, the registry of node names (\<open>src/registry.go\<close>) and the heartbeat
  that publishes a node's state (\<open>src/heartbeat.go\<close>).

  A \<open>NodeList\<close> is a list of records; the loops over it are recursive functions with the code's
  bodies. \<open>sort.Sort\<close> is the insertion sort that Go runs on up to twelve elements (\<open>sortGo\<close>); the
  lemmas use of it only that it permutes its argument, which any sort by \<open>Swap\<close> does. What a node
  reads of its environment (its id, the configuration, the registry keys, the flags) is the record
  \<open>env\<close>; the clock is a parameter, with one reading per invocation of an update callback.

  Lemmas: the node filters keep order and contents; the registry callbacks meet the contract of an
  update callback, never panic on a document they wrote, and set or remove exactly one entry; the JSON
  form of a node is faithful; the space and ticker arithmetic.
\<close>

section \<open>Environment\<close>

record env =
  e_serverId :: string
  e_conf :: cbfsConfig
  e_root :: string
  e_nodeListKeys :: "string list"
  e_maxStorage :: int
  e_bindAddr :: string
  e_framesBind :: string
  e_VERSION :: string
  e_cachePercentage :: int

text \<open>A Go call that may panic.\<close>

datatype 'a go = Ret 'a | Panic

section \<open>Nodes\<close>

record storageNode =
  sn_Addr :: string
  sn_Type :: string
  sn_Started :: time
  sn_Time :: time
  sn_BindAddr :: string
  sn_FrameBind :: string
  sn_Used :: int
  sn_Free :: int
  sn_Version :: string
  sn_name :: string
  sn_storageSize :: int

definition storageNode_zero :: storageNode where
  "storageNode_zero =
     \<lparr>sn_Addr = [], sn_Type = [], sn_Started = 0, sn_Time = 0, sn_BindAddr = [], sn_FrameBind = [],
      sn_Used = 0, sn_Free = 0, sn_Version = [], sn_name = [], sn_storageSize = 0\<rparr>"

text \<open>The JSON form has the exported fields only.\<close>

definition marshal_node :: "storageNode \<Rightarrow> json" where
  "marshal_node n =
     JObj [(''addr'', JStr (sn_Addr n)), (''type'', JStr (sn_Type n)), (''started'', JTime (sn_Started n)),
           (''time'', JTime (sn_Time n)), (''bindaddr'', JStr (sn_BindAddr n)),
           (''framebind'', JStr (sn_FrameBind n)), (''used'', JNum (sn_Used n)),
           (''free'', JNum (sn_Free n)), (''version'', JStr (sn_Version n))]"

definition fields_node :: "(string \<times> json) list \<Rightarrow> storageNode option" where
  "fields_node ms = do {
     a \<leftarrow> fld ''addr'' decStr [] ms;
     ty \<leftarrow> fld ''type'' decStr [] ms;
     s \<leftarrow> fld ''started'' decTime 0 ms;
     t \<leftarrow> fld ''time'' decTime 0 ms;
     b \<leftarrow> fld ''bindaddr'' decStr [] ms;
     fb \<leftarrow> fld ''framebind'' decStr [] ms;
     u \<leftarrow> fld ''used'' decInt 0 ms;
     f \<leftarrow> fld ''free'' decInt 0 ms;
     v \<leftarrow> fld ''version'' decStr [] ms;
     Some \<lparr>sn_Addr = a, sn_Type = ty, sn_Started = s, sn_Time = t, sn_BindAddr = b, sn_FrameBind = fb,
           sn_Used = u, sn_Free = f, sn_Version = v, sn_name = [], sn_storageSize = 0\<rparr> }"

definition unmarshal_node :: "raw option \<Rightarrow> storageNode option" where
  "unmarshal_node r = unmarshal fields_node r"

definition Address :: "storageNode \<Rightarrow> string" where
  "Address a = (if hasPrefix (sn_BindAddr a) '':'' then sn_Addr a @ sn_BindAddr a else sn_BindAddr a)"

definition FrameAddress :: "storageNode \<Rightarrow> string" where
  "FrameAddress a = (if hasPrefix (sn_FrameBind a) '':'' then sn_Addr a @ sn_FrameBind a else sn_FrameBind a)"

datatype httpClient = DefaultClient | FrameClient string

definition Client :: "storageNode \<Rightarrow> httpClient" where
  "Client a = (let addr = FrameAddress a in if addr = [] then DefaultClient else FrameClient addr)"

definition largishObject :: int where "largishObject = 256 * 1024"

definition ClientForTransfer :: "int \<Rightarrow> storageNode \<Rightarrow> httpClient" where
  "ClientForTransfer l a = (if l > largishObject then DefaultClient else Client a)"

definition BlobURL :: "string \<Rightarrow> storageNode \<Rightarrow> string" where
  "BlobURL h a = ''http://'' @ Address a @ ''/.cbfs/blob/'' @ h"

definition fetchURL :: "string \<Rightarrow> storageNode \<Rightarrow> string" where
  "fetchURL h a = ''http://'' @ Address a @ ''/.cbfs/fetch/'' @ h"

definition findNode :: "'db bucket \<Rightarrow> string \<Rightarrow> 'db \<Rightarrow> gerr + storageNode" where
  "findNode cb name d =
     (case cbGet cb (''/'' @ name) d of
        Inl e \<Rightarrow> Inl e
      | Inr v \<Rightarrow> (case unmarshal_node (Some v) of None \<Rightarrow> Inl EJson | Some n \<Rightarrow> Inr n))"

definition IsDead :: "env \<Rightarrow> 'db bucket \<Rightarrow> time \<Rightarrow> storageNode \<Rightarrow> 'db \<Rightarrow> bool" where
  "IsDead e cb now n d =
     (case findNode cb (sn_name n) d of
        Inr nn \<Rightarrow> timeSub now (sn_Time nn) > cf_StaleNodeLimit (e_conf e)
      | Inl _ \<Rightarrow> False)"

definition IsLocal :: "env \<Rightarrow> storageNode \<Rightarrow> bool" where
  "IsLocal e n \<longleftrightarrow> sn_name n = e_serverId e"

section \<open>Node lists\<close>

type_synonym nodeList = "storageNode list"

text \<open>\<open>rand.Intn(1)\<close> is always 0, so the first branch is true.\<close>

definition Less :: "env \<Rightarrow> storageNode \<Rightarrow> storageNode \<Rightarrow> bool" where
  "Less e a b =
     (let t0 = timeSub (sn_Time a) (sn_Time b);
          tdiff = (if t0 < 0 then i64 (- t0) else t0) in
      if tdiff < cf_HeartbeatFreq (e_conf e) then True
      else sn_Time a > sn_Time b)"

fun bubble :: "('a \<Rightarrow> 'a \<Rightarrow> bool) \<Rightarrow> 'a \<Rightarrow> 'a list \<Rightarrow> 'a list" where
  "bubble lt x [] = [x]"
| "bubble lt x (p # ps) = (if lt x p then p # bubble lt x ps else x # p # ps)"

definition sortGo :: "('a \<Rightarrow> 'a \<Rightarrow> bool) \<Rightarrow> 'a list \<Rightarrow> 'a list" where
  "sortGo lt xs = rev (fold (bubble lt) xs [])"

fun minusLocal :: "env \<Rightarrow> nodeList \<Rightarrow> nodeList" where
  "minusLocal e [] = []"
| "minusLocal e (n # nl) = (if \<not> IsLocal e n then n # minusLocal e nl else minusLocal e nl)"

fun foundIn :: "storageNode \<Rightarrow> nodeList \<Rightarrow> bool" where
  "foundIn n [] = False"
| "foundIn n (p # others) = (if sn_name p = sn_name n then True else foundIn n others)"

fun nlMinus :: "nodeList \<Rightarrow> nodeList \<Rightarrow> nodeList" where
  "nlMinus other [] = []"
| "nlMinus other (n # nl) = (if \<not> foundIn n other then n # nlMinus other nl else nlMinus other nl)"

fun named :: "string \<Rightarrow> nodeList \<Rightarrow> storageNode" where
  "named name [] = storageNode_zero"
| "named name (sn # nl) = (if sn_name sn = name then sn else named name nl)"

fun withAtLeast :: "int \<Rightarrow> nodeList \<Rightarrow> nodeList" where
  "withAtLeast free [] = []"
| "withAtLeast free (n # nl) = (if sn_Free n > free then n # withAtLeast free nl else withAtLeast free nl)"

fun withNoMoreThan :: "int \<Rightarrow> nodeList \<Rightarrow> nodeList" where
  "withNoMoreThan free [] = []"
| "withNoMoreThan free (n # nl) =
     (if sn_Free n \<le> free then n # withNoMoreThan free nl else withNoMoreThan free nl)"

fun BlobURLs :: "string \<Rightarrow> nodeList \<Rightarrow> string list" where
  "BlobURLs h [] = []"
| "BlobURLs h (n # nl) = BlobURL h n # BlobURLs h nl"

section \<open>The registry\<close>

record nodeRegistry =
  reg_Nodes :: "(string, int) gomap"
  reg_LastModTime :: time
  reg_LastModBy :: string

definition nodeRegistry_zero :: nodeRegistry where
  "nodeRegistry_zero = \<lparr>reg_Nodes = None, reg_LastModTime = 0, reg_LastModBy = []\<rparr>"

definition marshal_reg :: "nodeRegistry \<Rightarrow> json" where
  "marshal_reg r =
     JObj [(''nodes'', encMap JNum (reg_Nodes r)), (''lastModTime'', JTime (reg_LastModTime r)),
           (''lastModBy'', JStr (reg_LastModBy r))]"

definition fields_reg :: "(string \<times> json) list \<Rightarrow> nodeRegistry option" where
  "fields_reg ms = do {
     ns \<leftarrow> fld ''nodes'' (decMap decInt 0) None ms;
     t \<leftarrow> fld ''lastModTime'' decTime 0 ms;
     b \<leftarrow> fld ''lastModBy'' decStr [] ms;
     Some \<lparr>reg_Nodes = ns, reg_LastModTime = t, reg_LastModBy = b\<rparr> }"

definition unmarshal_reg :: "raw option \<Rightarrow> nodeRegistry option" where
  "unmarshal_reg r = unmarshal fields_reg r"

definition nodeListPrefix :: string where "nodeListPrefix = ''/@nodes''"

definition initNodeListKeys :: "nat \<Rightarrow> string list" where
  "initNodeListKeys nodeKeys = nodeListPrefix # map (\<lambda>i. nodeListPrefix @ ''.'' @ showNat i) [0..<nodeKeys]"

definition validateServerId :: "string \<Rightarrow> gerr option" where
  "validateServerId s =
     (case s of
        [] \<Rightarrow> Some (EMsg (''Invalid server id: '' @ s))
      | c # _ \<Rightarrow> if c = CHR ''/'' \<or> c = CHR ''@'' then Some (EMsg (''Invalid server id: '' @ s)) else None)"

definition errslice_Error :: "string list \<Rightarrow> string" where
  "errslice_Error es = ''{Errors: '' @ joinWith '', '' es @ ''}''"

text \<open>
  The callbacks. The captured variable is the number of clock readings so far; storing into a nil map
  panics.
\<close>

definition setReg_cb ::
  "string \<Rightarrow> (nat \<Rightarrow> time) \<Rightarrow> string \<Rightarrow> int \<Rightarrow> nat \<Rightarrow> raw option \<Rightarrow> nat \<times> upd" where
  "setReg_cb serverId clk nodeID sz n x =
     (case (case unmarshal_reg x of
              Some reg \<Rightarrow> map_option (\<lambda>m. reg\<lparr>reg_Nodes := m\<rparr>) (mput nodeID sz (reg_Nodes reg))
            | None \<Rightarrow> Some (nodeRegistry_zero\<lparr>reg_Nodes := Some [(nodeID, sz)]\<rparr>)) of
        None \<Rightarrow> (n, UPanic)
      | Some reg \<Rightarrow>
          (Suc n, UStore (RJson (marshal_reg (reg\<lparr>reg_LastModTime := clk n, reg_LastModBy := serverId\<rparr>)))))"

definition delReg_cb ::
  "string \<Rightarrow> (nat \<Rightarrow> time) \<Rightarrow> string \<Rightarrow> nat \<Rightarrow> raw option \<Rightarrow> nat \<times> upd" where
  "delReg_cb serverId clk nodeID n x =
     (case unmarshal_reg x of
        Some reg \<Rightarrow>
          (Suc n, UStore (RJson (marshal_reg (reg\<lparr>reg_Nodes := mdel nodeID (reg_Nodes reg),
             reg_LastModTime := clk n, reg_LastModBy := serverId\<rparr>))))
      | None \<Rightarrow> (n, UErr EUpdateCancel))"

text \<open>\<open>clk k i\<close> is the \<open>i\<close>-th reading of the clock during the update of key \<open>k\<close>.\<close>

fun updateRegs ::
  "'db bucket \<Rightarrow> (string \<Rightarrow> raw option list \<Rightarrow> upd) \<Rightarrow> string list \<Rightarrow> 'db \<Rightarrow> gerr list go \<times> 'db" where
  "updateRegs cb f [] d = (Ret [], d)"
| "updateRegs cb f (k # ks) d =
     (case cbUpdate cb k 0 (f k) d of
        (_, UpdPanic, d') \<Rightarrow> (Panic, d')
      | (_, UpdErr e, d') \<Rightarrow>
          (case updateRegs cb f ks d' of (Ret es, d'') \<Rightarrow> (Ret (e # es), d'') | (Panic, d'') \<Rightarrow> (Panic, d''))
      | (_, UpdOk, d') \<Rightarrow> updateRegs cb f ks d')"

definition setInNodeRegistry ::
  "env \<Rightarrow> 'db bucket \<Rightarrow> (string \<Rightarrow> nat \<Rightarrow> time) \<Rightarrow> string \<Rightarrow> int \<Rightarrow> 'db \<Rightarrow> gerr list go \<times> 'db" where
  "setInNodeRegistry e cb clk nodeID sz d =
     updateRegs cb (\<lambda>k. closure (setReg_cb (e_serverId e) (clk k) nodeID sz) 0) (e_nodeListKeys e) d"

definition removeFromNodeRegistry ::
  "env \<Rightarrow> 'db bucket \<Rightarrow> (string \<Rightarrow> nat \<Rightarrow> time) \<Rightarrow> string \<Rightarrow> 'db \<Rightarrow> gerr list go \<times> 'db" where
  "removeFromNodeRegistry e cb clk nodeID d =
     updateRegs cb (\<lambda>k. closure (delReg_cb (e_serverId e) (clk k) nodeID) 0) (e_nodeListKeys e) d"

fun retrieveFrom :: "'db bucket \<Rightarrow> string list \<Rightarrow> gerr + nodeRegistry \<Rightarrow> 'db \<Rightarrow> gerr + nodeRegistry" where
  "retrieveFrom cb [] lastErr d = lastErr"
| "retrieveFrom cb (k # ks) lastErr d =
     (case cbGet cb k d of
        Inl e \<Rightarrow> retrieveFrom cb ks (Inl e) d
      | Inr v \<Rightarrow> (case unmarshal_reg (Some v) of
                   Some reg \<Rightarrow> Inr reg
                 | None \<Rightarrow> retrieveFrom cb ks (Inl EJson) d))"

definition retrieveNodeRegistry :: "env \<Rightarrow> 'db bucket \<Rightarrow> 'db \<Rightarrow> gerr + nodeRegistry" where
  "retrieveNodeRegistry e cb d = retrieveFrom cb (e_nodeListKeys e) (Inr nodeRegistry_zero) d"

text \<open>
  \<open>initServerId\<close>: the configured id, or eight digits of the hash of the time. \<open>getHash\<close> is nil
  for a hash that is not available, and calling it panics; a digest shorter than four bytes would be
  sliced out of range.
\<close>

definition initServerId :: "string \<Rightarrow> (string \<Rightarrow> string) option \<Rightarrow> string \<Rightarrow> string go" where
  "initServerId serverId h timeText =
     (if serverId \<noteq> [] then Ret serverId
      else case h of
             None \<Rightarrow> Panic
           | Some sm \<Rightarrow> (let x = hexEncode (sm timeText) in if length x < 8 then Panic else Ret (take 8 x)))"

section \<open>Finding nodes\<close>

fun nodesOf :: "(string, int) gomap \<Rightarrow> (string \<times> raw option) list \<Rightarrow> nodeList" where
  "nodesOf sizes [] = []"
| "nodesOf sizes ((nid, body) # bres) =
     (case body of
        None \<Rightarrow> nodesOf sizes bres
      | Some b \<Rightarrow>
          (case unmarshal_node (Some b) of
             None \<Rightarrow> nodesOf sizes bres
           | Some n \<Rightarrow>
               n\<lparr>sn_name := tl nid,
                 sn_storageSize := (case mget sizes (tl nid) of None \<Rightarrow> 0 | Some s \<Rightarrow> s)\<rparr>
               # nodesOf sizes bres))"

definition findAllNodes :: "env \<Rightarrow> 'db bucket \<Rightarrow> 'db \<Rightarrow> gerr + nodeList" where
  "findAllNodes e cb d =
     (case retrieveNodeRegistry e cb d of
        Inl er \<Rightarrow> Inl er
      | Inr reg \<Rightarrow>
          (case cbGetBulk cb (map (\<lambda>(k, v). ''/'' @ k) (mrange (reg_Nodes reg))) d of
             Inl er \<Rightarrow> Inl er
           | Inr bres \<Rightarrow> Inr (sortGo (Less e) (nodesOf (reg_Nodes reg) bres))))"

definition findNodeMap :: "env \<Rightarrow> 'db bucket \<Rightarrow> 'db \<Rightarrow> gerr + (string \<times> storageNode) list" where
  "findNodeMap e cb d =
     (case findAllNodes e cb d of
        Inl er \<Rightarrow> Inl er
      | Inr nl \<Rightarrow> Inr (fold (\<lambda>n m. AList.update (sn_name n) n m) nl []))"

definition findRemoteNodes :: "env \<Rightarrow> 'db bucket \<Rightarrow> 'db \<Rightarrow> gerr + nodeList" where
  "findRemoteNodes e cb d =
     (case findAllNodes e cb d of Inl er \<Rightarrow> Inl er | Inr nl \<Rightarrow> Inr (minusLocal e nl))"

text \<open>The rows of a view decoded as (key, value) pairs; a row of another shape is a decoding error.\<close>

fun sizeRows :: "vrow list \<Rightarrow> (string \<times> int) list option" where
  "sizeRows [] = Some []"
| "sizeRows (r # rs) =
     (case (vr_key r, vr_value r) of
        (JStr k, JNum v) \<Rightarrow> map_option ((#) (k, f64int v)) (sizeRows rs)
      | _ \<Rightarrow> None)"

fun setSizes ::
  "env \<Rightarrow> 'db bucket \<Rightarrow> (string \<Rightarrow> string \<Rightarrow> nat \<Rightarrow> time) \<Rightarrow> (string \<times> int) list \<Rightarrow> 'db
     \<Rightarrow> gerr list go \<times> 'db" where
  "setSizes e cb clk [] d = (Ret [], d)"
| "setSizes e cb clk ((k, v) # rs) d =
     (case setInNodeRegistry e cb (clk k) k v d of
        (Ret [], d') \<Rightarrow> setSizes e cb clk rs d'
      | r \<Rightarrow> r)"

definition updateNodeSizes ::
  "env \<Rightarrow> 'db bucket \<Rightarrow> (string \<Rightarrow> string \<Rightarrow> nat \<Rightarrow> time) \<Rightarrow> 'db \<Rightarrow> gerr list go \<times> 'db" where
  "updateNodeSizes e cb clk d =
     (case cbView cb ''node_size'' [(''group_level'', JNum 1)] d of
        Inl er \<Rightarrow> (Ret [er], d)
      | Inr res \<Rightarrow>
          (case sizeRows (vRows res) of
             None \<Rightarrow> (Ret [EJson], d)
           | Some rs \<Rightarrow> setSizes e cb clk rs d))"

section \<open>The heartbeat\<close>

definition availableSpace :: "env \<Rightarrow> gerr + int \<Rightarrow> int \<Rightarrow> int" where
  "availableSpace e fsFree spaceUsed =
     (let freeSpace = (case fsFree of Inr f \<Rightarrow> f | Inl _ \<Rightarrow> e_maxStorage e) in
      if e_maxStorage e > 0 then
        (let a0 = i64 (e_maxStorage e - spaceUsed); avail = (if a0 < 0 then 0 else a0) in
         if freeSpace > avail then avail else freeSpace)
      else freeSpace)"

definition increaseSpaceUsed :: "int \<Rightarrow> int \<Rightarrow> int" where
  "increaseSpaceUsed by spaceUsed = i64 (spaceUsed + by)"

definition updateSpaceUsed :: "env \<Rightarrow> 'db bucket \<Rightarrow> 'db \<Rightarrow> int \<Rightarrow> gerr option \<times> int" where
  "updateSpaceUsed e cb d spaceUsed =
     (case cbView cb ''node_size'' [(''group_level'', JNum 1), (''key'', JStr (e_serverId e))] d of
        Inl er \<Rightarrow> (Some er, spaceUsed)
      | Inr res \<Rightarrow>
          (if \<not> list_all (\<lambda>r. case vr_value r of JNum _ \<Rightarrow> True | _ \<Rightarrow> False) (vRows res)
           then (Some EJson, spaceUsed)
           else case vRows res of
                  [r] \<Rightarrow> (None, f64int (case vr_value r of JNum v \<Rightarrow> v | _ \<Rightarrow> 0))
                | _ \<Rightarrow> (Some (EMsg ''Expected 1 result''), spaceUsed)))"

text \<open>\<open>localAddr\<close> is the part before the first colon of the local address, empty if the dial failed.\<close>

definition aboutMe :: "env \<Rightarrow> string option \<Rightarrow> gerr + int \<Rightarrow> int \<Rightarrow> time \<Rightarrow> time \<Rightarrow> storageNode" where
  "aboutMe e dialed fsFree spaceUsed startTime now =
     \<lparr>sn_Addr = (case dialed of None \<Rightarrow> [] | Some a \<Rightarrow> hd (splitOn CHR '':'' a)),
      sn_Type = ''node'', sn_Started = startTime, sn_Time = now, sn_BindAddr = e_bindAddr e,
      sn_FrameBind = e_framesBind e, sn_Used = spaceUsed, sn_Free = availableSpace e fsFree spaceUsed,
      sn_Version = e_VERSION e, sn_name = [], sn_storageSize = 0\<rparr>"

definition oneHeartbeat ::
  "env \<Rightarrow> 'db bucket \<Rightarrow> string option \<Rightarrow> gerr + int \<Rightarrow> int \<Rightarrow> time \<Rightarrow> time \<Rightarrow> 'db \<Rightarrow> gerr option \<times> 'db" where
  "oneHeartbeat e cb dialed fsFree spaceUsed startTime now d =
     cbSet cb (''/'' @ e_serverId e) 0
       (RJson (marshal_node (aboutMe e dialed fsFree spaceUsed startTime now))) d"

text \<open>
  The loop of \<open>heartbeat\<close>: its variables \<open>period\<close> and \<open>ticker\<close>, and what it does on a tick and
  on a configuration change. \<open>time.NewTicker\<close> panics on a period that is not positive.
\<close>

record hbState =
  hb_period :: duration
  hb_ticker :: duration

datatype hbEvent = HbTick | HbConfig cbfsConfig

definition hbStart :: "cbfsConfig \<Rightarrow> hbState go" where
  "hbStart c = (if cf_HeartbeatFreq c > 0 then Ret \<lparr>hb_period = cf_HeartbeatFreq c, hb_ticker = cf_HeartbeatFreq c\<rparr>
                else Panic)"

text \<open>The new state, and whether a heartbeat is sent.\<close>

definition hbStep :: "hbEvent \<Rightarrow> hbState \<Rightarrow> hbState \<times> bool" where
  "hbStep ev s =
     (case ev of
        HbTick \<Rightarrow> (s, True)
      | HbConfig c \<Rightarrow>
          (if hb_period s \<noteq> cf_HeartbeatFreq c then
             (let s1 = s\<lparr>hb_period := cf_HeartbeatFreq c\<rparr> in
              if hb_period s1 > 0 then (s1\<lparr>hb_ticker := hb_period s1\<rparr>, False) else (s1, False))
           else (s, False)))"
section \<open>Lemmas\<close>

subsection \<open>Node filters\<close>

text \<open>A loop that appends the nodes it keeps: \<open>keep\<close> says which.\<close>

locale node_filter =
  fixes f :: "nodeList \<Rightarrow> nodeList" and keep :: "storageNode \<Rightarrow> bool"
  assumes f_Nil: "f [] = []"
    and f_Cons: "f (n # nl) = (if keep n then n # f nl else f nl)"
begin

lemma f_filter: "f nl = filter keep nl"
  by (induction nl) (simp_all add: f_Nil f_Cons)

lemma f_set: "set (f nl) = {n \<in> set nl. keep n}"
  by (simp add: f_filter)

lemma f_idem: "f (f nl) = f nl"
  by (simp add: f_filter)

lemma f_distinct: "distinct nl \<Longrightarrow> distinct (f nl)"
  by (simp add: f_filter)

lemma f_length: "length (f nl) \<le> length nl"
  by (simp add: f_filter)

end

lemma foundIn_iff: "foundIn n others \<longleftrightarrow> sn_name n \<in> sn_name ` set others"
  by (induction others) auto

interpretation minus_local: node_filter "minusLocal e" "\<lambda>n. \<not> IsLocal e n"
  by unfold_locales simp_all

interpretation minus: node_filter "nlMinus others" "\<lambda>n. sn_name n \<notin> sn_name ` set others"
  by unfold_locales (simp_all add: foundIn_iff)

interpretation at_least: node_filter "withAtLeast free" "\<lambda>n. sn_Free n > free"
  by unfold_locales simp_all

interpretation no_more_than: node_filter "withNoMoreThan free" "\<lambda>n. sn_Free n \<le> free"
  by unfold_locales simp_all

lemmas node_filter_sets = minus_local.f_set minus.f_set at_least.f_set no_more_than.f_set

lemma mset_bubble [simp]: "mset (bubble lt x ps) = add_mset x (mset ps)"
  by (induction ps) auto

lemma mset_fold_bubble: "mset (fold (bubble lt) xs acc) = mset xs + mset acc"
  by (induction xs arbitrary: acc) auto

lemma mset_sortGo [simp]: "mset (sortGo lt xs) = mset xs"
  by (simp add: sortGo_def mset_fold_bubble)

lemma set_sortGo [simp]: "set (sortGo lt xs) = set xs"
  by (metis mset_sortGo set_mset_mset)

subsection \<open>JSON\<close>

lemma node_key_eqs [json_simps]:
  "toLower ''addr'' = ''addr''" "toLower ''type'' = ''type''" "toLower ''started'' = ''started''"
  "toLower ''time'' = ''time''" "toLower ''bindaddr'' = ''bindaddr''" "toLower ''framebind'' = ''framebind''"
  "toLower ''used'' = ''used''" "toLower ''free'' = ''free''" "toLower ''version'' = ''version''"
  "toLower ''nodes'' = ''nodes''" "toLower ''lastModTime'' = ''lastmodtime''"
  "toLower ''lastModBy'' = ''lastmodby''"
  by code_simp+

lemma node_roundtrip:
  assumes "i64_range (sn_Used n)" and "i64_range (sn_Free n)"
  shows "unmarshal_node (Some (RJson (marshal_node n))) = Some (n\<lparr>sn_name := [], sn_storageSize := 0\<rparr>)"
  using assms
  by (simp add: unmarshal_node_def marshal_node_def fields_node_def fld_def json_simps)

definition wf_reg :: "nodeRegistry \<Rightarrow> bool" where
  "wf_reg r \<longleftrightarrow> mwf (reg_Nodes r) \<and> list_all (i64_range \<circ> snd) (mrange (reg_Nodes r))"

lemma decIntMap_enc:
  "mwf (Some xs) \<Longrightarrow> list_all (i64_range \<circ> snd) xs \<Longrightarrow> decMap decInt 0 (encMap JNum (Some xs)) = Some (Some xs)"
  unfolding encMap_def option.case decMap.simps
  by (subst decEntries_enc) (auto simp: mwf_def list_all_iff)

lemma reg_roundtrip:
  assumes "wf_reg r"
  shows "unmarshal_reg (Some (RJson (marshal_reg r))) = Some r"
proof (cases "reg_Nodes r")
  case None
  then show ?thesis
    by (simp add: unmarshal_reg_def marshal_reg_def fields_reg_def fld_def json_simps encMap_def)
next
  case (Some xs)
  then have "decMap decInt 0 (encMap JNum (Some xs)) = Some (Some xs)"
    using assms by (intro decIntMap_enc) (simp_all add: wf_reg_def)
  moreover have "encMap JNum (Some xs) \<noteq> JNull" by (simp add: encMap_def)
  ultimately show ?thesis
    using Some by (simp add: unmarshal_reg_def marshal_reg_def fields_reg_def fld_def json_simps)
qed

lemma decEntries_range:
  "decEntries decInt 0 ms acc = Some xs \<Longrightarrow> list_all (i64_range \<circ> snd) acc
     \<Longrightarrow> list_all (i64_range \<circ> snd) xs"
proof (induction decInt "0 :: int" ms acc rule: decEntries.induct)
  case (2 k v ms acc)
  have upd: "list_all (i64_range \<circ> snd) (AList.update k x acc)" if "i64_range x" for x
    using 2(3) that by (induction acc) auto
  show ?case
  proof (cases "v = JNull")
    case True
    then show ?thesis using 2 upd [of 0] by (simp add: i64_range_def)
  next
    case False
    then obtain x where x: "decInt v = Some x" using 2(2) by (auto split: option.splits)
    then have "i64_range x" by (cases v) (auto split: if_splits)
    then show ?thesis using 2 False x upd [of x] by simp
  qed
qed simp

lemma unmarshal_reg_wf: "unmarshal_reg x = Some r \<Longrightarrow> wf_reg r"
proof -
  assume u: "unmarshal_reg x = Some r"
  then obtain ms where "fields_reg ms = Some r"
    by (auto simp: unmarshal_reg_def unmarshal_def split: option.splits raw.splits json.splits)
  then have m: "fld ''nodes'' (decMap decInt 0) None ms = Some (reg_Nodes r)"
    by (auto simp: fields_reg_def bind_eq_Some_conv)
  show "wf_reg r"
  proof (cases "jmember ''nodes'' ms")
    case None
    with m show ?thesis by (simp add: fld_def wf_reg_def mwf_def)
  next
    case (Some j)
    with m have d: "decMap decInt 0 j = Some (reg_Nodes r)" by (simp add: fld_def)
    then obtain es xs where "j = JObj es" "decEntries decInt 0 es [] = Some xs" "reg_Nodes r = Some xs"
      by (cases j; cases "reg_Nodes r") auto
    with decEntries_range [of es "[]" xs] decMap_mwf [OF d] show ?thesis by (simp add: wf_reg_def)
  qed
qed

subsection \<open>The registry callbacks\<close>

text \<open>What a committed registry document is, given the contents it replaced.\<close>

definition reg_set :: "string \<Rightarrow> string \<Rightarrow> int \<Rightarrow> raw option \<Rightarrow> raw option \<Rightarrow> bool" where
  "reg_set serverId nodeID sz x y \<longleftrightarrow>
     (\<exists>reg'. y = Some (RJson (marshal_reg reg')) \<and> reg_LastModBy reg' = serverId \<and>
        (case unmarshal_reg x of
           Some reg \<Rightarrow> mput nodeID sz (reg_Nodes reg) = Some (reg_Nodes reg')
         | None \<Rightarrow> reg_Nodes reg' = Some [(nodeID, sz)]))"

definition reg_del :: "string \<Rightarrow> string \<Rightarrow> raw option \<Rightarrow> raw option \<Rightarrow> bool" where
  "reg_del serverId nodeID x y \<longleftrightarrow>
     (\<exists>reg reg'. unmarshal_reg x = Some reg \<and> y = Some (RJson (marshal_reg reg')) \<and>
        reg_LastModBy reg' = serverId \<and> reg_Nodes reg' = mdel nodeID (reg_Nodes reg))"

interpretation set_reg: doc_callback "setReg_cb serverId clk nodeID sz" "\<lambda>_. True" "reg_set serverId nodeID sz"
  by unfold_locales
    (auto simp: setReg_cb_def reg_set_def contents_after_def writes_def split: option.splits
      intro!: exI [of _ "_\<lparr>reg_Nodes := _, reg_LastModTime := _, reg_LastModBy := _\<rparr>"])

interpretation del_reg: doc_callback "delReg_cb serverId clk nodeID" "\<lambda>_. True" "reg_del serverId nodeID"
  by unfold_locales
    (auto simp: delReg_cb_def reg_del_def contents_after_def writes_def split: option.splits
      intro!: exI [of _ "_\<lparr>reg_Nodes := _, reg_LastModTime := _, reg_LastModBy := _\<rparr>"])

lemma update_range: "list_all (i64_range \<circ> snd) xs \<Longrightarrow> i64_range v \<Longrightarrow> list_all (i64_range \<circ> snd) (AList.update k v xs)"
  by (induction xs) auto

lemma reg_setD:
  assumes "reg_set serverId nodeID sz x y" and "i64_range sz"
  shows "\<exists>reg'. unmarshal_reg y = Some reg' \<and> reg_LastModBy reg' = serverId \<and> reg_Nodes reg' \<noteq> None \<and>
     (\<forall>k. mget (reg_Nodes reg') k = (if k = nodeID then Some sz else
        (case unmarshal_reg x of Some reg \<Rightarrow> mget (reg_Nodes reg) k | None \<Rightarrow> None)))"
proof -
  obtain reg' where y: "y = Some (RJson (marshal_reg reg'))" "reg_LastModBy reg' = serverId"
    and n: "case unmarshal_reg x of
           Some reg \<Rightarrow> mput nodeID sz (reg_Nodes reg) = Some (reg_Nodes reg')
         | None \<Rightarrow> reg_Nodes reg' = Some [(nodeID, sz)]"
    using assms(1) by (auto simp: reg_set_def)
  show ?thesis
  proof (cases "unmarshal_reg x")
    case None
    with n assms(2) have "wf_reg reg'" by (simp add: wf_reg_def mwf_def)
    with y n None show ?thesis by (simp add: reg_roundtrip mget_def)
  next
    case (Some reg)
    with n have p: "mput nodeID sz (reg_Nodes reg) = Some (reg_Nodes reg')" by simp
    then obtain xs where xs: "reg_Nodes reg = Some xs" "reg_Nodes reg' = Some (AList.update nodeID sz xs)"
      by (cases "reg_Nodes reg") (auto simp: mput_def)
    with unmarshal_reg_wf [OF Some] assms(2) have "wf_reg reg'"
      by (simp add: wf_reg_def mwf_def distinct_update update_range)
    with y Some xs show ?thesis by (simp add: reg_roundtrip mget_def update_conv')
  qed
qed

lemma reg_delD:
  assumes "reg_del serverId nodeID x y"
  shows "\<exists>reg reg'. unmarshal_reg x = Some reg \<and> unmarshal_reg y = Some reg' \<and> reg_LastModBy reg' = serverId \<and>
     (reg_Nodes reg' = None \<longleftrightarrow> reg_Nodes reg = None) \<and>
     (\<forall>k. mget (reg_Nodes reg') k = (if k = nodeID then None else mget (reg_Nodes reg) k))"
proof -
  obtain reg reg' where r: "unmarshal_reg x = Some reg" "y = Some (RJson (marshal_reg reg'))"
    "reg_LastModBy reg' = serverId" "reg_Nodes reg' = mdel nodeID (reg_Nodes reg)"
    using assms by (auto simp: reg_del_def)
  have "list_all P (mrange (mdel nodeID m))" if "list_all P (mrange m)" for P and m :: "(string, int) gomap"
    using that by (cases m) (auto simp: mdel_def list_all_iff AList.delete_eq)
  then have "wf_reg reg'" using unmarshal_reg_wf [OF r(1)] r(4) by (simp add: wf_reg_def)
  with r show ?thesis by (simp add: reg_roundtrip mget_mdel) (simp add: mdel_def)
qed
text \<open>All the registry keys, one update after the other.\<close>

lemma updateRegs_success:
  assumes "updateRegs cb f ks d = (Ret [], d')" and "distinct ks"
    and upd: "\<And>k d h d'. k \<in> set ks \<Longrightarrow> cbUpdate cb k 0 (f k) d = (h, UpdOk, d') \<Longrightarrow>
       Q k (st d' k) \<and> (\<forall>k'. k' \<noteq> k \<longrightarrow> st d' k' = st d k')"
  shows "(\<forall>k \<in> set ks. Q k (st d' k)) \<and> (\<forall>k. k \<notin> set ks \<longrightarrow> st d' k = st d k)"
  using assms
proof (induction ks arbitrary: d)
  case (Cons k ks)
  obtain h r d1 where c: "cbUpdate cb k 0 (f k) d = (h, r, d1)" by (cases "cbUpdate cb k 0 (f k) d") auto
  have r: "r = UpdOk" and u: "updateRegs cb f ks d1 = (Ret [], d')"
    using Cons.prems(1) c by (cases r; auto split: prod.splits go.splits list.splits)+
  have "(\<forall>k \<in> set ks. Q k (st d' k)) \<and> (\<forall>k. k \<notin> set ks \<longrightarrow> st d' k = st d1 k)"
  proof (rule Cons.IH [OF u])
    show "distinct ks" using Cons.prems(2) by simp
    fix i b h b'
    assume "i \<in> set ks" "cbUpdate cb i 0 (f i) b = (h, UpdOk, b')"
    then show "Q i (st b' i) \<and> (\<forall>k'. k' \<noteq> i \<longrightarrow> st b' k' = st b k')"
      by (intro Cons.prems(3)) simp_all
  qed
  moreover have "Q k (st d1 k) \<and> (\<forall>k'. k' \<noteq> k \<longrightarrow> st d1 k' = st d k')"
    using Cons.prems(3) [of k d h d1] c r by simp
  ultimately show ?case using Cons.prems(2) by auto
qed simp

lemma retrieveFrom_Inr:
  assumes "retrieveFrom cb ks e d = Inr reg" and "get_ok cb st"
  shows "e = Inr reg \<or> (\<exists>k \<in> set ks. unmarshal_reg (st d k) = Some reg)"
  using assms(1)
proof (induction ks arbitrary: e)
  case (Cons k ks)
  show ?case
  proof (cases "cbGet cb k d")
    case (Inl er)
    then show ?thesis using Cons.IH [of "Inl er"] Cons.prems by auto
  next
    case (Inr v)
    then have "st d k = Some v" using assms(2) by (simp add: get_ok_def)
    then show ?thesis
      using Cons.IH [of "Inl EJson"] Cons.prems Inr by (cases "unmarshal_reg (Some v)") auto
  qed
qed simp

lemma retrieveFrom_nonempty:
  assumes "retrieveFrom cb ks e d = Inr reg" and "get_ok cb st" and "ks \<noteq> []"
  shows "\<exists>k \<in> set ks. unmarshal_reg (st d k) = Some reg"
proof -
  obtain k ks' where ks: "ks = k # ks'" using assms(3) by (cases ks) auto
  have "retrieveFrom cb ks (Inl EJson) d = Inr reg"
    using assms(1) ks by (auto split: sum.splits option.splits)
  from retrieveFrom_Inr [OF this assms(2)] show ?thesis by simp
qed

subsection \<open>The registry under all its operations\<close>

inductive reg_step :: "raw option \<Rightarrow> raw option \<Rightarrow> bool" where
  set: "setReg_cb serverId clk nodeID sz n x = (n', UStore v) \<Longrightarrow> i64_range sz \<Longrightarrow> reg_step x (Some v)"
| remove: "delReg_cb serverId clk nodeID n x = (n', UStore v) \<Longrightarrow> reg_step x (Some v)"

inductive reg_reachable :: "raw option \<Rightarrow> bool" where
  start: "reg_reachable None"
| step: "reg_reachable x \<Longrightarrow> reg_step x y \<Longrightarrow> reg_reachable y"

definition reg_doc_ok :: "raw option \<Rightarrow> bool" where
  "reg_doc_ok x \<longleftrightarrow> (case x of None \<Rightarrow> True
     | Some _ \<Rightarrow> \<exists>reg. unmarshal_reg x = Some reg \<and> reg_Nodes reg \<noteq> None)"

lemma reg_step_ok:
  assumes "reg_step x y" and "reg_doc_ok x"
  shows "reg_doc_ok y"
  using assms(1)
proof cases
  case (set serverId clk nodeID sz n n' v)
  have "reg_set serverId nodeID sz x (contents_after (snd (setReg_cb serverId clk nodeID sz n x)))"
    by (rule set_reg.rel_step) (simp_all add: set writes_def)
  then have "reg_set serverId nodeID sz x y" using set by (simp add: contents_after_def)
  from reg_setD [OF this set(3)] set(1) show ?thesis by (auto simp: reg_doc_ok_def)
next
  case (remove serverId clk nodeID n n' v)
  have "reg_del serverId nodeID x (contents_after (snd (delReg_cb serverId clk nodeID n x)))"
    by (rule del_reg.rel_step) (simp_all add: remove writes_def)
  then have "reg_del serverId nodeID x y" using remove by (simp add: contents_after_def)
  from reg_delD [OF this] remove(1) assms(2) show ?thesis
    by (auto simp: reg_doc_ok_def unmarshal_reg_def split: option.splits)
qed

lemma reg_reachable_ok: "reg_reachable x \<Longrightarrow> reg_doc_ok x"
  by (induction rule: reg_reachable.induct) (auto intro: reg_step_ok simp: reg_doc_ok_def [of None])

subsection \<open>The heartbeat's ticker\<close>

lemma availableSpace_le:
  assumes "0 < e_maxStorage e" and "i64_range (e_maxStorage e - used)"
  shows "availableSpace e fsFree used \<le> max 0 (e_maxStorage e - used)"
  using assms by (auto simp: availableSpace_def Let_def)

lemma hbStep_ticker:
  assumes "0 < hb_ticker s"
  shows "0 < hb_ticker (fst (hbStep ev s))"
  using assms by (cases ev) (auto simp: hbStep_def Let_def)
section \<open>Properties\<close>

definition anEnv :: env where
  "anEnv = \<lparr>e_serverId = ''n1'', e_conf = DefaultConfig, e_root = ''/data'', e_nodeListKeys = [nodeListPrefix],
     e_maxStorage = 0, e_bindAddr = '':8484'', e_framesBind = [], e_VERSION = ''0.0.0'', e_cachePercentage = 0\<rparr>"

text \<open>
  a registration that reports no error has entered the node with its size in every registry
  document and touched no other document; the registry read back, through whichever of its keys is
  readable, lists the node.
\<close>

theorem setInNodeRegistry_registers:
  assumes "bucket_ok cb st" and "distinct (e_nodeListKeys e)" and "i64_range sz"
    and "setInNodeRegistry e cb clk nodeID sz d = (Ret [], d')"
  shows "(\<forall>k \<in> set (e_nodeListKeys e). \<exists>reg. unmarshal_reg (st d' k) = Some reg \<and>
       reg_LastModBy reg = e_serverId e \<and> mget (reg_Nodes reg) nodeID = Some sz) \<and>
     (\<forall>k. k \<notin> set (e_nodeListKeys e) \<longrightarrow> st d' k = st d k) \<and>
     (\<forall>reg. e_nodeListKeys e \<noteq> [] \<longrightarrow> retrieveNodeRegistry e cb d' = Inr reg
        \<longrightarrow> mget (reg_Nodes reg) nodeID = Some sz)"
proof -
  let ?Q = "\<lambda>y. \<exists>x. reg_set (e_serverId e) nodeID sz x y"
  have u: "?Q (st b' k) \<and> (\<forall>k'. k' \<noteq> k \<longrightarrow> st b' k' = st b k')"
    if "cbUpdate cb k 0 (closure (setReg_cb (e_serverId e) (clk k) nodeID sz) 0) b = (h, UpdOk, b')" for k b h b'
    using set_reg.update_success(2,3) [OF bucket_okD(5) [OF assms(1)] TrueI that] by blast
  have s: "(\<forall>k \<in> set (e_nodeListKeys e). ?Q (st d' k)) \<and> (\<forall>k. k \<notin> set (e_nodeListKeys e) \<longrightarrow> st d' k = st d k)"
    by (rule updateRegs_success [OF assms(4) [unfolded setInNodeRegistry_def] assms(2)]) (rule u)
  then have r: "\<forall>k \<in> set (e_nodeListKeys e). \<exists>reg. unmarshal_reg (st d' k) = Some reg \<and>
       reg_LastModBy reg = e_serverId e \<and> mget (reg_Nodes reg) nodeID = Some sz"
    using reg_setD [OF _ assms(3)] by metis
  moreover have "mget (reg_Nodes reg) nodeID = Some sz"
    if n: "e_nodeListKeys e \<noteq> []" and g: "retrieveNodeRegistry e cb d' = Inr reg" for reg
  proof -
    obtain k where "k \<in> set (e_nodeListKeys e)" "unmarshal_reg (st d' k) = Some reg"
      using retrieveFrom_nonempty [OF g [unfolded retrieveNodeRegistry_def] bucket_okD(1) [OF assms(1)] n]
      by blast
    then show ?thesis using r by force
  qed
  ultimately show ?thesis using s by blast
qed

theorem setInNodeRegistry_registers_witness:
  "\<exists>d' reg. setInNodeRegistry anEnv (memBucket noView) (\<lambda>_ _. 7) ''n2'' 42 [] = (Ret [], d') \<and>
     retrieveNodeRegistry anEnv (memBucket noView) d' = Inr reg \<and> mget (reg_Nodes reg) ''n2'' = Some 42"
proof -
  let ?r = "setInNodeRegistry anEnv (memBucket noView) (\<lambda>_ _. 7) ''n2'' 42 []"
  let ?g = "retrieveNodeRegistry anEnv (memBucket noView) (snd ?r)"
  have r: "?r = (Ret [], snd ?r)" by code_simp
  have k: "distinct (e_nodeListKeys anEnv)" "i64_range 42" "e_nodeListKeys anEnv \<noteq> []" by code_simp+
  have g: "?g = Inr (projr ?g)" by code_simp
  from setInNodeRegistry_registers [OF memBucket_ok k(1,2) r] k(3) g
  have "mget (reg_Nodes (projr ?g)) ''n2'' = Some 42" by blast
  with r g show ?thesis by blast
qed

text \<open>
  the registry never makes a node crash and loses no node. Whatever nodes registered, resized and
  removed one another, the document keeps a nodes map, so the next registration does not store into a nil
  map; and what it stores lists the node registered and all the nodes listed before, with their sizes.
\<close>

theorem registry_never_panics:
  assumes "reg_reachable x" and "i64_range sz"
  shows "\<exists>v reg. snd (setReg_cb serverId clk nodeID sz n x) = UStore v \<and> unmarshal_reg (Some v) = Some reg \<and>
     (\<forall>k. mget (reg_Nodes reg) k = (if k = nodeID then Some sz
        else (case unmarshal_reg x of Some old \<Rightarrow> mget (reg_Nodes old) k | None \<Rightarrow> None)))"
proof -
  have "reg_doc_ok x" by (rule reg_reachable_ok [OF assms(1)])
  then have "unmarshal_reg x = Some reg \<Longrightarrow> reg_Nodes reg \<noteq> None" for reg
    by (cases x) (auto simp: reg_doc_ok_def unmarshal_reg_def)
  then obtain v where v: "snd (setReg_cb serverId clk nodeID sz n x) = UStore v"
    by (cases "unmarshal_reg x") (auto simp: setReg_cb_def mput_def)
  have "reg_set serverId nodeID sz x (contents_after (snd (setReg_cb serverId clk nodeID sz n x)))"
    by (rule set_reg.rel_step) (simp_all add: v writes_def)
  then have "reg_set serverId nodeID sz x (Some v)" by (simp add: v contents_after_def)
  from reg_setD [OF this assms(2)] v show ?thesis by blast
qed

theorem registry_never_panics_witness:
  "\<exists>v w reg. reg_reachable (Some v) \<and> snd (setReg_cb ''n1'' (\<lambda>_. 9) ''n2'' 5 0 (Some v)) = UStore w \<and>
     unmarshal_reg (Some w) = Some reg \<and> mget (reg_Nodes reg) ''n2'' = Some 5"
proof -
  have "\<exists>n' v. setReg_cb ''n1'' (\<lambda>_. 9) ''n1'' 5 0 None = (n', UStore v)"
    by (simp add: setReg_cb_def unmarshal_reg_def)
  then obtain n' v where "setReg_cb ''n1'' (\<lambda>_. 9) ''n1'' 5 0 None = (n', UStore v)" by blast
  then have r: "reg_reachable (Some v)"
    by (intro reg_reachable.step [OF reg_reachable.start] reg_step.set) (auto simp: i64_range_def)
  have "i64_range 5" by (simp add: i64_range_def)
  from r registry_never_panics [OF r this, of "''n1''" "\<lambda>_. 9" "''n2''" 0] show ?thesis by fastforce
qed

text \<open>
  \<open>withAtLeast\<close> and \<open>withNoMoreThan\<close> of the same bound split a node list in two, without
  loss; and of a list of candidates from which owners are subtracted nothing remains that has the name of
  an owner. All filters keep the order of the nodes.
\<close>

theorem node_filters_partition:
  "mset (withAtLeast free nl) + mset (withNoMoreThan free nl) = mset nl \<and>
   (\<forall>n. n \<in> set (withAtLeast free (nlMinus owners nl)) \<longleftrightarrow>
        n \<in> set nl \<and> free < sn_Free n \<and> sn_name n \<notin> sn_name ` set owners) \<and>
   withAtLeast free (nlMinus owners nl)
     = filter (\<lambda>n. free < sn_Free n \<and> sn_name n \<notin> sn_name ` set owners) nl"
proof -
  have "mset (withAtLeast free nl) + mset (withNoMoreThan free nl) = mset nl"
    by (induction nl) auto
  then show ?thesis by (auto simp: at_least.f_filter minus.f_filter conj_commute)
qed

end
