(* ===== verification/Hash_Store.thy ===== *)
theory Hash_Store
  imports Nodes
begin

text \<open>
  The local object store: \<open>src/hash.go\<close>, the path functions of \<open>src/files.go\<close>, and the part of the
  file system they use.

  A file system is the contents of its files and the set of its directories. \<open>rename\<close> fails when the
  target's directory is missing, which is what \<open>Finish\<close> handles. The digest algorithms of
  \<open>crypto/*\<close> are the parameter \<open>sum\<close>, a function of the algorithm's name and the data, of which
  nothing is assumed but, where needed, the length of its results. Temporary file names and I/O errors
  of a write are arguments.

  Lemmas: \<open>filepath.Clean\<close> of a rooted path leaves no \<open>..\<close>, so no object name reaches outside the
  root; object paths of different objects differ; a finished record is stored under the hash of what was
  written; and every operation keeps the store content-addressed.
\<close>

section \<open>Paths\<close>

text \<open>\<open>filepath.Clean\<close> of a rooted path: its elements, with the dots worked off.\<close>

fun cleanElems :: "string list \<Rightarrow> string list \<Rightarrow> string list" where
  "cleanElems [] acc = rev acc"
| "cleanElems (p # ps) acc =
     (if p = [] \<or> p = ''.'' then cleanElems ps acc
      else if p = ''..'' then cleanElems ps (tl acc)
      else cleanElems ps (p # acc))"

definition cleanRooted :: "string \<Rightarrow> string" where
  "cleanRooted p = CHR ''/'' # joinWith ''/'' (cleanElems (splitOn CHR ''/'' p) [])"

text \<open>\<open>hstr[:2]\<close> panics on a shorter string.\<close>

definition hashFilename :: "string \<Rightarrow> string \<Rightarrow> string go" where
  "hashFilename base hstr =
     (if length hstr < 2 then Panic
      else Ret (base @ cleanRooted (''/'' @ take 2 hstr @ ''/'' @ hstr)))"

definition isHashChar :: "char \<Rightarrow> bool" where
  "isHashChar c \<longleftrightarrow> (let n = (of_char c :: nat) in (97 \<le> n \<and> n \<le> 102) \<or> (48 \<le> n \<and> n \<le> 57))"

definition validHash :: "string \<Rightarrow> bool" where
  "validHash h \<longleftrightarrow> h \<noteq> [] \<and> list_all isHashChar h"

text \<open>\<open>filepath.Dir\<close> of a path with a slash that ends in a file name.\<close>

definition dirOf :: "string \<Rightarrow> string" where
  "dirOf p = rev (tl (dropWhile (\<lambda>c. c \<noteq> CHR ''/'') (rev p)))"

section \<open>The file system\<close>

record fs =
  fs_files :: "string \<Rightarrow> string option"
  fs_dirs :: "string \<Rightarrow> bool"

definition osOpen :: "string \<Rightarrow> fs \<Rightarrow> gerr + string" where
  "osOpen p f = (case fs_files f p of None \<Rightarrow> Inl (EMsg ''no such file or directory'') | Some c \<Rightarrow> Inr c)"

definition osRemove :: "string \<Rightarrow> fs \<Rightarrow> gerr option \<times> fs" where
  "osRemove p f =
     (case fs_files f p of
        None \<Rightarrow> (Some (EMsg ''no such file or directory''), f)
      | Some _ \<Rightarrow> (None, f\<lparr>fs_files := (fs_files f)(p := None)\<rparr>))"

definition osRename :: "string \<Rightarrow> string \<Rightarrow> fs \<Rightarrow> gerr option \<times> fs" where
  "osRename src dst f =
     (case fs_files f src of
        None \<Rightarrow> (Some (EMsg ''no such file or directory''), f)
      | Some c \<Rightarrow>
          (if \<not> fs_dirs f (dirOf dst) \<or> fs_dirs f dst then (Some (EMsg ''rename failed''), f)
           else (None, f\<lparr>fs_files := ((fs_files f)(src := None))(dst \<mapsto> c)\<rparr>)))"

definition pathPrefixes :: "string \<Rightarrow> string list" where
  "pathPrefixes p = p # map (\<lambda>i. take i p) (filter (\<lambda>i. p ! i = CHR ''/'') [0..<length p])"

definition osMkdirAll :: "string \<Rightarrow> fs \<Rightarrow> fs" where
  "osMkdirAll dir f =
     f\<lparr>fs_dirs := (\<lambda>p. fs_dirs f p \<or>
        (p \<in> set (pathPrefixes dir) \<and> list_all (\<lambda>q. fs_files f q = None) (pathPrefixes p)))\<rparr>"

section \<open>Hashes\<close>

text \<open>
  The names the code knows. MD4 and RIPEMD-160 are listed but not linked in, so they are not available;
  \<open>None\<close> is the nil \<open>hash.Hash\<close>.
\<close>

definition hashBuilders :: "(string \<times> bool) list" where
  "hashBuilders =
     [(''md4'', False), (''md5'', True), (''sha1'', True), (''sha224'', True), (''sha256'', True),
      (''sha384'', True), (''sha512'', True), (''ripemd160'', False)]"

definition getHash :: "(string \<Rightarrow> string \<Rightarrow> string) \<Rightarrow> env \<Rightarrow> (string \<Rightarrow> string) option" where
  "getHash sm e =
     (case map_of hashBuilders (cf_Hash (e_conf e)) of
        Some True \<Rightarrow> Some (sm (cf_Hash (e_conf e)))
      | _ \<Rightarrow> None)"

section \<open>Hash records\<close>

text \<open>
  \<open>hr_tmpf\<close> is the name of the temporary file, \<open>None\<close> once it has been renamed; \<open>hr_fed\<close> is what
  the hash has been fed. A record with a nil hash panics at the first write, so \<open>NewHashRecord\<close> of it is
  kept as \<open>hr_sum = None\<close>.
\<close>

record hashRecord =
  hr_tmpf :: "string option"
  hr_sum :: "(string \<Rightarrow> string) option"
  hr_fed :: string
  hr_hashin :: string
  hr_base :: string
  hr_written :: int

definition NewHashRecord ::
  "(string \<Rightarrow> string \<Rightarrow> string) \<Rightarrow> env \<Rightarrow> gerr + string \<Rightarrow> string \<Rightarrow> fs \<Rightarrow> (gerr + hashRecord) \<times> fs" where
  "NewHashRecord sm e tmp hashin f =
     (case tmp of
        Inl er \<Rightarrow> (Inl er, f)
      | Inr name \<Rightarrow>
          (Inr \<lparr>hr_tmpf = Some name, hr_sum = getHash sm e, hr_fed = [], hr_hashin = hashin,
                hr_base = e_root e, hr_written = 0\<rparr>,
           f\<lparr>fs_files := (fs_files f)(name \<mapsto> [])\<rparr>))"

definition appendFile :: "string \<Rightarrow> string \<Rightarrow> fs \<Rightarrow> fs" where
  "appendFile name s f =
     f\<lparr>fs_files := (fs_files f)(name \<mapsto> (case fs_files f name of None \<Rightarrow> s | Some c \<Rightarrow> c @ s))\<rparr>"

text \<open>
  \<open>io.MultiWriter\<close> writes to the file, then to the hash. \<open>fail\<close> is a failed or short write to the
  file: the error, and how many bytes got through.
\<close>

definition hrWrite ::
  "(gerr \<times> nat) option \<Rightarrow> string \<Rightarrow> hashRecord \<Rightarrow> fs \<Rightarrow> (gerr option \<times> hashRecord \<times> fs) go" where
  "hrWrite fail p h f =
     (case (hr_tmpf h, hr_sum h) of
        (Some name, Some _) \<Rightarrow>
          (case fail of
             Some (er, n) \<Rightarrow> Ret (Some er, h, appendFile name (take n p) f)
           | None \<Rightarrow>
               Ret (None, h\<lparr>hr_fed := hr_fed h @ p, hr_written := i64 (hr_written h + int (length p))\<rparr>,
                    appendFile name p f))
      | _ \<Rightarrow> Panic)"

text \<open>\<open>closeErr\<close> is the error of closing the temporary file, if any.\<close>

definition hrFinish ::
  "gerr option \<Rightarrow> hashRecord \<Rightarrow> fs \<Rightarrow> ((gerr + string) \<times> hashRecord \<times> fs) go" where
  "hrFinish closeErr h f =
     (case hr_tmpf h of
        None \<Rightarrow> Ret (Inl (EMsg ''invalid argument''), h, f)
      | Some name \<Rightarrow>
          (case closeErr of
             Some er \<Rightarrow> Ret (Inl er, h, f)
           | None \<Rightarrow>
               (case hr_sum h of
                  None \<Rightarrow> Panic
                | Some s \<Rightarrow>
                    (let hs = hexEncode (s (hr_fed h)) in
                     case hashFilename (hr_base h) hs of
                       Panic \<Rightarrow> Panic
                     | Ret fn \<Rightarrow>
                         (if hr_hashin h \<noteq> [] \<and> hr_hashin h \<noteq> hs then
                            Ret (Inl (EMsg ''Invalid hash''), h, f)
                          else
                            (case osRename name fn f of
                               (None, f1) \<Rightarrow> Ret (Inr hs, h\<lparr>hr_tmpf := None\<rparr>, f1)
                             | (Some _, f1) \<Rightarrow>
                                 (let f2 = osMkdirAll (dirOf fn) f1; f3 = snd (osRemove fn f2) in
                                  case osRename name fn f3 of
                                    (None, f4) \<Rightarrow> Ret (Inr hs, h\<lparr>hr_tmpf := None\<rparr>, f4)
                                  | (Some er, f4) \<Rightarrow> Ret (Inl er, h, snd (osRemove name f4)))))))))"

text \<open>
  \<open>Process\<close>: copy a reader, given as the pieces it delivers and the error it ends with (\<open>None\<close> is
  end of file), and finish.
\<close>

fun hrCopy ::
  "(string \<times> (gerr \<times> nat) option) list \<Rightarrow> gerr option \<Rightarrow> int \<Rightarrow> hashRecord \<Rightarrow> fs
     \<Rightarrow> (gerr option \<times> int \<times> hashRecord \<times> fs) go" where
  "hrCopy [] er n h f = Ret (er, n, h, f)"
| "hrCopy ((p, fail) # ps) er n h f =
     (case hrWrite fail p h f of
        Panic \<Rightarrow> Panic
      | Ret (None, h', f') \<Rightarrow> hrCopy ps er (i64 (n + int (length p))) h' f'
      | Ret (Some we, h', f') \<Rightarrow>
          Ret (Some we, i64 (n + int (case fail of None \<Rightarrow> 0 | Some (_, k) \<Rightarrow> min k (length p))), h', f'))"

definition hrProcess ::
  "(string \<times> (gerr \<times> nat) option) list \<Rightarrow> gerr option \<Rightarrow> gerr option \<Rightarrow> hashRecord \<Rightarrow> fs
     \<Rightarrow> ((gerr + string) \<times> int \<times> hashRecord \<times> fs) go" where
  "hrProcess ps readErr closeErr h f =
     (case hrCopy ps readErr 0 h f of
        Panic \<Rightarrow> Panic
      | Ret (Some er, n, h', f') \<Rightarrow> Ret (Inl er, n, h', f')
      | Ret (None, n, h', f') \<Rightarrow>
          (case hrFinish closeErr h' f' of
             Panic \<Rightarrow> Panic
           | Ret (r, h'', f'') \<Rightarrow> Ret (r, n, h'', f'')))"

definition hrClose :: "hashRecord option \<Rightarrow> fs \<Rightarrow> fs" where
  "hrClose h f =
     (case h of
        None \<Rightarrow> f
      | Some hr \<Rightarrow> (case hr_tmpf hr of None \<Rightarrow> f | Some name \<Rightarrow> snd (osRemove name f)))"

text \<open>\<open>cleanTmpFiles\<close>: the entries of the root directory with their modification times.\<close>

fun cleanTmpFiles :: "string \<Rightarrow> time \<Rightarrow> (string \<times> time) list \<Rightarrow> fs \<Rightarrow> fs" where
  "cleanTmpFiles root now [] f = f"
| "cleanTmpFiles root now ((name, modTime) # fi) f =
     (if hasPrefix name ''tmp'' \<and> modTime + hour < now
      then cleanTmpFiles root now fi (snd (osRemove (root @ ''/'' @ name) f))
      else cleanTmpFiles root now fi f)"

section \<open>Blobs on disk\<close>

definition openLocalBlob :: "env \<Rightarrow> string \<Rightarrow> fs \<Rightarrow> (gerr + string) go" where
  "openLocalBlob e hstr f =
     (case hashFilename (e_root e) hstr of Panic \<Rightarrow> Panic | Ret p \<Rightarrow> Ret (osOpen p f))"

definition hasBlob :: "env \<Rightarrow> string \<Rightarrow> fs \<Rightarrow> bool go" where
  "hasBlob e oid f =
     (case hashFilename (e_root e) oid of
        Panic \<Rightarrow> Panic
      | Ret p \<Rightarrow> Ret (fs_files f p \<noteq> None \<or> fs_dirs f p))"
section \<open>Lemmas\<close>

subsection \<open>Paths\<close>

text \<open>An element of a cleaned path: a file name.\<close>

definition pathElem :: "string \<Rightarrow> bool" where
  "pathElem p \<longleftrightarrow> p \<noteq> [] \<and> p \<noteq> ''.'' \<and> p \<noteq> ''..'' \<and> CHR ''/'' \<notin> set p"

lemma cleanElems_elems:
  assumes "\<forall>p \<in> set ps. CHR ''/'' \<notin> set p" and "list_all pathElem acc"
  shows "list_all pathElem (cleanElems ps acc)"
  using assms
proof (induction ps acc rule: cleanElems.induct)
  case (2 p ps acc)
  then show ?case by (cases acc) (auto simp: pathElem_def)
qed (simp add: list_all_iff)

lemma cleanRooted_elems:
  "\<exists>es. cleanRooted p = CHR ''/'' # joinWith ''/'' es \<and> list_all pathElem es"
  using cleanElems_elems [of "splitOn CHR ''/'' p" "[]"] splitOn_no_sep
  by (auto simp: cleanRooted_def)

lemma hashFilename_below:
  assumes "hashFilename base h = Ret p"
  shows "\<exists>es. p = base @ ''/'' @ joinWith ''/'' es \<and> list_all pathElem es"
  using assms cleanRooted_elems [of "''/'' @ take 2 h @ ''/'' @ h"]
  by (auto simp: hashFilename_def split: if_splits)

lemma splitOn_append:
  assumes "c \<notin> set p"
  shows "splitOn c (p @ c # s) = p # splitOn c s" "splitOn c p = [p]"
  using assms by (induction p) auto

lemma hashChar_elem:
  assumes "list_all isHashChar p" and "p \<noteq> []"
  shows "pathElem p"
proof -
  have "\<not> isHashChar CHR ''/''" "\<not> isHashChar CHR ''.''" by (simp_all add: isHashChar_def)
  with assms show ?thesis by (auto simp: pathElem_def list_all_iff)
qed

definition objectPath :: "string \<Rightarrow> string \<Rightarrow> string" where
  "objectPath root h = root @ ''/'' @ take 2 h @ ''/'' @ h"

lemma list_all_take: "list_all P xs \<Longrightarrow> list_all P (take n xs)"
  by (metis append_take_drop_id list_all_append)

lemma hashFilename_valid:
  assumes "validHash h" and "2 \<le> length h"
  shows "hashFilename root h = Ret (objectPath root h)"
proof -
  have t: "pathElem (take 2 h)" "pathElem h"
    using assms list_all_take [of isHashChar h 2] by (auto simp: validHash_def intro: hashChar_elem)
  then have "splitOn CHR ''/'' (''/'' @ take 2 h @ ''/'' @ h) = [[], take 2 h, h]"
    by (simp add: splitOn_append pathElem_def)
  then have "cleanRooted (''/'' @ take 2 h @ ''/'' @ h) = ''/'' @ take 2 h @ ''/'' @ h"
    using t by (simp add: cleanRooted_def pathElem_def)
  then show ?thesis using assms(2) by (simp add: hashFilename_def objectPath_def)
qed

lemma objectPath_inject:
  assumes "objectPath root h = objectPath root k" and "2 \<le> length h" and "2 \<le> length k"
  shows "h = k"
  using assms by (simp add: objectPath_def append_eq_append_conv)

lemma hexEncode_valid: "list_all isHashChar (hexEncode s)"
proof (induction s)
  case (Cons c s)
  have h: "isHashChar (hexDigit n)" if "n < 16" for n
    using that by (auto simp: isHashChar_def hexDigit_def Let_def)
  have "(of_char c :: nat) div 16 < 16" using nat_of_char_less_256 [of c] by linarith
  with Cons h show ?case by simp
qed simp

lemma tmp_not_object:
  assumes "validHash h" and "2 \<le> length h"
  shows "root @ ''/tmp'' @ x \<noteq> objectPath root h"
proof -
  obtain c k where h: "h = c # k" using assms(2) by (cases h) auto
  have "\<not> isHashChar CHR ''t''" by (simp add: isHashChar_def)
  then have "c \<noteq> CHR ''t''" using assms(1) h by (auto simp: validHash_def)
  then show ?thesis by (auto simp: objectPath_def h)
qed

lemma dirOf_objectPath:
  assumes "validHash h"
  shows "dirOf (objectPath root h) = root @ ''/'' @ take 2 h"
proof -
  have "CHR ''/'' \<notin> set h" using assms hashChar_elem by (auto simp: validHash_def pathElem_def)
  then have "dropWhile (\<lambda>c. c \<noteq> CHR ''/'') (rev h @ CHR ''/'' # r) = CHR ''/'' # r" for r
    by (subst dropWhile_append2) auto
  then show ?thesis by (simp add: dirOf_def objectPath_def)
qed

subsection \<open>The content-addressed store\<close>

text \<open>Every object on disk has the contents its name says, under the digest \<open>s\<close>.\<close>

definition store_ok :: "(string \<Rightarrow> string) \<Rightarrow> string \<Rightarrow> fs \<Rightarrow> bool" where
  "store_ok s root f \<longleftrightarrow>
     (\<forall>h c. validHash h \<longrightarrow> 2 \<le> length h \<longrightarrow> fs_files f (objectPath root h) = Some c \<longrightarrow> hexEncode (s c) = h)"

lemma store_okD:
  "store_ok s root f \<Longrightarrow> validHash h \<Longrightarrow> 2 \<le> length h \<Longrightarrow> fs_files f (objectPath root h) = Some c
     \<Longrightarrow> hexEncode (s c) = h"
  by (simp add: store_ok_def)

text \<open>
  A record in use: its temporary file is below the root, is not an object, and holds what the hash was
  fed.
\<close>

definition hr_ok :: "(string \<Rightarrow> string) \<Rightarrow> string \<Rightarrow> hashRecord \<Rightarrow> fs \<Rightarrow> bool" where
  "hr_ok s root h f \<longleftrightarrow>
     hr_sum h = Some s \<and> hr_base h = root \<and>
     (\<exists>x. hr_tmpf h = Some (root @ ''/tmp'' @ x) \<and> fs_files f (root @ ''/tmp'' @ x) = Some (hr_fed h))"

text \<open>What changed between two states of the file system.\<close>

definition fs_same_but :: "string set \<Rightarrow> fs \<Rightarrow> fs \<Rightarrow> bool" where
  "fs_same_but ps f f' \<longleftrightarrow> (\<forall>p. p \<notin> ps \<longrightarrow> fs_files f' p = fs_files f p)"

lemma hrCopy_ok:
  assumes "hr_ok s root h f" and "hrCopy ps er n h f = Ret (None, n', h', f')" and "hr_tmpf h = Some tmp"
  shows "hr_ok s root h' f' \<and> hr_fed h' = hr_fed h @ concat (map fst ps) \<and> hr_tmpf h' = Some tmp \<and>
     hr_hashin h' = hr_hashin h \<and> fs_same_but {tmp} f f' \<and> fs_dirs f' = fs_dirs f \<and>
     (0 \<le> n \<and> n + int (length (concat (map fst ps))) < 2 ^ 63
        \<longrightarrow> n' = n + int (length (concat (map fst ps))))"
  using assms
proof (induction ps er n h f rule: hrCopy.induct)
  case (1 er n h f)
  then show ?case by (simp add: fs_same_but_def)
next
  case (2 p fail ps er n h f)
  let ?h = "h\<lparr>hr_fed := hr_fed h @ p, hr_written := i64 (hr_written h + int (length p))\<rparr>"
  let ?f = "appendFile tmp p f"
  have sum: "hr_sum h = Some s" and tf: "fs_files f tmp = Some (hr_fed h)"
    using 2(2,4) by (auto simp: hr_ok_def)
  have nofail: "fail = None"
    using 2(3,4) sum by (cases fail) (auto simp: hrWrite_def)
  have w: "hrWrite fail p h f = Ret (None, ?h, ?f)"
    using nofail 2(4) sum by (simp add: hrWrite_def)
  have ok: "hr_ok s root ?h ?f"
    using 2(2,4) tf by (auto simp: hr_ok_def appendFile_def)
  have copy: "hrCopy ps er (i64 (n + int (length p))) ?h ?f = Ret (None, n', h', f')"
    using 2(3) w by simp
  note ih = 2(1) [OF w refl refl refl ok copy]
  have "hr_tmpf ?h = Some tmp" using 2(4) by simp
  from ih [OF this] have r: "hr_ok s root h' f' \<and> hr_fed h' = hr_fed ?h @ concat (map fst ps) \<and>
     hr_tmpf h' = Some tmp \<and> hr_hashin h' = hr_hashin ?h \<and> fs_same_but {tmp} ?f f' \<and> fs_dirs f' = fs_dirs ?f \<and>
     (0 \<le> i64 (n + int (length p)) \<and> i64 (n + int (length p)) + int (length (concat (map fst ps))) < 2 ^ 63
        \<longrightarrow> n' = i64 (n + int (length p)) + int (length (concat (map fst ps))))" .
  moreover have "fs_same_but {tmp} f ?f" "fs_dirs ?f = fs_dirs f"
    by (simp_all add: fs_same_but_def appendFile_def)
  moreover have "i64 (n + int (length p)) = n + int (length p)"
    if "0 \<le> n" "n + int (length (concat (map fst ((p, fail) # ps)))) < 2 ^ 63"
    using that by (intro i64_id) (simp add: i64_range_def)
  ultimately show ?case by (auto simp: fs_same_but_def)
qed
lemma osRename_None:
  "osRename src dst f = (None, f') \<Longrightarrow> \<exists>c. fs_files f src = Some c \<and>
     fs_files f' = ((fs_files f)(src := None))(dst \<mapsto> c) \<and> fs_dirs f' = fs_dirs f"
  by (auto simp: osRename_def split: option.splits if_splits)

lemma osRename_Some: "osRename src dst f = (Some e, f') \<Longrightarrow> f' = f"
  by (auto simp: osRename_def split: option.splits if_splits)

lemma osRemove_files: "fs_files (snd (osRemove p f)) = (fs_files f)(p := None)"
  by (auto simp: osRemove_def split: option.splits)

lemma osRemove_dirs [simp]: "fs_dirs (snd (osRemove p f)) = fs_dirs f"
  by (auto simp: osRemove_def split: option.splits)

lemma osMkdirAll_files [simp]: "fs_files (osMkdirAll d f) = fs_files f"
  by (simp add: osMkdirAll_def)

lemma length_pathPrefixes: "q \<in> set (pathPrefixes p) \<Longrightarrow> length q \<le> length p"
  by (auto simp: pathPrefixes_def)

lemma digest_path:
  assumes "1 \<le> length d"
  shows "validHash (hexEncode d)" "2 \<le> length (hexEncode d)"
    "hashFilename root (hexEncode d) = Ret (objectPath root (hexEncode d))"
proof -
  show v: "validHash (hexEncode d)" using assms hexEncode_valid [of d] by (cases d) (auto simp: validHash_def)
  show l: "2 \<le> length (hexEncode d)" using assms by simp
  show "hashFilename root (hexEncode d) = Ret (objectPath root (hexEncode d))"
    by (rule hashFilename_valid [OF v l])
qed

text \<open>A record that finished: the object is what was written, under its hash.\<close>

lemma hrFinish_stored:
  assumes "hr_ok s root h f" and "hr_tmpf h = Some tmp" and "1 \<le> length (s (hr_fed h))"
    and "hrFinish ce h f = Ret (Inr x, h', f')"
  shows "x = hexEncode (s (hr_fed h)) \<and> (hr_hashin h = [] \<or> hr_hashin h = x) \<and> hr_tmpf h' = None \<and>
     fs_files f' = ((fs_files f)(tmp := None))(objectPath root x \<mapsto> hr_fed h)"
proof -
  let ?hs = "hexEncode (s (hr_fed h))" and ?fn = "objectPath root (hexEncode (s (hr_fed h)))"
  have h: "hr_sum h = Some s" "hr_base h = root" "fs_files f tmp = Some (hr_fed h)"
    using assms(1,2) by (auto simp: hr_ok_def)
  have fn: "hashFilename root ?hs = Ret ?fn" by (rule digest_path(3) [OF assms(3)])
  have tmp: "tmp \<noteq> ?fn"
    using assms(1,2) tmp_not_object [OF digest_path(1,2) [OF assms(3)]] by (auto simp: hr_ok_def)
  have ce: "ce = None" using assms(2,4) by (cases ce) (auto simp: hrFinish_def)
  have hin: "hr_hashin h = [] \<or> hr_hashin h = ?hs"
    using assms(2,4) h fn ce by (auto simp: hrFinish_def Let_def split: if_splits)
  show ?thesis
  proof (cases "osRename tmp ?fn f")
    case (Pair e f1)
    show ?thesis
    proof (cases e)
      case None
      then have "x = ?hs" "hr_tmpf h' = None" "f' = f1"
        using assms(2,4) h fn ce hin Pair by (auto simp: hrFinish_def Let_def)
      with osRename_None [of tmp ?fn f f1] Pair None h hin show ?thesis by auto
    next
      case (Some er)
      let ?f3 = "snd (osRemove ?fn (osMkdirAll (dirOf ?fn) f1))"
      have f1: "f1 = f" using osRename_Some [of tmp ?fn f er f1] Pair Some by simp
      obtain f4 where r: "osRename tmp ?fn ?f3 = (None, f4)" "x = ?hs" "hr_tmpf h' = None" "f' = f4"
        using assms(2,4) h fn ce hin Pair Some
        by (auto simp: hrFinish_def Let_def split: prod.splits option.splits)
      from osRename_None [OF r(1)] r h hin tmp f1 show ?thesis
        by (auto simp: osRemove_files fun_upd_twist)
    qed
  qed
qed

text \<open>Nothing stands in the way of the object's directory.\<close>

definition room_for :: "string \<Rightarrow> fs \<Rightarrow> string \<Rightarrow> bool" where
  "room_for root f h \<longleftrightarrow> \<not> fs_dirs f (objectPath root h) \<and>
     list_all (\<lambda>q. fs_files f q = None) (pathPrefixes (root @ ''/'' @ take 2 h))"

lemma hrFinish_succeeds:
  assumes "hr_ok s root h f" and "1 \<le> length (s (hr_fed h))"
    and "hr_hashin h = [] \<or> hr_hashin h = hexEncode (s (hr_fed h))"
    and "room_for root f (hexEncode (s (hr_fed h)))"
  shows "\<exists>h' f'. hrFinish None h f = Ret (Inr (hexEncode (s (hr_fed h))), h', f')"
proof -
  let ?hs = "hexEncode (s (hr_fed h))" and ?fn = "objectPath root (hexEncode (s (hr_fed h)))"
  note d = digest_path [OF assms(2)]
  obtain y where h: "hr_sum h = Some s" "hr_base h = root" "hr_tmpf h = Some (root @ ''/tmp'' @ y)"
    "fs_files f (root @ ''/tmp'' @ y) = Some (hr_fed h)"
    using assms(1) by (auto simp: hr_ok_def)
  let ?tmp = "root @ ''/tmp'' @ y"
  have fn: "hashFilename root ?hs = Ret ?fn" by (rule d(3))
  have tmp: "?tmp \<noteq> ?fn" by (rule tmp_not_object [OF d(1,2)])
  have dir: "dirOf ?fn = root @ ''/'' @ take 2 ?hs" by (rule dirOf_objectPath [OF d(1)])
  have nodir: "\<not> fs_dirs f ?fn" using assms(4) by (simp add: room_for_def)
  let ?f3 = "snd (osRemove ?fn (osMkdirAll (dirOf ?fn) f))"
  have "?fn \<notin> set (pathPrefixes (dirOf ?fn))"
    using length_pathPrefixes [of ?fn "dirOf ?fn"] dir by (auto simp: objectPath_def)
  then have "\<not> fs_dirs ?f3 ?fn" using nodir by (simp add: osMkdirAll_def)
  moreover have "fs_dirs ?f3 (dirOf ?fn)"
    using assms(4) by (simp add: room_for_def dir osMkdirAll_def) (simp add: pathPrefixes_def)
  moreover have "fs_files ?f3 ?tmp = Some (hr_fed h)" using h tmp by (simp add: osRemove_files)
  ultimately have again: "\<exists>f4. osRename ?tmp ?fn ?f3 = (None, f4)" by (simp add: osRename_def)
  show ?thesis
  proof (cases "osRename ?tmp ?fn f")
    case (Pair e f1)
    show ?thesis
    proof (cases e)
      case None
      with Pair h fn assms(3) show ?thesis by (auto simp: hrFinish_def Let_def)
    next
      case (Some er)
      then have "f1 = f" using osRename_Some [of ?tmp ?fn f er f1] Pair by simp
      with Some Pair again h fn assms(3) show ?thesis by (auto simp: hrFinish_def Let_def)
    qed
  qed
qed

text \<open>The objects of a store, as a map from hashes to contents.\<close>

definition objects :: "string \<Rightarrow> fs \<Rightarrow> string \<Rightarrow> string option" where
  "objects root f h = (if validHash h \<and> 2 \<le> length h then fs_files f (objectPath root h) else None)"

lemma store_ok_objects: "store_ok s root f \<longleftrightarrow> (\<forall>h c. objects root f h = Some c \<longrightarrow> hexEncode (s c) = h)"
  by (auto simp: store_ok_def objects_def)

lemma objects_same_but_tmp:
  assumes "fs_same_but {root @ ''/tmp'' @ x} f f'"
  shows "objects root f' = objects root f"
proof
  fix h
  show "objects root f' h = objects root f h"
    using assms tmp_not_object [of h root x] by (auto simp: objects_def fs_same_but_def)
qed

lemma objects_put:
  assumes "fs_files f' = ((fs_files f)(root @ ''/tmp'' @ y := None))(objectPath root x \<mapsto> c)"
    and "validHash x" and "2 \<le> length x"
  shows "objects root f' = (objects root f)(x \<mapsto> c)"
proof
  fix h
  show "objects root f' h = ((objects root f)(x \<mapsto> c)) h"
    using assms tmp_not_object [of h root y] objectPath_inject [of root h x]
    by (auto simp: objects_def)
qed

lemma objects_remove:
  assumes "validHash x" and "2 \<le> length x"
  shows "objects root (snd (osRemove (objectPath root x) f)) = (objects root f)(x := None)"
proof
  fix h
  show "objects root (snd (osRemove (objectPath root x) f)) h = ((objects root f)(x := None)) h"
    using assms objectPath_inject [of root h x] by (auto simp: objects_def osRemove_files)
qed

lemma store_ok_update:
  "store_ok s root f \<Longrightarrow> objects root f' = (objects root f)(x \<mapsto> c) \<Longrightarrow> hexEncode (s c) = x \<Longrightarrow> store_ok s root f'"
  by (auto simp: store_ok_objects)

lemma cleanTmpFiles_objects: "objects root (cleanTmpFiles root now fi f) = objects root f"
proof (induction fi arbitrary: f)
  case (Cons a fi)
  obtain name t where a: "a = (name, t)" by (cases a)
  show ?case
  proof (cases "hasPrefix name ''tmp''")
    case True
    then obtain x where "name = ''tmp'' @ x" by (auto simp: hasPrefix_iff)
    then have "fs_same_but {root @ ''/tmp'' @ x} f (snd (osRemove (root @ ''/'' @ name) f))"
      by (simp add: fs_same_but_def osRemove_files)
    then show ?thesis using Cons a objects_same_but_tmp [of root x f] by simp
  qed (use Cons a in simp)
qed simp
lemma hrCopy_total:
  assumes "hr_ok s root h f" and "list_all (\<lambda>p. snd p = None) ps"
  shows "\<exists>n' h' f'. hrCopy ps None n h f = Ret (None, n', h', f')"
  using assms
proof (induction ps arbitrary: n h f)
  case (Cons a ps)
  obtain p where a: "a = (p, None)" using Cons.prems(2) by (cases a) auto
  obtain x where x: "hr_tmpf h = Some (root @ ''/tmp'' @ x)" "hr_sum h = Some s"
    "fs_files f (root @ ''/tmp'' @ x) = Some (hr_fed h)" "hr_base h = root"
    using Cons.prems(1) by (auto simp: hr_ok_def)
  let ?h = "h\<lparr>hr_fed := hr_fed h @ p, hr_written := i64 (hr_written h + int (length p))\<rparr>"
  let ?f = "appendFile (root @ ''/tmp'' @ x) p f"
  have "hr_ok s root ?h ?f" using x by (simp add: hr_ok_def appendFile_def)
  then show ?case using Cons.IH [of ?h ?f] Cons.prems(2) x a by (auto simp: hrWrite_def)
qed auto

lemma room_for_same:
  assumes "room_for root f h" and "fs_same_but {root @ ''/tmp'' @ y} f f'" and "fs_dirs f' = fs_dirs f"
    and "validHash h" and "2 \<le> length h"
  shows "room_for root f' h"
proof -
  have "q \<noteq> root @ ''/tmp'' @ y" if "q \<in> set (pathPrefixes (root @ ''/'' @ take 2 h))" for q
  proof
    assume q: "q = root @ ''/tmp'' @ y"
    have "length q \<le> length root + 3" using length_pathPrefixes [OF that] by simp
    with q show False by simp
  qed
  then show ?thesis using assms(1-3) by (auto simp: room_for_def fs_same_but_def list_all_iff)
qed

section \<open>Properties\<close>

text \<open>
  C39: no object name, however it is spelled, leads outside the storage root: the path of a name of at
  least two bytes is the root followed by a non-empty sequence of proper file names, none of them empty,
  \<open>.\<close> or \<open>..\<close>, or it is the root itself; a shorter name panics. Valid hashes get two-level paths,
  different ones different paths.
\<close>

theorem hashFilename_confined:
  "(hashFilename base h = Panic \<longleftrightarrow> length h < 2) \<and>
   (\<forall>p. hashFilename base h = Ret p \<longrightarrow> (\<exists>es. p = base @ ''/'' @ joinWith ''/'' es \<and>
      (\<forall>e \<in> set es. e \<noteq> [] \<and> e \<noteq> ''.'' \<and> e \<noteq> ''..'' \<and> CHR ''/'' \<notin> set e))) \<and>
   (validHash h \<and> validHash k \<and> 2 \<le> length h \<and> 2 \<le> length k \<longrightarrow>
      hashFilename base h = Ret (base @ ''/'' @ take 2 h @ ''/'' @ h) \<and>
      (hashFilename base h = hashFilename base k \<longrightarrow> h = k))"
proof -
  have "\<exists>es. p = base @ ''/'' @ joinWith ''/'' es \<and>
      (\<forall>e \<in> set es. e \<noteq> [] \<and> e \<noteq> ''.'' \<and> e \<noteq> ''..'' \<and> CHR ''/'' \<notin> set e)"
    if "hashFilename base h = Ret p" for p
    using hashFilename_below [OF that] by (auto simp: list_all_iff pathElem_def)
  moreover have "hashFilename base h = Panic \<longleftrightarrow> length h < 2" by (simp add: hashFilename_def)
  moreover have "hashFilename base h = Ret (base @ ''/'' @ take 2 h @ ''/'' @ h) \<and>
      (hashFilename base h = hashFilename base k \<longrightarrow> h = k)"
    if "validHash h \<and> validHash k \<and> 2 \<le> length h \<and> 2 \<le> length k"
    using that objectPath_inject [of base h k]
    by (simp add: hashFilename_valid) (simp add: objectPath_def)
  ultimately show ?thesis by blast
qed

theorem hashFilename_confined_witness:
  "\<exists>p es. hashFilename ''/data'' ''../../etc/passwd'' = Ret p \<and> p = ''/data'' @ ''/'' @ joinWith ''/'' es \<and>
     (\<forall>e \<in> set es. e \<noteq> ''..'')"
proof -
  have "hashFilename ''/data'' ''../../etc/passwd'' = Ret ''/data/etc/passwd''" by code_simp
  with hashFilename_confined [of "''/data''" "''../../etc/passwd''" "[]"] show ?thesis by blast
qed

text \<open>A record that processed a stream without an error: the object is what came, under its hash.\<close>

lemma hrProcess_stored:
  assumes "hr_ok s root h f" and "hr_fed h = []" and "hrProcess ps re ce h f = Ret (Inr x, n, h', f')"
    and "data = concat (map fst ps)" and "1 \<le> length (s data)"
  shows "x = hexEncode (s data) \<and> (hr_hashin h = [] \<or> hr_hashin h = x) \<and> hr_tmpf h' = None \<and>
     objects root f' = (objects root f)(x \<mapsto> data) \<and> (int (length data) < 2 ^ 63 \<longrightarrow> n = int (length data))"
proof -
  obtain y where tmp: "hr_tmpf h = Some (root @ ''/tmp'' @ y)" using assms(1) by (auto simp: hr_ok_def)
  obtain h1 f1 where c: "hrCopy ps re 0 h f = Ret (None, n, h1, f1)" and fin: "hrFinish ce h1 f1 = Ret (Inr x, h', f')"
    using assms(3) by (auto simp: hrProcess_def split: go.splits prod.splits option.splits)
  note k = hrCopy_ok [OF assms(1) c tmp]
  have ok: "hr_ok s root h1 f1" and fed: "hr_fed h1 = data" and tmp1: "hr_tmpf h1 = Some (root @ ''/tmp'' @ y)"
    and d1: "1 \<le> length (s (hr_fed h1))" and obj: "objects root f1 = objects root f"
    using k assms(2,4,5) objects_same_but_tmp [of root y f f1] by auto
  note st = hrFinish_stored [OF ok tmp1 d1 fin]
  note dp = digest_path [OF assms(5)]
  have "objects root f' = (objects root f)(hexEncode (s data) \<mapsto> data)"
    using st fed objects_put [OF _ dp(1,2), of f' f1 root y data] obj by simp
  with st fed k assms(4) show ?thesis by auto
qed

text \<open>
  C6: content addressing. Processing a stream of which every piece was written and that ended without
  an error, with a digest of at least one byte and nothing in the way of the object's directory: if the
  expected hash is absent or right, the call returns the hash of exactly the bytes received and their
  number, and the set of objects becomes the old one with that object added; if it is wrong, the call
  fails and no object changes. Either way a content-addressed store stays one.
\<close>

theorem process_content_addressed:
  assumes "hr_ok s root h f" and "hr_fed h = []" and "store_ok s root f"
    and "list_all (\<lambda>p. snd p = None) ps" and "data = concat (map fst ps)" and "int (length data) < 2 ^ 63"
    and "1 \<le> length (s data)" and "room_for root f (hexEncode (s data))"
  shows "\<exists>r n h' f'. hrProcess ps None None h f = Ret (r, n, h', f') \<and> n = int (length data) \<and>
     (if hr_hashin h = [] \<or> hr_hashin h = hexEncode (s data)
      then r = Inr (hexEncode (s data)) \<and> objects root f' = (objects root f)(hexEncode (s data) \<mapsto> data)
      else (\<exists>er. r = Inl er) \<and> objects root f' = objects root f) \<and>
     store_ok s root f'"
proof -
  obtain y where tmp: "hr_tmpf h = Some (root @ ''/tmp'' @ y)" using assms(1) by (auto simp: hr_ok_def)
  obtain n h1 f1 where c: "hrCopy ps None 0 h f = Ret (None, n, h1, f1)"
    using hrCopy_total [OF assms(1,4), of 0] by blast
  note k = hrCopy_ok [OF assms(1) c tmp]
  note dp = digest_path [OF assms(7)]
  have ok: "hr_ok s root h1 f1" and fed: "hr_fed h1 = data" and hin: "hr_hashin h1 = hr_hashin h"
    and tmp1: "hr_tmpf h1 = Some (root @ ''/tmp'' @ y)" and n: "n = int (length data)"
    and obj: "objects root f1 = objects root f" and d1: "1 \<le> length (s (hr_fed h1))"
    and room: "room_for root f1 (hexEncode (s data))"
    using k assms(2,5,6,7) objects_same_but_tmp [of root y f f1] room_for_same [OF assms(8), of y f1] dp(1,2) by auto
  show ?thesis
  proof (cases "hr_hashin h = [] \<or> hr_hashin h = hexEncode (s data)")
    case True
    then obtain h' f' where fin: "hrFinish None h1 f1 = Ret (Inr (hexEncode (s data)), h', f')"
      using hrFinish_succeeds [OF ok d1] fed hin room by auto
    have "objects root f' = (objects root f)(hexEncode (s data) \<mapsto> data)"
      using hrFinish_stored [OF ok tmp1 d1 fin] fed objects_put [OF _ dp(1,2), of f' f1 root y data] obj by simp
    with True c fin n show ?thesis
      using store_ok_update [OF assms(3)] by (auto simp: hrProcess_def)
  next
    case False
    then have "hrFinish None h1 f1 = Ret (Inl (EMsg ''Invalid hash''), h1, f1)"
      using ok tmp1 fed hin dp(3) [of root] by (auto simp: hrFinish_def hr_ok_def)
    with False c n obj assms(3) show ?thesis by (auto simp: hrProcess_def store_ok_objects)
  qed
qed
theorem process_content_addressed_witness:
  "\<exists>s h f r n h' f'. hrProcess [(''hello '', None), (''world'', None)] None None h f = Ret (r, n, h', f') \<and>
     n = 11 \<and> r = Inr (hexEncode (s ''hello world'')) \<and>
     objects ''/data'' f' (hexEncode (s ''hello world'')) = Some ''hello world''"
proof -
  let ?s = "\<lambda>x :: string. ''ab''"
  let ?h = "\<lparr>hr_tmpf = Some ''/data/tmp1'', hr_sum = Some ?s, hr_fed = [], hr_hashin = [],
     hr_base = ''/data'', hr_written = 0\<rparr>"
  let ?f = "\<lparr>fs_files = (\<lambda>p. if p = ''/data/tmp1'' then Some [] else None), fs_dirs = (\<lambda>p. p = ''/data'')\<rparr>"
  let ?ps = "[(''hello '', None), (''world'', None)]"
  have 1: "hr_ok ?s ''/data'' ?h ?f" by (simp add: hr_ok_def)
  have 2: "hr_fed ?h = []" by simp
  have 3: "store_ok ?s ''/data'' ?f"
    unfolding store_ok_def
  proof (intro allI impI)
    fix h c
    assume v: "validHash h" "2 \<le> length h" "fs_files ?f (objectPath ''/data'' h) = Some c"
    then show "hexEncode ''ab'' = h" using tmp_not_object [OF v(1,2), of "''/data''" "''1''"] by (auto split: if_splits)
  qed
  have 4: "list_all (\<lambda>p. snd p = None) ?ps" by simp
  have 5: "''hello world'' = concat (map fst ?ps)" by simp
  have 6: "int (length ''hello world'') < 2 ^ 63" by simp
  have 7: "1 \<le> length (?s ''hello world'')" by simp
  have 8: "room_for ''/data'' ?f (hexEncode (?s ''hello world''))" by code_simp
  obtain r n h' f' where p: "hrProcess ?ps None None ?h ?f = Ret (r, n, h', f')" "n = int (length ''hello world'')"
    "r = Inr (hexEncode (?s ''hello world''))"
    "objects ''/data'' f' = (objects ''/data'' ?f)(hexEncode (?s ''hello world'') \<mapsto> ''hello world'')"
    using process_content_addressed [OF 1 2 3 4 5 6 7 8] by auto
  have "n = 11" using p(2) by simp
  with p show ?thesis
    by (intro exI [of _ ?s] exI [of _ ?h] exI [of _ ?f] exI [of _ r] exI [of _ n] exI [of _ h'] exI [of _ f']) simp
qed

end
