(* ===== verification/Blobs.thy ===== *)
theory Blobs
  imports Hash_Store
begin

text \<open>
  Blobs and their owners: \<open>src/blobs.go\<close>.

  A blob's ownership document lists the nodes that have it, with the time each recorded it, whether it is
  garbage and when it was last referenced. Every change of it is an update callback or a compare-and-swap
  here, so the interleavings of all nodes are sequences of steps on one document (\<open>blob_step\<close>).

  The internode queue is a buffered channel drained by workers. What the model keeps of it is the list of
  tasks sent; the parameter \<open>room\<close> says, given that list, whether the channel has room at this moment,
  so every capacity and every schedule of the workers is covered. A blocking send waits for room, hence
  always appends.

  Lemmas: the JSON round trip of an ownership document; the contracts of the callbacks; the batches of a
  bulk read; the bounds of the replication loops.
\<close>

section \<open>Ownership documents\<close>

record blobOwnership =
  bo_OID :: string
  bo_Length :: int
  bo_Nodes :: "(string, time) gomap"
  bo_Type :: string
  bo_Garbage :: bool
  bo_Referenced :: time

definition blobOwnership_zero :: blobOwnership where
  "blobOwnership_zero =
     \<lparr>bo_OID = [], bo_Length = 0, bo_Nodes = None, bo_Type = [], bo_Garbage = False, bo_Referenced = 0\<rparr>"

definition marshal_blob :: "blobOwnership \<Rightarrow> json" where
  "marshal_blob b =
     JObj [(''oid'', JStr (bo_OID b)), (''length'', JNum (bo_Length b)),
           (''nodes'', encMap JTime (bo_Nodes b)), (''type'', JStr (bo_Type b)),
           (''garbage'', JBool (bo_Garbage b)), (''referenced'', JTime (bo_Referenced b))]"

definition fields_blob :: "(string \<times> json) list \<Rightarrow> blobOwnership option" where
  "fields_blob ms = do {
     i \<leftarrow> fld ''oid'' decStr [] ms;
     l \<leftarrow> fld ''length'' decInt 0 ms;
     ns \<leftarrow> fld ''nodes'' (decMap decTime 0) None ms;
     t \<leftarrow> fld ''type'' decStr [] ms;
     g \<leftarrow> fld ''garbage'' decBool False ms;
     r \<leftarrow> fld ''referenced'' decTime 0 ms;
     Some \<lparr>bo_OID = i, bo_Length = l, bo_Nodes = ns, bo_Type = t, bo_Garbage = g, bo_Referenced = r\<rparr> }"

definition unmarshal_blob :: "raw option \<Rightarrow> blobOwnership option" where
  "unmarshal_blob r = unmarshal fields_blob r"

text \<open>After a decoding error the fields that did decode keep their values; only this one survives.\<close>

definition referenced_of :: "raw option \<Rightarrow> time" where
  "referenced_of x =
     (case x of
        Some (RJson (JObj ms)) \<Rightarrow> (case fld ''referenced'' decTime 0 ms of Some t \<Rightarrow> t | None \<Rightarrow> 0)
      | _ \<Rightarrow> 0)"

definition ResolveNodes :: "env \<Rightarrow> 'db bucket \<Rightarrow> blobOwnership \<Rightarrow> 'db \<Rightarrow> nodeList go" where
  "ResolveNodes e cb b d =
     (case cbGetBulk cb (map (\<lambda>(k, t). ''/'' @ k) (mrange (bo_Nodes b))) d of
        Inl _ \<Rightarrow> Panic
      | Inr resps \<Rightarrow> Ret (sortGo (Less e) (nodesOf None resps)))"

definition ResolveRemoteNodes :: "env \<Rightarrow> 'db bucket \<Rightarrow> blobOwnership \<Rightarrow> 'db \<Rightarrow> nodeList go" where
  "ResolveRemoteNodes e cb b d =
     (case ResolveNodes e cb b d of Panic \<Rightarrow> Panic | Ret nl \<Rightarrow> Ret (minusLocal e nl))"

fun mostRecentLoop :: "(string \<times> time) list \<Rightarrow> string \<Rightarrow> time \<Rightarrow> string \<times> time" where
  "mostRecentLoop [] rvnode rvt = (rvnode, rvt)"
| "mostRecentLoop ((node, t) # ns) rvnode rvt =
     (if t > rvt then mostRecentLoop ns node t else mostRecentLoop ns rvnode rvt)"

definition mostRecent :: "blobOwnership \<Rightarrow> string \<times> time" where
  "mostRecent b = mostRecentLoop (mrange (bo_Nodes b)) [] 0"

definition latestReference :: "blobOwnership \<Rightarrow> time" where
  "latestReference b =
     (let t = snd (mostRecent b) in if bo_Referenced b > t then bo_Referenced b else t)"

section \<open>Reading\<close>

definition getBlobOwnership :: "'db bucket \<Rightarrow> string \<Rightarrow> 'db \<Rightarrow> gerr + blobOwnership" where
  "getBlobOwnership cb oid d =
     (case cbGet cb (''/'' @ oid) d of
        Inl e \<Rightarrow> Inl e
      | Inr v \<Rightarrow> (case unmarshal_blob (Some v) of None \<Rightarrow> Inl EJson | Some b \<Rightarrow> Inr b))"

definition keysPerBatch :: nat where "keysPerBatch = 8192"

text \<open>The batches of \<open>getBlobs\<close>, with a batch size; an index out of range panics.\<close>

fun fillKeysets :: "nat \<Rightarrow> string list \<Rightarrow> nat \<Rightarrow> string list list \<Rightarrow> string list list go" where
  "fillKeysets B [] n ks = Ret ks"
| "fillKeysets B (b # oids) n ks =
     (if n \<ge> length ks then Panic
      else (let ks' = ks[n := ks ! n @ [''/'' @ b]] in
            if length (ks' ! n) \<ge> B then fillKeysets B oids (Suc n) ks' else fillKeysets B oids n ks'))"

definition keysets :: "nat \<Rightarrow> string list \<Rightarrow> string list list go" where
  "keysets B oids =
     fillKeysets B oids 0
       (replicate (length oids div B) [] @ (if length oids mod B \<noteq> 0 then [[]] else []))"

fun addBlobs ::
  "(string \<times> raw option) list \<Rightarrow> (string \<times> blobOwnership) list
     \<Rightarrow> gerr option \<times> (string \<times> blobOwnership) list" where
  "addBlobs [] res = (None, res)"
| "addBlobs ((k, body) # bres) res =
     (case body of
        None \<Rightarrow> addBlobs bres res
      | Some v \<Rightarrow>
          (case unmarshal_blob (Some v) of
             None \<Rightarrow> (Some EJson, res)
           | Some bo \<Rightarrow> addBlobs bres (AList.update (tl k) bo res)))"

fun readKeysets ::
  "'db bucket \<Rightarrow> string list list \<Rightarrow> 'db \<Rightarrow> (string \<times> blobOwnership) list
     \<Rightarrow> gerr option \<times> (string \<times> blobOwnership) list" where
  "readKeysets cb [] d res = (None, res)"
| "readKeysets cb (ks # kss) d res =
     (case cbGetBulk cb ks d of
        Inl e \<Rightarrow> (Some e, [])
      | Inr bres \<Rightarrow>
          (case addBlobs bres res of
             (Some e, res') \<Rightarrow> (Some e, res')
           | (None, res') \<Rightarrow> readKeysets cb kss d res'))"

definition getBlobs ::
  "'db bucket \<Rightarrow> string list \<Rightarrow> 'db \<Rightarrow> (gerr option \<times> (string \<times> blobOwnership) list) go" where
  "getBlobs cb oids d =
     (case keysets keysPerBatch oids of Panic \<Rightarrow> Panic | Ret kss \<Rightarrow> Ret (readKeysets cb kss d []))"

section \<open>Changing the owners\<close>

text \<open>\<open>recordBlobOwnership\<close>; the captured variable counts the readings of the clock \<open>clk\<close>.\<close>

definition record_cb ::
  "string \<Rightarrow> (nat \<Rightarrow> time) \<Rightarrow> string \<Rightarrow> int \<Rightarrow> bool \<Rightarrow> nat \<Rightarrow> raw option \<Rightarrow> nat \<times> upd" where
  "record_cb serverId clk h l force n x =
     (let fin = (\<lambda>b m. (Suc n, UStore (RJson (marshal_blob
            (b\<lparr>bo_Nodes := m, bo_OID := h, bo_Length := l, bo_Garbage := False, bo_Type := ''blob''\<rparr>)))))
      in case unmarshal_blob x of
           Some ownership \<Rightarrow>
             (if mget (bo_Nodes ownership) serverId \<noteq> None \<and> \<not> force then (n, UErr EUpdateCancel)
              else (case mput serverId (clk n) (bo_Nodes ownership) of
                      None \<Rightarrow> (Suc n, UPanic)
                    | Some m \<Rightarrow> fin ownership m))
         | None \<Rightarrow>
             fin (blobOwnership_zero\<lparr>bo_Referenced := referenced_of x\<rparr>) (Some [(serverId, clk n)]))"

definition recordBlobOwnership ::
  "env \<Rightarrow> 'db bucket \<Rightarrow> (nat \<Rightarrow> time) \<Rightarrow> string \<Rightarrow> int \<Rightarrow> bool \<Rightarrow> 'db \<Rightarrow> gerr option go \<times> 'db" where
  "recordBlobOwnership e cb clk h l force d =
     (case cbUpdate cb (''/'' @ h) 0 (closure (record_cb (e_serverId e) clk h l force) 0) d of
        (_, UpdOk, d') \<Rightarrow> (Ret None, d')
      | (_, UpdErr er, d') \<Rightarrow> (Ret (if er = EUpdateCancel then None else Some er), d')
      | (_, UpdPanic, d') \<Rightarrow> (Panic, d'))"

text \<open>The compare-and-swap of \<open>referenceBlob\<close> and \<open>markGarbage\<close>: read, decode, change, write.\<close>

definition reference_of :: "time \<Rightarrow> blobOwnership \<Rightarrow> blobOwnership" where
  "reference_of now b = b\<lparr>bo_Referenced := now, bo_Garbage := False\<rparr>"

definition referenceBlob ::
  "'db bucket \<Rightarrow> time \<Rightarrow> string \<Rightarrow> 'db \<Rightarrow> (blobOwnership \<times> gerr option) \<times> 'db" where
  "referenceBlob cb now h d =
     (let k = ''/'' @ h in
      case cbGets cb k d of
        Inl er \<Rightarrow> ((blobOwnership_zero, Some er), d)
      | Inr (v, cas) \<Rightarrow>
          (case unmarshal_blob (Some v) of
             None \<Rightarrow> ((blobOwnership_zero, Some EJson), d)
           | Some ownership \<Rightarrow>
               (let b = reference_of now ownership;
                    (er, d') = cbCas cb k cas 0 (RJson (marshal_blob b)) d in ((b, er), d'))))"

definition markGarbage :: "'db bucket \<Rightarrow> time \<Rightarrow> string \<Rightarrow> 'db \<Rightarrow> gerr option \<times> 'db" where
  "markGarbage cb now h d =
     (let k = ''/'' @ h in
      case cbGets cb k d of
        Inl er \<Rightarrow> (Some er, d)
      | Inr (v, cas) \<Rightarrow>
          (case unmarshal_blob (Some v) of
             None \<Rightarrow> (Some EJson, d)
           | Some ownership \<Rightarrow>
               (if timeSub now (latestReference ownership) < minute * 15 then (Some ETooSoon, d)
                else cbCas cb k cas 0 (RJson (marshal_blob (ownership\<lparr>bo_Garbage := True\<rparr>))) d)))"

definition recordBlobAccess :: "env \<Rightarrow> 'db bucket \<Rightarrow> string \<Rightarrow> 'db \<Rightarrow> 'db" where
  "recordBlobAccess e cb h d =
     (let d1 = snd (cbIncr cb (''/'' @ h @ ''/r'') 1 1 0 d)
      in snd (cbIncr cb (''/'' @ e_serverId e @ ''/r'') 1 1 0 d1))"

definition noBytes :: "raw option \<Rightarrow> bool" where
  "noBytes x \<longleftrightarrow> x = None \<or> x = Some (RText [])"

text \<open>\<open>removeBlobOwnershipRecord\<close>; the captured variable is \<open>numOwners\<close>.\<close>

definition remove_cb :: "string \<Rightarrow> string \<Rightarrow> int \<Rightarrow> raw option \<Rightarrow> int \<times> upd" where
  "remove_cb serverId node numOwners x =
     (if noBytes x then (numOwners, UErr EUpdateCancel)
      else case unmarshal_blob x of
             None \<Rightarrow> (numOwners, UErr EUpdateCancel)
           | Some b \<Rightarrow>
               (let ownership = b\<lparr>bo_Nodes := mdel node (bo_Nodes b)\<rparr>; n = mlen (bo_Nodes ownership) in
                if n = 0 \<and> node = serverId then (n, UDelete)
                else (n, UStore (RJson (marshal_blob ownership)))))"

definition removeBlobOwnershipRecord ::
  "env \<Rightarrow> 'db bucket \<Rightarrow> string \<Rightarrow> string \<Rightarrow> 'db \<Rightarrow> int \<times> 'db" where
  "removeBlobOwnershipRecord e cb h node d =
     (let k = ''/'' @ h; f = remove_cb (e_serverId e) node;
          (hist, r, d1) = cbUpdate cb k 0 (closure f (- 1)) d;
          n0 = fst (runCb f (- 1) hist);
          numOwners = (if r = UpdOk \<or> r = UpdErr EUpdateCancel then n0 else - 1);
          d2 = (if numOwners = 0 then snd (cbDelete cb (k @ ''/r'') d1) else d1)
      in (numOwners, d2))"

text \<open>\<open>maybeRemoveBlobOwnership\<close>; captured are \<open>removedLast\<close>, \<open>rv\<close> and the clock readings.\<close>

type_synonym maybeState = "bool \<times> gerr option \<times> nat"

definition maybe_cb ::
  "string \<Rightarrow> int \<Rightarrow> (nat \<Rightarrow> time) \<Rightarrow> maybeState \<Rightarrow> raw option \<Rightarrow> maybeState \<times> upd" where
  "maybe_cb serverId minReplicas clk s x =
     (case s of (_, rv, n) \<Rightarrow>
      if noBytes x then ((False, rv, n), UErr EUpdateCancel)
      else case unmarshal_blob x of
             None \<Rightarrow> ((False, Some EJson, n), UErr EUpdateCancel)
           | Some b \<Rightarrow>
               (let mine = (case mget (bo_Nodes b) serverId of None \<Rightarrow> 0 | Some t \<Rightarrow> t);
                    n1 = (if bo_Garbage b then n else Suc n) in
                if \<not> bo_Garbage b \<and> timeSub (clk n) mine < hour
                then ((False, Some ETooSoon, n1), UErr EUpdateCancel)
                else if \<not> bo_Garbage b \<and> mlen (bo_Nodes b) - 1 < minReplicas
                then ((False, Some EInsufficientReplicas, n1), UErr EUpdateCancel)
                else
                  (let ownership = b\<lparr>bo_Nodes := mdel serverId (bo_Nodes b)\<rparr> in
                   if mlen (bo_Nodes ownership) = 0 then ((True, rv, n1), UDelete)
                   else ((False, rv, n1), UStore (RJson (marshal_blob ownership))))))"

definition maybeRemoveBlobOwnership ::
  "env \<Rightarrow> 'db bucket \<Rightarrow> (nat \<Rightarrow> time) \<Rightarrow> string \<Rightarrow> 'db \<Rightarrow> gerr option \<times> 'db" where
  "maybeRemoveBlobOwnership e cb clk h d =
     (let k = ''/'' @ h; f = maybe_cb (e_serverId e) (cf_MinReplicas (e_conf e)) clk;
          (hist, r, d1) = cbUpdate cb k 0 (closure f (False, None, 0)) d;
          (removedLast, rv, n) = fst (runCb f (False, None, 0) hist);
          d2 = (if removedLast then snd (cbDelete cb (k @ ''/r'') d1) else d1)
      in (rv, d2))"
section \<open>Steps on one document\<close>

text \<open>
  What the nodes of a cluster do to the ownership document of blob \<open>h\<close>: each rule is the committed effect
  of one operation, by any node at any time. A stored length is a file size.
\<close>

inductive blob_step :: "string \<Rightarrow> raw option \<Rightarrow> raw option \<Rightarrow> bool" for h where
  own: "record_cb serverId clk h l force n x = (n', UStore v) \<Longrightarrow> i64_range l \<Longrightarrow> blob_step h x (Some v)"
| reference: "unmarshal_blob x = Some b
     \<Longrightarrow> blob_step h x (Some (RJson (marshal_blob (reference_of now b))))"
| garbage: "unmarshal_blob x = Some b \<Longrightarrow> \<not> timeSub now (latestReference b) < minute * 15
     \<Longrightarrow> blob_step h x (Some (RJson (marshal_blob (b\<lparr>bo_Garbage := True\<rparr>))))"
| remove: "remove_cb serverId node n x = (n', u) \<Longrightarrow> writes u \<Longrightarrow> blob_step h x (contents_after u)"
| maybe_remove: "maybe_cb serverId minReplicas clk s x = (s', u) \<Longrightarrow> writes u
     \<Longrightarrow> blob_step h x (contents_after u)"

inductive blob_reachable :: "string \<Rightarrow> raw option \<Rightarrow> bool" for h where
  start: "blob_reachable h None"
| step: "blob_reachable h x \<Longrightarrow> blob_step h x y \<Longrightarrow> blob_reachable h y"

definition blob_doc_ok :: "string \<Rightarrow> raw option \<Rightarrow> bool" where
  "blob_doc_ok h x \<longleftrightarrow>
     (case x of
        None \<Rightarrow> True
      | Some _ \<Rightarrow> \<exists>b. unmarshal_blob x = Some b \<and> bo_OID b = h \<and> bo_Type b = ''blob'' \<and> bo_Nodes b \<noteq> None)"

section \<open>Lemmas\<close>

subsection \<open>JSON\<close>

definition wf_blob :: "blobOwnership \<Rightarrow> bool" where
  "wf_blob b \<longleftrightarrow> mwf (bo_Nodes b) \<and> i64_range (bo_Length b)"

lemma blob_key_eqs [json_simps]:
  "toLower ''oid'' = ''oid''" "toLower ''length'' = ''length''" "toLower ''garbage'' = ''garbage''"
  "toLower ''referenced'' = ''referenced''"
  by (simp_all add: toLower_def lowerChar_def)

lemma blob_roundtrip:
  assumes "wf_blob b"
  shows "unmarshal_blob (Some (RJson (marshal_blob b))) = Some b"
proof (cases "bo_Nodes b")
  case None
  with assms show ?thesis
    by (simp add: unmarshal_blob_def marshal_blob_def fields_blob_def fld_def json_simps encMap_def wf_blob_def)
next
  case (Some xs)
  have "decMap decTime 0 (encMap JTime (Some xs)) = Some (Some xs)"
    using assms Some by (intro decMap_encMap) (simp_all add: wf_blob_def)
  moreover have "encMap JTime (Some xs) \<noteq> JNull" by (simp add: encMap_def)
  ultimately show ?thesis
    using assms Some
    by (simp add: unmarshal_blob_def marshal_blob_def fields_blob_def fld_def json_simps wf_blob_def)
qed

lemma fld_range: "fld n decInt 0 ms = Some x \<Longrightarrow> i64_range x"
  by (auto simp: fld_def i64_range_def elim!: decInt.elims split: option.splits if_splits)

lemma unmarshal_blob_wf: "unmarshal_blob x = Some b \<Longrightarrow> wf_blob b"
proof -
  assume u: "unmarshal_blob x = Some b"
  then obtain ms where "fields_blob ms = Some b"
    by (auto simp: unmarshal_blob_def unmarshal_def split: option.splits raw.splits json.splits)
  then have m: "fld ''nodes'' (decMap decTime 0) None ms = Some (bo_Nodes b)"
    and l: "fld ''length'' decInt 0 ms = Some (bo_Length b)"
    by (auto simp: fields_blob_def bind_eq_Some_conv)
  have "mwf (bo_Nodes b)"
    using m by (auto simp: fld_def mwf_def [of None] dest: decMap_mwf split: option.splits)
  with fld_range [OF l] show "wf_blob b" by (simp add: wf_blob_def)
qed

lemma wf_blob_update [simp]:
  "wf_blob (b\<lparr>bo_Garbage := g\<rparr>) = wf_blob b" "wf_blob (b\<lparr>bo_Referenced := t\<rparr>) = wf_blob b"
  "wf_blob (b\<lparr>bo_Type := ty\<rparr>) = wf_blob b" "wf_blob (b\<lparr>bo_OID := i\<rparr>) = wf_blob b"
  by (simp_all add: wf_blob_def)

subsection \<open>The callbacks\<close>

lemma mostRecentLoop_ge: "snd (mostRecentLoop ns n t) \<ge> t \<and> (\<forall>(k, u) \<in> set ns. snd (mostRecentLoop ns n t) \<ge> u)"
  by (induction ns n t rule: mostRecentLoop.induct) fastforce+

lemma latestReference_ge:
  "bo_Referenced b \<le> latestReference b" "mget (bo_Nodes b) node = Some t \<Longrightarrow> t \<le> latestReference b"
proof -
  show "bo_Referenced b \<le> latestReference b" by (simp add: latestReference_def Let_def)
  assume "mget (bo_Nodes b) node = Some t"
  then have "(node, t) \<in> set (mrange (bo_Nodes b))" by (auto simp: mget_def dest: map_of_SomeD)
  then have "t \<le> snd (mostRecent b)"
    using mostRecentLoop_ge [of 0 "mrange (bo_Nodes b)" "[]"] by (auto simp: mostRecent_def)
  then show "t \<le> latestReference b" by (simp add: latestReference_def Let_def)
qed

text \<open>What a record, a removal and a conditional removal commit, given the contents they replaced.\<close>

definition recorded :: "string \<Rightarrow> (nat \<Rightarrow> time) \<Rightarrow> string \<Rightarrow> int \<Rightarrow> raw option \<Rightarrow> raw option \<Rightarrow> bool" where
  "recorded serverId clk h l x y \<longleftrightarrow>
     (\<exists>b n. y = Some (RJson (marshal_blob b)) \<and> bo_OID b = h \<and> bo_Length b = l \<and> bo_Type b = ''blob'' \<and>
        \<not> bo_Garbage b \<and>
        (case unmarshal_blob x of
           Some old \<Rightarrow> mput serverId (clk n) (bo_Nodes old) = Some (bo_Nodes b) \<and> bo_Referenced b = bo_Referenced old
         | None \<Rightarrow> bo_Nodes b = Some [(serverId, clk n)]))"

definition removed :: "string \<Rightarrow> string \<Rightarrow> raw option \<Rightarrow> raw option \<Rightarrow> bool" where
  "removed serverId node x y \<longleftrightarrow>
     (\<exists>b. unmarshal_blob x = Some b \<and>
        (let m = mdel node (bo_Nodes b) in
         y = (if mlen m = 0 \<and> node = serverId then None
              else Some (RJson (marshal_blob (b\<lparr>bo_Nodes := m\<rparr>))))))"

definition maybe_removed :: "string \<Rightarrow> int \<Rightarrow> (nat \<Rightarrow> time) \<Rightarrow> raw option \<Rightarrow> raw option \<Rightarrow> bool" where
  "maybe_removed serverId minReplicas clk x y \<longleftrightarrow>
     (\<exists>b n. unmarshal_blob x = Some b \<and>
        (bo_Garbage b \<or>
           (\<not> timeSub (clk n) (case mget (bo_Nodes b) serverId of None \<Rightarrow> 0 | Some t \<Rightarrow> t) < hour \<and>
            minReplicas \<le> mlen (bo_Nodes b) - 1)) \<and>
        (let m = mdel serverId (bo_Nodes b) in
         y = (if mlen m = 0 then None else Some (RJson (marshal_blob (b\<lparr>bo_Nodes := m\<rparr>))))))"

interpretation record_own: doc_callback "record_cb serverId clk h l force" "\<lambda>_. True" "recorded serverId clk h l"
proof unfold_locales
  fix s x
  assume w: "writes (snd (record_cb serverId clk h l force s x))"
  show "recorded serverId clk h l x (contents_after (snd (record_cb serverId clk h l force s x)))"
  proof (cases "unmarshal_blob x")
    case None
    let ?b = "blobOwnership_zero\<lparr>bo_Referenced := referenced_of x, bo_Nodes := Some [(serverId, clk s)], bo_OID := h,
       bo_Length := l, bo_Garbage := False, bo_Type := ''blob''\<rparr>"
    have "contents_after (snd (record_cb serverId clk h l force s x)) = Some (RJson (marshal_blob ?b))"
      using None by (simp add: record_cb_def contents_after_def Let_def)
    then show ?thesis using None by (auto simp: recorded_def intro!: exI [of _ ?b] exI [of _ s])
  next
    case (Some old)
    then obtain m where m: "mput serverId (clk s) (bo_Nodes old) = Some m"
      "\<not> (mget (bo_Nodes old) serverId \<noteq> None \<and> \<not> force)"
      using w by (auto simp: record_cb_def Let_def writes_def split: option.splits if_splits)
    let ?b = "old\<lparr>bo_Nodes := m, bo_OID := h, bo_Length := l, bo_Garbage := False, bo_Type := ''blob''\<rparr>"
    have "contents_after (snd (record_cb serverId clk h l force s x)) = Some (RJson (marshal_blob ?b))"
      using Some m by (auto simp: record_cb_def contents_after_def Let_def)
    then show ?thesis using Some m by (auto simp: recorded_def intro!: exI [of _ ?b] exI [of _ s])
  qed
qed simp

interpretation remove_own: doc_callback "remove_cb serverId node" "\<lambda>_. True" "removed serverId node"
proof unfold_locales
  fix s x
  assume w: "writes (snd (remove_cb serverId node s x))"
  then have nb: "\<not> noBytes x" by (cases "noBytes x") (simp_all add: remove_cb_def writes_def)
  then obtain b where b: "unmarshal_blob x = Some b"
    using w by (cases "unmarshal_blob x") (simp_all add: remove_cb_def writes_def)
  show "removed serverId node x (contents_after (snd (remove_cb serverId node s x)))"
    using nb b by (cases "node = serverId") (simp_all add: remove_cb_def removed_def contents_after_def Let_def)
qed simp

interpretation maybe_own: doc_callback "maybe_cb serverId minReplicas clk" "\<lambda>_. True"
  "maybe_removed serverId minReplicas clk"
proof unfold_locales
  fix s :: maybeState and x
  obtain r rv n where s: "s = (r, rv, n)" by (cases s)
  assume w: "writes (snd (maybe_cb serverId minReplicas clk s x))"
  then have nb: "\<not> noBytes x" using s by (cases "noBytes x") (simp_all add: maybe_cb_def writes_def)
  then obtain b where b: "unmarshal_blob x = Some b"
    using w s by (cases "unmarshal_blob x") (simp_all add: maybe_cb_def writes_def)
  let ?soon = "timeSub (clk n) (case mget (bo_Nodes b) serverId of None \<Rightarrow> 0 | Some t \<Rightarrow> t) < hour"
  have g: "bo_Garbage b \<or> (\<not> ?soon \<and> minReplicas \<le> mlen (bo_Nodes b) - 1)"
  proof (rule ccontr)
    assume "\<not> ?thesis"
    then have "\<not> bo_Garbage b" "?soon \<or> mlen (bo_Nodes b) - 1 < minReplicas" by auto
    with w s nb b show False
      by (cases ?soon) (simp_all add: maybe_cb_def writes_def Let_def)
  qed
  then have "contents_after (snd (maybe_cb serverId minReplicas clk s x)) =
      (if mlen (mdel serverId (bo_Nodes b)) = 0 then None
       else Some (RJson (marshal_blob (b\<lparr>bo_Nodes := mdel serverId (bo_Nodes b)\<rparr>))))"
    using s nb b by (auto simp: maybe_cb_def contents_after_def Let_def)
  with b g show "maybe_removed serverId minReplicas clk x (contents_after (snd (maybe_cb serverId minReplicas clk s x)))"
    unfolding maybe_removed_def Let_def by blast
qed simp
text \<open>The relations read back through the decoder.\<close>

lemma recordedD:
  assumes "recorded serverId clk h l x y" and "i64_range l"
  shows "\<exists>b n. unmarshal_blob y = Some b \<and> bo_OID b = h \<and> bo_Length b = l \<and> bo_Type b = ''blob'' \<and>
     \<not> bo_Garbage b \<and> bo_Nodes b \<noteq> None \<and> mget (bo_Nodes b) serverId = Some (clk n) \<and>
     (\<forall>k. k \<noteq> serverId \<longrightarrow> mget (bo_Nodes b) k =
        (case unmarshal_blob x of Some old \<Rightarrow> mget (bo_Nodes old) k | None \<Rightarrow> None))"
proof -
  obtain b n where y: "y = Some (RJson (marshal_blob b))" "bo_OID b = h" "bo_Length b = l" "bo_Type b = ''blob''"
    "\<not> bo_Garbage b"
    and c: "case unmarshal_blob x of
           Some old \<Rightarrow> mput serverId (clk n) (bo_Nodes old) = Some (bo_Nodes b) \<and> bo_Referenced b = bo_Referenced old
         | None \<Rightarrow> bo_Nodes b = Some [(serverId, clk n)]"
    using assms(1) by (auto simp: recorded_def)
  show ?thesis
  proof (cases "unmarshal_blob x")
    case None
    with c y assms(2) have "wf_blob b" by (simp add: wf_blob_def mwf_def)
    with None c y show ?thesis by (auto simp: blob_roundtrip mget_def)
  next
    case (Some old)
    with c have p: "mput serverId (clk n) (bo_Nodes old) = Some (bo_Nodes b)" by simp
    have "mwf (bo_Nodes old)" using unmarshal_blob_wf [OF Some] by (simp add: wf_blob_def)
    with p y assms(2) have "wf_blob b" by (auto simp: wf_blob_def dest: mwf_mput)
    with Some y mput_not_nil [OF p] show ?thesis by (auto simp: blob_roundtrip mget_mput [OF p])
  qed
qed

lemma mdel_not_nil [simp]: "mdel k m = None \<longleftrightarrow> m = None"
  by (simp add: mdel_def)

lemma wf_mdel: "wf_blob b \<Longrightarrow> wf_blob (b\<lparr>bo_Nodes := mdel k (bo_Nodes b)\<rparr>)"
  by (simp add: wf_blob_def)

lemma blob_roundtrip_mdel:
  "unmarshal_blob x = Some b \<Longrightarrow> unmarshal_blob (Some (RJson (marshal_blob (b\<lparr>bo_Nodes := mdel k (bo_Nodes b)\<rparr>))))
     = Some (b\<lparr>bo_Nodes := mdel k (bo_Nodes b)\<rparr>)"
  by (intro blob_roundtrip wf_mdel unmarshal_blob_wf)

lemma blob_step_ok:
  assumes "blob_step h x y" and "blob_doc_ok h x"
  shows "blob_doc_ok h y"
proof -
  have dec: "bo_OID b = h \<and> bo_Type b = ''blob'' \<and> bo_Nodes b \<noteq> None" if "unmarshal_blob x = Some b" for b
    using assms(2) that by (cases x) (auto simp: blob_doc_ok_def unmarshal_blob_def)
  from assms(1) show ?thesis
  proof cases
    case (own serverId clk l force n n' v)
    have "recorded serverId clk h l x (contents_after (snd (record_cb serverId clk h l force n x)))"
      by (rule record_own.rel_step) (simp_all add: own writes_def)
    then have "recorded serverId clk h l x y" using own by (simp add: contents_after_def)
    from recordedD [OF this own(3)] own(1) show ?thesis by (auto simp: blob_doc_ok_def)
  next
    case (reference b now)
    have "wf_blob (reference_of now b)" using unmarshal_blob_wf [OF reference(2)] by (simp add: reference_of_def wf_blob_def)
    with reference dec [OF reference(2)] show ?thesis by (simp add: blob_doc_ok_def blob_roundtrip reference_of_def)
  next
    case (garbage b now)
    with unmarshal_blob_wf [OF garbage(2)] dec [OF garbage(2)] show ?thesis
      by (simp add: blob_doc_ok_def blob_roundtrip)
  next
    case (remove serverId node n n' u)
    have "removed serverId node x (contents_after (snd (remove_cb serverId node n x)))"
      by (rule remove_own.rel_step) (simp_all add: remove)
    then have "removed serverId node x y" using remove by simp
    then obtain b where b: "unmarshal_blob x = Some b" and
      y: "y = None \<or> y = Some (RJson (marshal_blob (b\<lparr>bo_Nodes := mdel node (bo_Nodes b)\<rparr>)))"
      by (auto simp: removed_def Let_def split: if_splits)
    from y show ?thesis
      by (elim disjE) (simp_all add: blob_doc_ok_def dec [OF b] blob_roundtrip_mdel [OF b] del: not_None_eq)
  next
    case (maybe_remove serverId minReplicas clk s s' u)
    have "maybe_removed serverId minReplicas clk x (contents_after (snd (maybe_cb serverId minReplicas clk s x)))"
      by (rule maybe_own.rel_step) (simp_all add: maybe_remove)
    then have "maybe_removed serverId minReplicas clk x y" using maybe_remove by simp
    then obtain b where b: "unmarshal_blob x = Some b" and
      y: "y = None \<or> y = Some (RJson (marshal_blob (b\<lparr>bo_Nodes := mdel serverId (bo_Nodes b)\<rparr>)))"
      by (auto simp: maybe_removed_def Let_def split: if_splits)
    from y show ?thesis
      by (elim disjE) (simp_all add: blob_doc_ok_def dec [OF b] blob_roundtrip_mdel [OF b] del: not_None_eq)
  qed
qed

lemma blob_reachable_ok: "blob_reachable h x \<Longrightarrow> blob_doc_ok h x"
  by (induction rule: blob_reachable.induct) (auto intro: blob_step_ok simp: blob_doc_ok_def [of _ None])

subsection \<open>Batches\<close>

text \<open>
  The loop's invariant: full batches, the one being filled at index \<open>n\<close>, and empty ones, with room for
  the keys still to come.
\<close>

lemma fillKeysets_batches:
  assumes "0 < B" and "length cur < B" and "length cur + length oids \<le> Suc m * B"
    and "\<forall>ks \<in> set full. length ks \<le> B"
  shows "\<exists>kss. fillKeysets B oids (length full) (full @ cur # replicate m []) = Ret kss \<and>
     concat kss = concat full @ cur @ map ((@) ''/'') oids \<and> length kss = length full + Suc m \<and>
     (\<forall>ks \<in> set kss. length ks \<le> B)"
  using assms
proof (induction oids arbitrary: full cur m)
  case Nil
  then show ?case by (auto simp: le_less)
next
  case (Cons b oids)
  let ?cur = "cur @ [''/'' @ b]"
  have step: "fillKeysets B (b # oids) (length full) (full @ cur # replicate m []) =
      (if length ?cur \<ge> B then fillKeysets B oids (Suc (length full)) (full @ ?cur # replicate m [])
       else fillKeysets B oids (length full) (full @ ?cur # replicate m []))"
    by (simp add: Let_def nth_append list_update_append)
  show ?case
  proof (cases "length ?cur \<ge> B")
    case False
    then have "length ?cur < B" "length ?cur + length oids \<le> Suc m * B" using Cons.prems by auto
    with Cons.IH [of ?cur m full] Cons.prems step False show ?thesis by auto
  next
    case True
    with Cons.prems have B: "length ?cur = B" by simp
    show ?thesis
    proof (cases m)
      case 0
      with Cons.prems B have "oids = []" by (cases oids) simp_all
      with True step 0 B Cons.prems show ?thesis by (auto simp: le_less)
    next
      case (Suc m')
      have "length oids \<le> Suc m' * B" using Cons.prems B Suc by simp
      moreover have "\<forall>ks \<in> set (full @ [?cur]). length ks \<le> B" using Cons.prems B by auto
      ultimately have "\<exists>kss. fillKeysets B oids (length (full @ [?cur])) ((full @ [?cur]) @ [] # replicate m' []) = Ret kss \<and>
         concat kss = concat (full @ [?cur]) @ [] @ map ((@) ''/'') oids \<and>
         length kss = length (full @ [?cur]) + Suc m' \<and> (\<forall>ks \<in> set kss. length ks \<le> B)"
        using Cons.prems(1) by (intro Cons.IH) auto
      with True step Suc show ?thesis by auto
    qed
  qed
qed

lemma keysets_batches:
  assumes "0 < B"
  shows "\<exists>kss. keysets B oids = Ret kss \<and> concat kss = map ((@) ''/'') oids \<and>
     length kss = (length oids + B - 1) div B \<and> (\<forall>ks \<in> set kss. length ks \<le> B)"
proof (cases "oids = []")
  case True
  with assms show ?thesis by (simp add: keysets_def)
next
  case False
  obtain q r where qr: "length oids = q * B + r" "r < B"
    using assms div_mult_mod_eq [of "length oids" B] mod_less_divisor [of B "length oids"] by metis
  then have dm: "length oids div B = q" "length oids mod B = r" by simp_all
  define m where "m = (if r \<noteq> 0 then q else q - 1)"
  have init: "replicate q [] @ (if r \<noteq> 0 then [[]] else []) = [] @ [] # replicate m ([] :: string list)"
  proof (cases "r = 0")
    case True
    then have "0 < q" using qr False by (cases q) simp_all
    then show ?thesis using True by (cases q) (simp_all add: m_def)
  next
    case False
    then show ?thesis by (simp add: m_def replicate_append_same)
  qed
  have sz: "length oids \<le> Suc m * B" and ceil: "Suc m = (length oids + B - 1) div B"
  proof -
    show "length oids \<le> Suc m * B"
    proof (cases "r = 0")
      case True
      then have "0 < q" using qr False by (cases q) simp_all
      then show ?thesis using True qr(1) by (simp add: m_def)
    next
      case False
      then show ?thesis using qr by (simp add: m_def)
    qed
    show "Suc m = (length oids + B - 1) div B"
    proof (cases "r = 0")
      case True
      then have "0 < q" using qr False by (cases q) simp_all
      moreover have "(length oids + B - 1) div B = q"
        using True qr(1) assms by (intro div_nat_eqI) (simp_all add: mult.commute)
      ultimately show ?thesis using True by (simp add: m_def)
    next
      case False
      have "(length oids + B - 1) div B = q + 1"
        using False qr assms by (intro div_nat_eqI) (simp_all add: algebra_simps)
      then show ?thesis using False by (simp add: m_def)
    qed
  qed
  have "\<exists>kss. fillKeysets B oids 0 ([] @ [] # replicate m []) = Ret kss \<and>
     concat kss = map ((@) ''/'') oids \<and> length kss = Suc m \<and> (\<forall>ks \<in> set kss. length ks \<le> B)"
    using fillKeysets_batches [of B "[]" oids m "[]"] assms sz by simp
  then show ?thesis unfolding keysets_def dm init ceil [symmetric] .
qed

lemma addBlobs_sound:
  assumes "addBlobs bres res = (None, res')" and "map_of res' oid = Some b"
  shows "map_of res oid = Some b \<or> (\<exists>k v. (k, Some v) \<in> set bres \<and> tl k = oid \<and> unmarshal_blob (Some v) = Some b)"
  using assms
proof (induction bres res arbitrary: res' rule: addBlobs.induct)
  case (2 k body bres res)
  show ?case
  proof (cases body)
    case None
    with 2 show ?thesis by auto
  next
    case (Some v)
    then obtain bo where bo: "unmarshal_blob (Some v) = Some bo"
      using "2.prems"(1) by (cases "unmarshal_blob (Some v)") auto
    have "addBlobs bres (AList.update (tl k) bo res) = (None, res')" using "2.prems"(1) Some bo by simp
    from "2.IH"(2) [OF Some bo this "2.prems"(2)] show ?thesis
      using Some bo by (auto simp: update_conv' split: if_splits)
  qed
qed simp

lemma readKeysets_sound:
  assumes "bulk_ok cb st" and "readKeysets cb kss d res = (None, res')" and "map_of res' oid = Some b"
    and "\<forall>k \<in> set (concat kss). \<exists>x. k = ''/'' @ x"
  shows "map_of res oid = Some b \<or> (''/'' @ oid \<in> set (concat kss) \<and> unmarshal_blob (st d (''/'' @ oid)) = Some b)"
  using assms(2-)
proof (induction kss arbitrary: res)
  case (Cons ks kss)
  obtain bres where g: "cbGetBulk cb ks d = Inr bres" using Cons.prems(1) by (cases "cbGetBulk cb ks d") auto
  obtain res1 where a: "addBlobs bres res = (None, res1)" and r: "readKeysets cb kss d res1 = (None, res')"
    using Cons.prems(1) g by (cases "addBlobs bres res"; cases "fst (addBlobs bres res)") auto
  have k: "k \<in> set ks \<and> st d k = Some v" if "(k, Some v) \<in> set bres" for k v
    using assms(1) g that by (force simp: bulk_ok_def)
  have "map_of res1 oid = Some b \<or> (''/'' @ oid \<in> set (concat kss) \<and> unmarshal_blob (st d (''/'' @ oid)) = Some b)"
    using Cons.prems r by (intro Cons.IH) auto
  moreover have "map_of res oid = Some b \<or> (''/'' @ oid \<in> set ks \<and> unmarshal_blob (st d (''/'' @ oid)) = Some b)"
    if r1: "map_of res1 oid = Some b"
  proof -
    consider "map_of res oid = Some b"
      | i v where "(i, Some v) \<in> set bres" "tl i = oid" "unmarshal_blob (Some v) = Some b"
      using addBlobs_sound [OF a r1] by blast
    then show ?thesis
    proof cases
      case 2
      then have i: "i \<in> set ks" "st d i = Some v" using k by auto
      then obtain z where "i = ''/'' @ z" using Cons.prems(3) by auto
      with 2(2) have "i = ''/'' @ oid" by simp
      with i 2(3) show ?thesis by simp
    qed simp
  qed
  ultimately show ?case by auto
qed simp
lemma record_cb_total:
  assumes "blob_doc_ok h x"
  shows "snd (record_cb serverId clk h l force n x) = UErr EUpdateCancel \<or>
     (\<exists>v. snd (record_cb serverId clk h l force n x) = UStore v)"
proof (cases "unmarshal_blob x")
  case (Some b)
  then have "bo_Nodes b \<noteq> None" using assms by (cases x) (auto simp: blob_doc_ok_def unmarshal_blob_def)
  then obtain xs where "bo_Nodes b = Some xs" by blast
  with Some show ?thesis by (simp add: record_cb_def Let_def mput_def)
qed (simp add: record_cb_def Let_def)

lemma record_cb_cancel:
  "snd (record_cb serverId clk h l force n x) = UErr EUpdateCancel
     \<Longrightarrow> \<not> force \<and> (\<exists>b. unmarshal_blob x = Some b \<and> mget (bo_Nodes b) serverId \<noteq> None)"
  by (cases "unmarshal_blob x") (auto simp: record_cb_def Let_def split: if_splits option.splits)

section \<open>Properties\<close>

text \<open>
  whatever the nodes of the cluster do to the ownership document of a blob, and in whatever order:
  recording, referencing, marking it garbage, removing an owner with or without conditions. It always
  decodes, names its blob, and has a map of owners; so recording an owner never stores into a nil map,
  and what it stores lists the new owner and every old one.
\<close>

theorem blob_documents_wellformed:
  assumes "blob_reachable h x" and "i64_range l"
  shows "(x \<noteq> None \<longrightarrow> (\<exists>b. unmarshal_blob x = Some b \<and> bo_OID b = h \<and> bo_Type b = ''blob'' \<and> bo_Nodes b \<noteq> None)) \<and>
     snd (record_cb serverId clk h l force n x) \<noteq> UPanic \<and>
     (\<forall>v. snd (record_cb serverId clk h l force n x) = UStore v \<longrightarrow>
        (\<exists>b. unmarshal_blob (Some v) = Some b \<and> \<not> bo_Garbage b \<and> bo_Length b = l \<and>
           mkeys (bo_Nodes b) = insert serverId
             (case unmarshal_blob x of Some old \<Rightarrow> mkeys (bo_Nodes old) | None \<Rightarrow> {})))"
proof -
  have ok: "blob_doc_ok h x" by (rule blob_reachable_ok [OF assms(1)])
  have "\<exists>b. unmarshal_blob (Some v) = Some b \<and> \<not> bo_Garbage b \<and> bo_Length b = l \<and>
     mkeys (bo_Nodes b) = insert serverId
       (case unmarshal_blob x of Some old \<Rightarrow> mkeys (bo_Nodes old) | None \<Rightarrow> {})"
    if v: "snd (record_cb serverId clk h l force n x) = UStore v" for v
  proof -
    have "recorded serverId clk h l x (contents_after (snd (record_cb serverId clk h l force n x)))"
      by (rule record_own.rel_step) (simp_all add: v writes_def)
    then have "recorded serverId clk h l x (Some v)" by (simp add: v contents_after_def)
    from recordedD [OF this assms(2)] obtain b m where b: "unmarshal_blob (Some v) = Some b" "\<not> bo_Garbage b"
      "bo_Length b = l" "mget (bo_Nodes b) serverId = Some (clk m)"
      "\<And>k. k \<noteq> serverId \<Longrightarrow> mget (bo_Nodes b) k =
         (case unmarshal_blob x of Some old \<Rightarrow> mget (bo_Nodes old) k | None \<Rightarrow> None)" by blast
    have "k \<in> mkeys (bo_Nodes b) \<longleftrightarrow> k \<in> insert serverId
       (case unmarshal_blob x of Some old \<Rightarrow> mkeys (bo_Nodes old) | None \<Rightarrow> {})" for k
      using b(4) b(5) [of k] by (cases "k = serverId"; cases "unmarshal_blob x") (auto simp: mkeys_iff_mget)
    then have "mkeys (bo_Nodes b) = insert serverId
       (case unmarshal_blob x of Some old \<Rightarrow> mkeys (bo_Nodes old) | None \<Rightarrow> {})" by blast
    with b(1-3) show ?thesis by blast
  qed
  moreover have "snd (record_cb serverId clk h l force n x) \<noteq> UPanic"
    using record_cb_total [OF ok, of serverId clk l force n] by auto
  ultimately show ?thesis using ok by (auto simp: blob_doc_ok_def split: option.splits)
qed

theorem blob_documents_wellformed_witness:
  "\<exists>v w b. blob_reachable ''ab'' (Some v) \<and> snd (record_cb ''n2'' (\<lambda>_. 9) ''ab'' 3 False 0 (Some v)) = UStore w \<and>
     unmarshal_blob (Some w) = Some b \<and> mkeys (bo_Nodes b) = {''n1'', ''n2''}"
proof -
  let ?b = "\<lparr>bo_OID = ''ab'', bo_Length = 3, bo_Nodes = Some [(''n1'', 7)], bo_Type = ''blob'', bo_Garbage = False,
     bo_Referenced = 0\<rparr>"
  let ?v = "RJson (marshal_blob ?b)"
  have u: "unmarshal_blob (Some ?v) = Some ?b" by (rule blob_roundtrip) (simp add: wf_blob_def mwf_def i64_range_def)
  have l: "i64_range 3" by (simp add: i64_range_def)
  have "record_cb ''n1'' (\<lambda>_. 7) ''ab'' 3 False 0 None = (Suc 0, UStore ?v)"
    by (simp add: record_cb_def Let_def unmarshal_blob_def referenced_of_def blobOwnership_zero_def)
  then have r: "blob_reachable ''ab'' (Some ?v)"
    using l by (intro blob_reachable.step [OF blob_reachable.start] blob_step.own)
  obtain w where w: "snd (record_cb ''n2'' (\<lambda>_. 9) ''ab'' 3 False 0 (Some ?v)) = UStore w"
    using u by (auto simp: record_cb_def Let_def mput_def mget_def)
  have "mkeys (bo_Nodes ?b) = {''n1''}" by (simp add: mkeys_def)
  with blob_documents_wellformed [OF r l, of "''n2''" "\<lambda>_. 9" False 0] w u
  obtain b where b: "unmarshal_blob (Some w) = Some b" "mkeys (bo_Nodes b) = {''n1'', ''n2''}" by auto
  show ?thesis by (intro exI conjI) (rule r, rule w, rule b, rule b)
qed

text \<open>A blob held by three nodes, for evaluating the definitions.\<close>

definition aBlob :: blobOwnership where
  "aBlob = \<lparr>bo_OID = ''ab'', bo_Length = 3, bo_Nodes = Some [(''n1'', 0), (''n2'', 0), (''n3'', 0)], bo_Type = ''blob'',
     bo_Garbage = False, bo_Referenced = 0\<rparr>"

lemma aBlob_decodes: "unmarshal_blob (Some (RJson (marshal_blob aBlob))) = Some aBlob"
  by (rule blob_roundtrip) (simp add: wf_blob_def mwf_def i64_range_def aBlob_def)

lemma memUpdate_store:
  "f [map_of d k] = UStore v \<Longrightarrow> cbUpdate (memBucket vw) k e f d = ([map_of d k], UpdOk, memSet k v d)"
  by (simp add: memBucket_def memUpdate_def Let_def)


lemma recordBlob_recorded:
  assumes "bucket_ok cb st" and "i64_range l" and "recordBlobOwnership e cb clk h l force d = (Ret None, d')"
  shows "(\<exists>b. unmarshal_blob (st d' (''/'' @ h)) = Some b \<and> e_serverId e \<in> mkeys (bo_Nodes b) \<and>
       (force \<longrightarrow> bo_OID b = h \<and> bo_Length b = l \<and> \<not> bo_Garbage b)) \<and>
     (\<forall>k. k \<noteq> ''/'' @ h \<longrightarrow> st d' k = st d k)"
proof -
  let ?k = "''/'' @ h" and ?f = "record_cb (e_serverId e) clk h l force"
  obtain hist r where u: "cbUpdate cb ?k 0 (closure ?f 0) d = (hist, r, d')"
    and r: "r = UpdOk \<or> r = UpdErr EUpdateCancel"
    using assms(3) by (auto simp: recordBlobOwnership_def split: prod.splits updRes.splits if_splits)
  note b = bucket_okD(5) [OF assms(1)]
  from r show ?thesis
  proof
    assume "r = UpdOk"
    note s = record_own.update_success [OF b TrueI u [unfolded this]]
    from recordedD [OF s(2) assms(2)] s(3) show ?thesis by (fastforce simp: mkeys_iff_mget)
  next
    assume c: "r = UpdErr EUpdateCancel"
    obtain s where "snd (?f s (st d' ?k)) = UErr EUpdateCancel" "\<And>k. k \<noteq> ?k \<Longrightarrow> st d' k = st d k"
      by (rule record_own.update_refused [OF b TrueI u [unfolded c]]) auto
    with record_cb_cancel [of "e_serverId e" clk h l force s "st d' ?k"] show ?thesis
      by (auto simp: mkeys_iff_mget)
  qed
qed

text \<open>
  a call that records ownership and reports no error has left this node among the owners of the
  blob's document and touched no other document; a forced one has also set the length and cleared the
  garbage mark.
\<close>

theorem recordBlobOwnership_recorded:
  assumes "bucket_ok cb st" and "i64_range l" and "recordBlobOwnership e cb clk h l force d = (Ret None, d')"
  shows "(\<exists>b. unmarshal_blob (st d' (''/'' @ h)) = Some b \<and> e_serverId e \<in> mkeys (bo_Nodes b) \<and>
       (force \<longrightarrow> bo_OID b = h \<and> bo_Length b = l \<and> \<not> bo_Garbage b)) \<and>
     (\<forall>k. k \<noteq> ''/'' @ h \<longrightarrow> st d' k = st d k)"
  by (rule recordBlob_recorded [OF assms])

theorem recordBlobOwnership_recorded_witness:
  "\<exists>d' b. recordBlobOwnership anEnv (memBucket noView) (\<lambda>_. 5) ''cd'' 9 True [] = (Ret None, d') \<and>
     unmarshal_blob (map_of d' (''/'' @ ''cd'')) = Some b \<and> e_serverId anEnv \<in> mkeys (bo_Nodes b)"
proof -
  let ?r = "recordBlobOwnership anEnv (memBucket noView) (\<lambda>_. 5) ''cd'' 9 True []"
  have r: "?r = (Ret None, snd ?r)" by code_simp
  have l: "i64_range 9" by (simp add: i64_range_def)
  from r recordBlobOwnership_recorded [OF memBucket_ok l r] show ?thesis by blast
qed

text \<open>
  C9: a reference protects a blob from the garbage collector for fifteen minutes. After a successful
  \<open>referenceBlob\<close>, and as long as the document is not changed, \<open>markGarbage\<close> cannot succeed at any
  time less than fifteen minutes later; it changes nothing.
\<close>

theorem reference_protects:
  assumes "bucket_ok cb st" and "referenceBlob cb now h d = ((b, None), d')"
    and "st d'' (''/'' @ h) = st d' (''/'' @ h)" and "now' < now + 15 * minute"
  shows "\<not> bo_Garbage b \<and> unmarshal_blob (st d' (''/'' @ h)) = Some b \<and>
     fst (markGarbage cb now' h d'') \<noteq> None \<and> snd (markGarbage cb now' h d'') = d''"
proof -
  let ?k = "''/'' @ h"
  note cas = bucket_okD(6) [OF assms(1), unfolded cas_ok_def]
  obtain v c old where g: "cbGets cb ?k d = Inr (v, c)" "unmarshal_blob (Some v) = Some old"
    "b = reference_of now old" "cbCas cb ?k c 0 (RJson (marshal_blob b)) d = (None, d')"
    using assms(2) by (auto simp: referenceBlob_def Let_def split: sum.splits option.splits prod.splits)
  have "wf_blob b" using unmarshal_blob_wf [OF g(2)] g(3) by (simp add: reference_of_def wf_blob_def)
  moreover have "st d' = (st d)(?k \<mapsto> RJson (marshal_blob b))" using cas g(4) by blast
  ultimately have u: "unmarshal_blob (st d' ?k) = Some b" by (simp add: blob_roundtrip)
  have soon: "timeSub now' (latestReference b) < minute * 15"
    using latestReference_ge(1) [of b] assms(4) g(3)
    by (subst timeSub_less) (simp_all add: duration_defs reference_of_def)
  have "fst (markGarbage cb now' h d'') \<noteq> None \<and> snd (markGarbage cb now' h d'') = d''"
  proof (cases "cbGets cb ?k d''")
    case (Inr p)
    obtain w c' where p: "p = (w, c')" by (cases p)
    have "st d'' ?k = Some w" using cas Inr p by blast
    with u assms(3) have "unmarshal_blob (Some w) = Some b" by simp
    with Inr p soon show ?thesis by (simp add: markGarbage_def)
  qed (simp add: markGarbage_def)
  with u g(3) show ?thesis by (simp add: reference_of_def)
qed

theorem reference_protects_witness:
  "\<exists>b d'. referenceBlob (memBucket noView) hour ''ab'' [(''/ab'', RJson (marshal_blob aBlob))] = ((b, None), d') \<and>
     fst (markGarbage (memBucket noView) (hour + 14 * minute) ''ab'' d') \<noteq> None"
proof -
  let ?r = "referenceBlob (memBucket noView) hour ''ab'' [(''/ab'', RJson (marshal_blob aBlob))]"
  have "snd (fst ?r) = None"
    by (simp add: referenceBlob_def Let_def memBucket_def aBlob_decodes)
  then have r: "?r = ((fst (fst ?r), None), snd ?r)" by (metis prod.collapse)
  have t: "hour + 14 * minute < hour + 15 * minute" by (simp add: duration_defs)
  from r reference_protects [OF memBucket_ok r refl t] show ?thesis by blast
qed
text \<open>
  the number \<open>removeBlobOwnershipRecord\<close> returns after its update committed is the number of owners
  left in the document (0 if the document is gone), the node removed is not among them, and besides the
  document only the access counter may have changed.
\<close>

theorem removeRecord_counts_owners:
  assumes "bucket_ok cb st"
    and "cbUpdate cb (''/'' @ h) 0 (closure (remove_cb (e_serverId e) node) (- 1)) d = (hist, UpdOk, d1)"
    and "removeBlobOwnershipRecord e cb h node d = (n, d')"
  shows "(case unmarshal_blob (st d' (''/'' @ h)) of
        Some b \<Rightarrow> n = int (card (mkeys (bo_Nodes b))) \<and> node \<notin> mkeys (bo_Nodes b)
      | None \<Rightarrow> n = 0 \<and> st d' (''/'' @ h) = None) \<and>
     (\<forall>k. k \<noteq> ''/'' @ h \<and> k \<noteq> ''/'' @ h @ ''/r'' \<longrightarrow> st d' k = st d k)"
proof -
  let ?k = "''/'' @ h" and ?f = "remove_cb (e_serverId e) node"
  note b5 = bucket_okD(5) [OF assms(1)]
  note s = remove_own.update_success [OF b5 TrueI assms(2)]
  obtain s' where s': "runCb ?f (- 1) hist = ?f s' (last hist)"
    using remove_own.run_cases [OF TrueI s(1)] by blast
  have w: "writes (snd (?f s' (last hist)))"
    using update_okD(3) [OF b5 assms(2)] s' by (simp add: closure_def)
  obtain b where b: "unmarshal_blob (last hist) = Some b" and
    y: "st d1 ?k = (if mlen (mdel node (bo_Nodes b)) = 0 \<and> node = e_serverId e then None
              else Some (RJson (marshal_blob (b\<lparr>bo_Nodes := mdel node (bo_Nodes b)\<rparr>))))"
    using s(2) by (auto simp: removed_def Let_def)
  have "\<not> noBytes (last hist)" using w by (auto simp: remove_cb_def writes_def)
  then have n0: "fst (?f s' (last hist)) = mlen (mdel node (bo_Nodes b))"
    using b by (simp add: remove_cb_def Let_def)
  have n: "n = mlen (mdel node (bo_Nodes b))"
    and d': "d' = (if n = 0 then snd (cbDelete cb (?k @ ''/r'') d1) else d1)"
    using assms(2,3) s' n0 by (auto simp: removeBlobOwnershipRecord_def Let_def)
  have del: "st d' k = st d1 k" if "k \<noteq> ?k @ ''/r''" for k
    using bucket_okD(4) [OF assms(1)] that d' by (cases "cbDelete cb (?k @ ''/r'') d1") (auto simp: delete_ok_def)
  have card: "mlen (mdel node (bo_Nodes b)) = int (card (mkeys (mdel node (bo_Nodes b))))"
    using unmarshal_blob_wf [OF b] by (intro mlen_card) (simp add: wf_blob_def)
  have "case unmarshal_blob (st d1 ?k) of
        Some b \<Rightarrow> n = int (card (mkeys (bo_Nodes b))) \<and> node \<notin> mkeys (bo_Nodes b)
      | None \<Rightarrow> n = 0 \<and> st d1 ?k = None"
    using y n card blob_roundtrip_mdel [OF b, of node]
    by (cases "mlen (mdel node (bo_Nodes b)) = 0 \<and> node = e_serverId e") (auto simp: unmarshal_blob_def mkeys_mdel)
  moreover have "st d' ?k = st d1 ?k" by (rule del) simp
  moreover have "st d' k = st d k" if "k \<noteq> ?k \<and> k \<noteq> ''/'' @ h @ ''/r''" for k
    using del [of k] s(3) [of k] that by simp
  ultimately show ?thesis by presburger
qed

theorem removeRecord_counts_owners_witness:
  "\<exists>d'. removeBlobOwnershipRecord anEnv (memBucket noView) ''ab'' ''n2'' [(''/ab'', RJson (marshal_blob aBlob))] = (2, d') \<and>
     (\<exists>b. unmarshal_blob (map_of d' (''/'' @ ''ab'')) = Some b \<and> ''n2'' \<notin> mkeys (bo_Nodes b))"
proof -
  let ?d = "[(''/ab'', RJson (marshal_blob aBlob))]" and ?f = "remove_cb (e_serverId anEnv) ''n2''"
  let ?m = "aBlob\<lparr>bo_Nodes := mdel ''n2'' (bo_Nodes aBlob)\<rparr>"
  have g: "mlen (mdel ''n2'' (bo_Nodes aBlob)) = 2" by code_simp
  have f: "closure ?f (- 1) [map_of ?d (''/'' @ ''ab'')] = UStore (RJson (marshal_blob ?m))"
    using g by (simp add: remove_cb_def aBlob_decodes noBytes_def Let_def)
  note u = memUpdate_store [of "closure ?f (- 1)" ?d "''/'' @ ''ab''", OF f, of noView 0]
  have r: "removeBlobOwnershipRecord anEnv (memBucket noView) ''ab'' ''n2'' ?d
      = (2, memSet (''/'' @ ''ab'') (RJson (marshal_blob ?m)) ?d)"
    using u g by (simp add: removeBlobOwnershipRecord_def Let_def remove_cb_def aBlob_decodes noBytes_def)
  have k: "unmarshal_blob (map_of (memSet (''/'' @ ''ab'') (RJson (marshal_blob ?m)) ?d) (''/'' @ ''ab'')) = Some ?m"
    using blob_roundtrip_mdel [OF aBlob_decodes, of "''n2''"] by simp
  have "''n2'' \<notin> mkeys (bo_Nodes ?m)"
    using removeRecord_counts_owners [OF memBucket_ok u r] k by simp
  with r k show ?thesis by blast
qed

text \<open>
  the batched read is one read. The batches of \<open>getBlobs\<close> never overrun, cover the object ids in
  order, have at most 8192 keys each, and are as few as possible; every blob in the answer was asked for
  and is the decoded document of the bucket.
\<close>

theorem getBlobs_batches:
  assumes "bucket_ok cb st"
  shows "(\<exists>kss. keysets keysPerBatch oids = Ret kss \<and> concat kss = map ((@) ''/'') oids \<and>
        length kss = (length oids + 8191) div 8192 \<and> (\<forall>ks \<in> set kss. length ks \<le> 8192)) \<and>
     (\<forall>res oid b. getBlobs cb oids d = Ret (None, res) \<longrightarrow> map_of res oid = Some b \<longrightarrow>
        oid \<in> set oids \<and> unmarshal_blob (st d (''/'' @ oid)) = Some b)"
proof -
  obtain kss where k: "keysets keysPerBatch oids = Ret kss" "concat kss = map ((@) ''/'') oids"
    "length kss = (length oids + 8191) div 8192" "\<forall>ks \<in> set kss. length ks \<le> 8192"
    using keysets_batches [of keysPerBatch oids] by (auto simp: keysPerBatch_def)
  have "oid \<in> set oids \<and> unmarshal_blob (st d (''/'' @ oid)) = Some b"
    if r: "getBlobs cb oids d = Ret (None, res)" and m: "map_of res oid = Some b" for res oid b
  proof -
    have "readKeysets cb kss d [] = (None, res)" using r k(1) by (simp add: getBlobs_def)
    from readKeysets_sound [OF bucket_okD(7) [OF assms] this m] k(2) show ?thesis by auto
  qed
  with k show ?thesis by blast
qed

theorem getBlobs_batches_witness:
  "\<exists>kss. keysets keysPerBatch [''ab'', ''cd''] = Ret kss \<and> concat kss = [''/ab'', ''/cd''] \<and> length kss = 1"
  using getBlobs_batches [OF memBucket_ok [of noView], of "[''ab'', ''cd'']" "[]"] by auto

end
