(* ===== verification/Named_Lock.thy ===== *)
theory Named_Lock
  imports Go_Prelude
begin

text \<open>
  Locks by name (\<open>src/namedlock.go\<close>) and the one protocol that uses them, the fetch of a blob from
  another node (\<open>performFetch\<close> of \<open>src/blobs.go\<close>): a worker that cannot get the lock of the blob
  gives up, one that gets it releases it when it is done.

  The struct's mutex makes each operation atomic, so the state is the map alone. \<open>named_lock_spec\<close> is
  the contract of the two operations; the protocol's safety is proved from the contract and then holds
  of the code's \<open>Lock\<close> and \<open>Unlock\<close> by interpretation.
\<close>

section \<open>Operations\<close>

type_synonym namedLock = "(string, bool) gomap"

definition nlGet :: "namedLock \<Rightarrow> string \<Rightarrow> bool" where
  "nlGet l s = (case mget l s of None \<Rightarrow> False | Some b \<Rightarrow> b)"

definition Lock :: "string \<Rightarrow> namedLock \<Rightarrow> bool \<times> namedLock" where
  "Lock s l =
     (let l1 = (if l = None then Some [] else l); held = nlGet l1 s;
          l2 = (if \<not> held then the (mput s True l1) else l1)
      in (\<not> held, l2))"

text \<open>\<open>None\<close> is the panic.\<close>

definition Unlock :: "string \<Rightarrow> namedLock \<Rightarrow> namedLock option" where
  "Unlock s l = (if \<not> nlGet l s then None else Some (mdel s l))"

text \<open>
  Workers of the internode queue at \<open>performFetch\<close>: \<open>FetchBegin w oid\<close> is worker \<open>w\<close> trying the
  lock of \<open>oid\<close>, \<open>FetchEnd w\<close> its deferred \<open>Unlock\<close>. The state is the lock and what each
  worker is fetching; a panic is \<open>None\<close>.
\<close>

datatype fetchEvent = FetchBegin nat string | FetchEnd nat

type_synonym 'l fetchState = "'l \<times> (nat \<times> string) list"

fun fetchStep ::
  "(string \<Rightarrow> 'l \<Rightarrow> bool \<times> 'l) \<Rightarrow> (string \<Rightarrow> 'l \<Rightarrow> 'l option) \<Rightarrow> fetchEvent \<Rightarrow> 'l fetchState
     \<Rightarrow> 'l fetchState option" where
  "fetchStep lock unlock (FetchBegin w oid) (l, running) =
     (if map_of running w \<noteq> None then Some (l, running)
      else case lock oid l of
             (True, l') \<Rightarrow> Some (l', (w, oid) # running)
           | (False, l') \<Rightarrow> Some (l', running))"
| "fetchStep lock unlock (FetchEnd w) (l, running) =
     (case map_of running w of
        None \<Rightarrow> Some (l, running)
      | Some oid \<Rightarrow>
          (case unlock oid l of None \<Rightarrow> None | Some l' \<Rightarrow> Some (l', AList.delete w running)))"

fun fetchRun ::
  "(string \<Rightarrow> 'l \<Rightarrow> bool \<times> 'l) \<Rightarrow> (string \<Rightarrow> 'l \<Rightarrow> 'l option) \<Rightarrow> fetchEvent list \<Rightarrow> 'l fetchState
     \<Rightarrow> 'l fetchState option" where
  "fetchRun lock unlock [] s = Some s"
| "fetchRun lock unlock (e # es) s =
     (case fetchStep lock unlock e s of None \<Rightarrow> None | Some s' \<Rightarrow> fetchRun lock unlock es s')"

section \<open>The contract\<close>

locale named_lock_spec =
  fixes lock :: "string \<Rightarrow> 'l \<Rightarrow> bool \<times> 'l"
    and unlock :: "string \<Rightarrow> 'l \<Rightarrow> 'l option"
    and held :: "'l \<Rightarrow> string \<Rightarrow> bool"
  assumes lock_result: "fst (lock s l) \<longleftrightarrow> \<not> held l s"
    and lock_held: "held (snd (lock s l)) t \<longleftrightarrow> t = s \<or> held l t"
    and unlock_held: "held l s \<Longrightarrow> \<exists>l'. unlock s l = Some l' \<and> (\<forall>t. held l' t \<longleftrightarrow> t \<noteq> s \<and> held l t)"
    and unlock_panic: "\<not> held l s \<Longrightarrow> unlock s l = None"
begin

text \<open>
  What holds of every state: workers and blobs in progress are distinct, and the locks held are exactly
  those of the blobs in progress.
\<close>

definition fetchInv :: "'l fetchState \<Rightarrow> bool" where
  "fetchInv s \<longleftrightarrow> distinct (map fst (snd s)) \<and> distinct (map snd (snd s)) \<and>
     (\<forall>t. held (fst s) t \<longleftrightarrow> t \<in> snd ` set (snd s))"

lemma begin_inv:
  assumes "fetchInv (l, running)"
  shows "\<exists>s'. fetchStep lock unlock (FetchBegin w oid) (l, running) = Some s' \<and> fetchInv s'"
proof (cases "map_of running w = None")
  case True
  obtain b l' where l: "lock oid l = (b, l')" by fastforce
  have b: "b \<longleftrightarrow> oid \<notin> snd ` set running"
    using lock_result [of oid l] assms l by (simp add: fetchInv_def)
  have h: "held l' t \<longleftrightarrow> t = oid \<or> t \<in> snd ` set running" for t
    using lock_held [of oid l t] assms l by (simp add: fetchInv_def)
  have "w \<notin> fst ` set running" using True by (simp add: map_of_eq_None_iff)
  with True l b h assms show ?thesis
    by (cases b) (auto simp: fetchInv_def)
qed (use assms in auto)

lemma end_inv:
  assumes "fetchInv (l, running)"
  shows "\<exists>s'. fetchStep lock unlock (FetchEnd w) (l, running) = Some s' \<and> fetchInv s'"
proof (cases "map_of running w")
  case (Some oid)
  have d: "distinct (map fst running)" "distinct (map snd running)"
    and h: "\<And>t. held l t \<longleftrightarrow> t \<in> snd ` set running"
    using assms by (auto simp: fetchInv_def)
  have m: "(w, oid) \<in> set running" using Some by (rule map_of_SomeD)
  then obtain l' where l': "unlock oid l = Some l'" "\<And>t. held l' t \<longleftrightarrow> t \<noteq> oid \<and> held l t"
    using unlock_held [of l oid] h by force
  have del: "AList.delete w running = filter (\<lambda>p. fst p \<noteq> w) running"
    by (auto simp: AList.delete_eq intro!: filter_cong)
  have "t \<in> snd ` set (filter (\<lambda>p. fst p \<noteq> w) running) \<longleftrightarrow> t \<noteq> oid \<and> t \<in> snd ` set running" for t
  proof -
    have a: "(a, oid) \<in> set running \<Longrightarrow> a = w" for a
      using d(2) m by (auto simp: distinct_map dest: inj_onD [of snd _ "(a, oid)" "(w, oid)"])
    have b: "(w, u) \<in> set running \<Longrightarrow> u = oid" for u
      using d(1) m by (auto simp: distinct_map dest: inj_onD [of fst _ "(w, u)" "(w, oid)"])
    show ?thesis
    proof
      assume "t \<in> snd ` set (filter (\<lambda>p. fst p \<noteq> w) running)"
      then obtain x where "(x, t) \<in> set running" "x \<noteq> w" by auto
      then show "t \<noteq> oid \<and> t \<in> snd ` set running"
        using a [of x] by (auto intro: image_eqI [of _ _ "(x, t)"])
    next
      assume t: "t \<noteq> oid \<and> t \<in> snd ` set running"
      then obtain x where x: "(x, t) \<in> set running" by auto
      with t b [of t] have "x \<noteq> w" by auto
      with x show "t \<in> snd ` set (filter (\<lambda>p. fst p \<noteq> w) running)"
        by (intro image_eqI [of _ _ "(x, t)"]) auto
    qed
  qed
  with d l' h Some del show ?thesis
    by (auto simp: fetchInv_def distinct_map inj_on_def)
qed (use assms in auto)

lemma step_inv: "fetchInv s \<Longrightarrow> \<exists>s'. fetchStep lock unlock e s = Some s' \<and> fetchInv s'"
  using begin_inv end_inv by (cases e; cases s) auto

lemma run_inv: "fetchInv s \<Longrightarrow> \<exists>s'. fetchRun lock unlock es s = Some s' \<and> fetchInv s'"
proof (induction es arbitrary: s)
  case (Cons e es)
  obtain s' where "fetchStep lock unlock e s = Some s'" "fetchInv s'"
    using step_inv [OF Cons.prems] by blast
  then show ?case using Cons.IH [of s'] by simp
qed simp

end

section \<open>The code's locks\<close>

interpretation nl: named_lock_spec Lock Unlock nlGet
proof unfold_locales
  fix s t :: string and l :: namedLock
  show "fst (Lock s l) \<longleftrightarrow> \<not> nlGet l s"
    by (cases l) (simp_all add: Lock_def Let_def nlGet_def mget_def)
  show "nlGet (snd (Lock s l)) t \<longleftrightarrow> t = s \<or> nlGet l t"
    by (cases l) (auto simp: Lock_def Let_def nlGet_def mput_def mget_def update_conv')
  show "\<exists>l'. Unlock s l = Some l' \<and> (\<forall>t. nlGet l' t \<longleftrightarrow> t \<noteq> s \<and> nlGet l t)" if "nlGet l s"
    using that by (simp add: Unlock_def nlGet_def mget_mdel)
  show "Unlock s l = None" if "\<not> nlGet l s"
    using that by (simp add: Unlock_def)
qed

section \<open>Properties\<close>

text \<open>
  C31: whatever the interleaving of the workers, no release panics, and no two workers fetch the same
  blob at the same time.
\<close>

theorem fetch_mutual_exclusion:
  "\<exists>l running. fetchRun Lock Unlock events (None, []) = Some (l, running) \<and> distinct (map snd running) \<and>
     (\<forall>oid. nlGet l oid \<longleftrightarrow> (\<exists>w. (w, oid) \<in> set running))"
proof -
  have "nl.fetchInv (None, [])" by (simp add: nl.fetchInv_def nlGet_def)
  from nl.run_inv [OF this] show ?thesis by (force simp: nl.fetchInv_def)
qed

end
