(* ===== verification/Replication.thy ===== *)
theory Replication
  imports Blobs Named_Lock
begin

text \<open>
  Moving and dropping copies: the second half of \<open>src/blobs.go\<close>, the object operations of
  \<open>src/files.go\<close>, the remote operations of \<open>src/nodes.go\<close> and the remote read of \<open>src/http.go\<close>.

  The state of a node is the record \<open>world\<close>: the bucket, the local file system, the tasks sent to the
  internode queue, the fetch locks and the space accounting. Other nodes are reached over HTTP; what
  they answer is a parameter (\<open>http\<close> for a request without a body of interest, \<open>remote\<close> for reading a
  blob). Random numbers, temporary file names and clock readings are arguments.

  Lemmas: who can be a candidate; how many tasks the replication and pruning loops send and to whom; when
  an object leaves the disk; that a blob read from another node is stored only under its own hash.
\<close>

section \<open>State and queue\<close>

datatype internodeCommand = RemoveObjectCmd | AcquireObjectCmd | FetchObjectCmd

record internodeTask =
  it_node :: storageNode
  it_cmd :: internodeCommand
  it_oid :: string
  it_prevNode :: string

record 'db world =
  w_db :: 'db
  w_fs :: fs
  w_q :: "internodeTask list"
  w_locks :: namedLock
  w_spaceUsed :: int

definition removalTask :: "storageNode \<Rightarrow> string \<Rightarrow> internodeTask" where
  "removalTask n oid = \<lparr>it_node = n, it_cmd = RemoveObjectCmd, it_oid = oid, it_prevNode = []\<rparr>"

definition acquireTask :: "storageNode \<Rightarrow> string \<Rightarrow> string \<Rightarrow> internodeTask" where
  "acquireTask n oid prev = \<lparr>it_node = n, it_cmd = AcquireObjectCmd, it_oid = oid, it_prevNode = prev\<rparr>"

definition fetchTask :: "string \<Rightarrow> string \<Rightarrow> internodeTask" where
  "fetchTask oid prev =
     \<lparr>it_node = storageNode_zero, it_cmd = FetchObjectCmd, it_oid = oid, it_prevNode = prev\<rparr>"

definition queueBlobRemoval :: "storageNode \<Rightarrow> string \<Rightarrow> internodeTask list \<Rightarrow> internodeTask list" where
  "queueBlobRemoval n oid q = q @ [removalTask n oid]"

definition queueBlobAcquire ::
  "storageNode \<Rightarrow> string \<Rightarrow> string \<Rightarrow> internodeTask list \<Rightarrow> internodeTask list" where
  "queueBlobAcquire n oid prev q = q @ [acquireTask n oid prev]"

definition maybeQueueBlobAcquire ::
  "(internodeTask list \<Rightarrow> bool) \<Rightarrow> storageNode \<Rightarrow> string \<Rightarrow> string \<Rightarrow> internodeTask list
     \<Rightarrow> bool \<times> internodeTask list" where
  "maybeQueueBlobAcquire room n oid prev q =
     (if room q then (True, q @ [acquireTask n oid prev]) else (False, q))"

definition maybeQueueBlobFetch ::
  "(internodeTask list \<Rightarrow> bool) \<Rightarrow> string \<Rightarrow> string \<Rightarrow> internodeTask list \<Rightarrow> bool \<times> internodeTask list" where
  "maybeQueueBlobFetch room oid prev q =
     (if room q then (True, q @ [fetchTask oid prev]) else (False, q))"

section \<open>Adding copies\<close>

text \<open>The argument \<open>exclude\<close> is not used by the code.\<close>

definition candidatesFor ::
  "env \<Rightarrow> 'db bucket \<Rightarrow> string \<Rightarrow> nodeList \<Rightarrow> nodeList \<Rightarrow> 'db \<Rightarrow> nodeList go" where
  "candidatesFor e cb oid exclude nl d =
     (case getBlobOwnership cb oid d of
        Inl _ \<Rightarrow> Ret nl
      | Inr ownership \<Rightarrow>
          (case ResolveNodes e cb ownership d of
             Panic \<Rightarrow> Panic
           | Ret owners \<Rightarrow> Ret (withAtLeast (bo_Length ownership) (nlMinus owners nl))))"

definition goSlice :: "int \<Rightarrow> 'a list \<Rightarrow> 'a list go" where
  "goSlice n xs = (if n < 0 then Panic else Ret (take (nat n) xs))"

text \<open>\<open>onto[:by]\<close> panics when \<open>by\<close> is negative.\<close>

definition increaseReplicaCount ::
  "env \<Rightarrow> 'db bucket \<Rightarrow> string \<Rightarrow> int \<Rightarrow> int \<Rightarrow> 'db \<Rightarrow> internodeTask list
     \<Rightarrow> (gerr option \<times> internodeTask list) go" where
  "increaseReplicaCount e cb oid len by d q =
     (case findAllNodes e cb d of
        Inl er \<Rightarrow> Ret (Some er, q)
      | Inr nl \<Rightarrow>
          (case candidatesFor e cb oid [] nl d of
             Panic \<Rightarrow> Panic
           | Ret onto0 \<Rightarrow>
               (case (if int (length onto0) > by then goSlice by onto0 else Ret onto0) of
                  Panic \<Rightarrow> Panic
                | Ret onto \<Rightarrow> Ret (None, fold (\<lambda>n. queueBlobAcquire n oid []) onto q))))"

fun salvageLoop ::
  "(internodeTask list \<Rightarrow> bool) \<Rightarrow> string \<Rightarrow> string \<Rightarrow> nodeList \<Rightarrow> int \<Rightarrow> bool \<Rightarrow> internodeTask list
     \<Rightarrow> bool \<times> internodeTask list" where
  "salvageLoop room oid deadNode [] todo rv q = (rv, q)"
| "salvageLoop room oid deadNode (n # ns) todo rv q =
     (let (worked, q') = maybeQueueBlobAcquire room n oid deadNode q;
          rv' = (rv \<and> worked); todo' = i64 (todo - 1) in
      if todo' = 0 then (rv', q') else salvageLoop room oid deadNode ns todo' rv' q')"

definition salvageBlob ::
  "env \<Rightarrow> 'db bucket \<Rightarrow> (internodeTask list \<Rightarrow> bool) \<Rightarrow> string \<Rightarrow> string \<Rightarrow> int \<Rightarrow> nodeList \<Rightarrow> 'db
     \<Rightarrow> internodeTask list \<Rightarrow> (bool \<times> internodeTask list) go" where
  "salvageBlob e cb room oid deadNode todo nl d q =
     (case candidatesFor e cb oid [named deadNode nl] nl d of
        Panic \<Rightarrow> Panic
      | Ret candidates \<Rightarrow>
          Ret (if candidates = [] then (True, q) else salvageLoop room oid deadNode candidates todo True q))"

fun ensureLoop ::
  "env \<Rightarrow> 'db bucket \<Rightarrow> (internodeTask list \<Rightarrow> bool) \<Rightarrow> (int \<times> string) list \<Rightarrow> nodeList \<Rightarrow> 'db
     \<Rightarrow> internodeTask list \<Rightarrow> internodeTask list go" where
  "ensureLoop e cb room [] nl d q = Ret q"
| "ensureLoop e cb room ((key, ident) # rs) nl d q =
     (case salvageBlob e cb room (tl ident) [] (i64 (cf_MinReplicas (e_conf e) - key)) nl d q of
        Panic \<Rightarrow> Panic
      | Ret (True, q') \<Rightarrow> ensureLoop e cb room rs nl d q'
      | Ret (False, q') \<Rightarrow> Ret q')"

fun countRows :: "vrow list \<Rightarrow> (int \<times> string) list option" where
  "countRows [] = Some []"
| "countRows (r # rs) =
     (case vr_key r of
        JNum k \<Rightarrow> if i64_range k then map_option ((#) (k, vr_id r)) (countRows rs) else None
      | _ \<Rightarrow> None)"

definition ensureMinimumReplicaCount ::
  "env \<Rightarrow> 'db bucket \<Rightarrow> (internodeTask list \<Rightarrow> bool) \<Rightarrow> 'db \<Rightarrow> internodeTask list
     \<Rightarrow> (gerr option \<times> internodeTask list) go" where
  "ensureMinimumReplicaCount e cb room d q =
     (case findAllNodes e cb d of
        Inl er \<Rightarrow> Ret (Some er, q)
      | Inr nl \<Rightarrow>
          (let minr = cf_MinReplicas (e_conf e);
               endKey = (if minr > int (length nl) then int (length nl) - 1 else i64 (minr - 1)) in
           if endKey < 1 then Ret (Some (EMsg ''Not enough nodes to increase repl count.''), q)
           else
             (case cbView cb ''repcounts''
                     [(''reduce'', JBool False), (''limit'', JNum (cf_ReplicationCheckLimit (e_conf e))),
                      (''startkey'', JNum 1), (''endkey'', JNum endKey), (''stale'', JBool False)] d of
                Inl er \<Rightarrow> Ret (Some er, q)
              | Inr res \<Rightarrow>
                  (case countRows (vRows res) of
                     None \<Rightarrow> Ret (Some EJson, q)
                   | Some rows \<Rightarrow>
                       (case ensureLoop e cb room rows nl d q of
                          Panic \<Rightarrow> Panic | Ret q' \<Rightarrow> Ret (None, q'))))))"

section \<open>Dropping copies\<close>

text \<open>The nodes of \<open>nodemap\<close> in the order they are visited; of nodes with equal names the last counts.\<close>

fun pruneLoop ::
  "int \<Rightarrow> (string \<Rightarrow> storageNode option) \<Rightarrow> string \<Rightarrow> string list \<Rightarrow> int \<Rightarrow> internodeTask list
     \<Rightarrow> internodeTask list" where
  "pruneLoop maxReplicas nm oid [] remaining q = q"
| "pruneLoop maxReplicas nm oid (n # ns) remaining q =
     (if remaining \<le> maxReplicas then q
      else pruneLoop maxReplicas nm oid ns (remaining - 1)
             (case nm n of Some sn \<Rightarrow> queueBlobRemoval sn oid q | None \<Rightarrow> q))"

definition pruneBlob ::
  "env \<Rightarrow> string \<Rightarrow> string list \<Rightarrow> nodeList \<Rightarrow> internodeTask list \<Rightarrow> internodeTask list" where
  "pruneBlob e oid nodemap nl q =
     pruneLoop (cf_MaxReplicas (e_conf e)) (map_of (map (\<lambda>n. (sn_name n, n)) (rev nl))) oid nodemap
       (int (length nodemap)) q"

text \<open>
  The rows of \<open>repcounts\<close> with their documents: the decoded \<open>nodes\<close> member as its keys. Its values
  are timestamps, decoded into strings; a value that is neither a string nor null is an error.
\<close>

fun strOrNull :: "json \<Rightarrow> unit option" where
  "strOrNull (JStr _) = Some ()"
| "strOrNull (JTime _) = Some ()"
| "strOrNull _ = None"

definition docNodes :: "json \<Rightarrow> string list option" where
  "docNodes doc =
     (case doc of
        JObj ms \<Rightarrow> map_option (\<lambda>m. map fst (mrange m)) (fld ''nodes'' (decMap strOrNull ()) None ms)
      | JNull \<Rightarrow> Some []
      | _ \<Rightarrow> None)"

fun nodeRows :: "vrow list \<Rightarrow> (string \<times> string list) list option" where
  "nodeRows [] = Some []"
| "nodeRows (r # rs) =
     (case docNodes (vr_doc r) of
        None \<Rightarrow> None
      | Some ns \<Rightarrow> map_option ((#) (vr_id r, ns)) (nodeRows rs))"

definition pruneExcessiveReplicas ::
  "env \<Rightarrow> 'db bucket \<Rightarrow> 'db \<Rightarrow> internodeTask list \<Rightarrow> gerr option \<times> internodeTask list" where
  "pruneExcessiveReplicas e cb d q =
     (case findAllNodes e cb d of
        Inl er \<Rightarrow> (Some er, q)
      | Inr nl \<Rightarrow>
          (case cbView cb ''repcounts''
                  [(''descending'', JBool True), (''reduce'', JBool False), (''include_docs'', JBool True),
                   (''limit'', JNum (cf_ReplicationCheckLimit (e_conf e))),
                   (''endkey'', JNum (i64 (cf_MaxReplicas (e_conf e) + 1))), (''stale'', JBool False)] d of
             Inl er \<Rightarrow> (Some er, q)
           | Inr res \<Rightarrow>
               (case nodeRows (vRows res) of
                  None \<Rightarrow> (Some EJson, q)
                | Some rows \<Rightarrow> (None, fold (\<lambda>(ident, ns). pruneBlob e (tl ident) ns nl) rows q))))"

definition removeObject ::
  "env \<Rightarrow> 'db bucket \<Rightarrow> (nat \<Rightarrow> time) \<Rightarrow> string \<Rightarrow> 'db world \<Rightarrow> (gerr option \<times> 'db world) go" where
  "removeObject e cb clk h w =
     (case maybeRemoveBlobOwnership e cb clk h (w_db w) of
        (Some er, d') \<Rightarrow> Ret (Some er, w\<lparr>w_db := d'\<rparr>)
      | (None, d') \<Rightarrow>
          (case hashFilename (e_root e) h of
             Panic \<Rightarrow> Panic
           | Ret p \<Rightarrow> (let (er, f') = osRemove p (w_fs w) in Ret (er, w\<lparr>w_db := d', w_fs := f'\<rparr>))))"

definition forceRemoveObject ::
  "env \<Rightarrow> 'db bucket \<Rightarrow> string \<Rightarrow> 'db world \<Rightarrow> (gerr option \<times> 'db world) go" where
  "forceRemoveObject e cb h w =
     (let (_, d') = removeBlobOwnershipRecord e cb h (e_serverId e) (w_db w) in
      case hashFilename (e_root e) h of
        Panic \<Rightarrow> Panic
      | Ret p \<Rightarrow> (let (er, f') = osRemove p (w_fs w) in Ret (er, w\<lparr>w_db := d', w_fs := f'\<rparr>)))"

section \<open>Verifying local copies\<close>

definition verifyObjectHash ::
  "(string \<Rightarrow> string \<Rightarrow> string) \<Rightarrow> env \<Rightarrow> 'db bucket \<Rightarrow> string \<Rightarrow> 'db world
     \<Rightarrow> (gerr option \<times> 'db world) go" where
  "verifyObjectHash sm e cb h w =
     (case openLocalBlob e h (w_fs w) of
        Panic \<Rightarrow> Panic
      | Ret (Inl er) \<Rightarrow> Ret (Some er, w)
      | Ret (Inr c) \<Rightarrow>
          (case getHash sm e of
             None \<Rightarrow> Panic
           | Some s \<Rightarrow>
               (if h \<noteq> hexEncode (s c) then
                  (case forceRemoveObject e cb h w of
                     Panic \<Rightarrow> Panic
                   | Ret (_, w') \<Rightarrow> Ret (Some (EMsg ''Hash from disk''), w'))
                else Ret (None, w))))"

definition shouldVerifyObject :: "env \<Rightarrow> 'db bucket \<Rightarrow> time \<Rightarrow> string \<Rightarrow> 'db \<Rightarrow> bool" where
  "shouldVerifyObject e cb now h d =
     (case getBlobOwnership cb h d of
        Inl _ \<Rightarrow> True
      | Inr b \<Rightarrow>
          (case mget (bo_Nodes b) (e_serverId e) of None \<Rightarrow> 0 | Some t \<Rightarrow> t) + cf_ReconcileAge (e_conf e) < now)"

text \<open>
  One file of \<open>verifyWorker\<close>. The results of recording and of salvaging are ignored; a panic is not.
  \<open>clk 0\<close> is the time of the check, the later readings those of the record.
\<close>

definition verifyOne ::
  "(string \<Rightarrow> string \<Rightarrow> string) \<Rightarrow> env \<Rightarrow> 'db bucket \<Rightarrow> (internodeTask list \<Rightarrow> bool) \<Rightarrow> (nat \<Rightarrow> time) \<Rightarrow> nodeList
     \<Rightarrow> string \<times> int \<Rightarrow> 'db world \<Rightarrow> 'db world go" where
  "verifyOne sm e cb room clk nl info w =
     (case info of (name, sz) \<Rightarrow>
      (let force = shouldVerifyObject e cb (clk 0) name (w_db w) in
       case (if force then verifyObjectHash sm e cb name w else Ret (None, w)) of
         Panic \<Rightarrow> Panic
       | Ret (None, w1) \<Rightarrow>
           (case recordBlobOwnership e cb (\<lambda>n. clk (Suc n)) name sz force (w_db w1) of
              (Panic, _) \<Rightarrow> Panic
            | (Ret _, d') \<Rightarrow> Ret (w1\<lparr>w_db := d'\<rparr>))
       | Ret (Some _, w1) \<Rightarrow>
           (let (_, d') = removeBlobOwnershipRecord e cb name (e_serverId e) (w_db w1); w2 = w1\<lparr>w_db := d'\<rparr> in
            if nl = [] then Ret w2
            else (case salvageBlob e cb room name [] 1 nl d' (w_q w2) of
                    Panic \<Rightarrow> Panic
                  | Ret (_, q') \<Rightarrow> Ret (w2\<lparr>w_q := q'\<rparr>)))))"

fun verifyAll ::
  "(string \<Rightarrow> string \<Rightarrow> string) \<Rightarrow> env \<Rightarrow> 'db bucket \<Rightarrow> (internodeTask list \<Rightarrow> bool) \<Rightarrow> (string \<Rightarrow> nat \<Rightarrow> time)
     \<Rightarrow> nodeList \<Rightarrow> (string \<times> int) list \<Rightarrow> 'db world \<Rightarrow> 'db world go" where
  "verifyAll sm e cb room clk nl [] w = Ret w"
| "verifyAll sm e cb room clk nl (i # is) w =
     (case verifyOne sm e cb room (clk (fst i)) nl i w of
        Panic \<Rightarrow> Panic
      | Ret w' \<Rightarrow> verifyAll sm e cb room clk nl is w')"

definition verifyWorker ::
  "(string \<Rightarrow> string \<Rightarrow> string) \<Rightarrow> env \<Rightarrow> 'db bucket \<Rightarrow> (internodeTask list \<Rightarrow> bool) \<Rightarrow> (string \<Rightarrow> nat \<Rightarrow> time)
     \<Rightarrow> (string \<times> int) list \<Rightarrow> 'db world \<Rightarrow> 'db world go" where
  "verifyWorker sm e cb room clk infos w =
     verifyAll sm e cb room clk (case findAllNodes e cb (w_db w) of Inl _ \<Rightarrow> [] | Inr nl \<Rightarrow> nl) infos w"

fun quickVerifyWorker ::
  "env \<Rightarrow> 'db bucket \<Rightarrow> (string \<Rightarrow> nat \<Rightarrow> time) \<Rightarrow> (string \<times> int) list \<Rightarrow> 'db world \<Rightarrow> 'db world go" where
  "quickVerifyWorker e cb clk [] w = Ret w"
| "quickVerifyWorker e cb clk ((name, sz) # is) w =
     (case recordBlobOwnership e cb (clk name) name sz False (w_db w) of
        (Panic, _) \<Rightarrow> Panic
      | (Ret _, d') \<Rightarrow> quickVerifyWorker e cb clk is (w\<lparr>w_db := d'\<rparr>))"

text \<open>
  The walk over the storage root, as the entries it visits: a name, a size, whether it is a directory,
  or an error, which ends it. \<open>hashSize\<close> is the digest size of the configured hash.
\<close>

datatype walkEntry = WalkFile string int | WalkDir string | WalkErr gerr

fun walkInfos :: "nat \<Rightarrow> walkEntry list \<Rightarrow> (string \<times> int) list \<times> gerr option" where
  "walkInfos explen [] = ([], None)"
| "walkInfos explen (WalkErr er # es) = ([], Some er)"
| "walkInfos explen (WalkDir _ # es) = walkInfos explen es"
| "walkInfos explen (WalkFile name sz # es) =
     (let (is, er) = walkInfos explen es in
      (if \<not> hasPrefix name ''tmp'' \<and> length name = explen then (name, sz) # is else is, er))"

definition hashSize :: "env \<Rightarrow> nat option" where
  "hashSize e = map_of [(''md5'', 16), (''sha1'', 20), (''sha224'', 28), (''sha256'', 32), (''sha384'', 48),
     (''sha512'', 64)] (cf_Hash (e_conf e))"

definition reconcileWith ::
  "env \<Rightarrow> ((string \<times> int) list \<Rightarrow> 'db world \<Rightarrow> 'db world go) \<Rightarrow> walkEntry list \<Rightarrow> 'db world
     \<Rightarrow> (gerr option \<times> 'db world) go" where
  "reconcileWith e wk entries w =
     (case hashSize e of
        None \<Rightarrow> Panic
      | Some n \<Rightarrow>
          (let (infos, er) = walkInfos (n * 2) entries in
           case wk infos w of Panic \<Rightarrow> Panic | Ret w' \<Rightarrow> Ret (er, w')))"

section \<open>Reading a blob from another node\<close>

text \<open>
  What a node answers to a read of a blob: no answer, or a status, the bytes of the body and the error
  reading it ended with.
\<close>

type_synonym remoteRead = "storageNode \<Rightarrow> string \<Rightarrow> gerr + (int \<times> string \<times> gerr option)"

fun firstCopy :: "remoteRead \<Rightarrow> string \<Rightarrow> nodeList \<Rightarrow> (string \<times> gerr option) option" where
  "firstCopy remote oid [] = None"
| "firstCopy remote oid (sid # nl) =
     (case remote sid oid of
        Inl _ \<Rightarrow> firstCopy remote oid nl
      | Inr (status, body, re) \<Rightarrow> if status \<noteq> 200 then firstCopy remote oid nl else Some (body, re))"

definition shouldCache :: "env \<Rightarrow> gerr + int \<Rightarrow> int \<Rightarrow> int \<Rightarrow> int \<Rightarrow> int \<Rightarrow> bool" where
  "shouldCache e fsFree spaceUsed rnd cachePerc l \<longleftrightarrow>
     cachePerc = 100 \<or> (cachePerc > rnd \<and> availableSpace e fsFree spaceUsed > l)"

text \<open>
  Reading to the end through the tee into a hash record, and closing it: \<open>Finish\<close>, and on success the
  record of the ownership. The error of the close is dropped by the caller's \<open>defer\<close>. A failure to
  create the temporary file is ignored by the code, so the first write to the nil record panics.
\<close>

definition cacheBody ::
  "(string \<Rightarrow> string \<Rightarrow> string) \<Rightarrow> env \<Rightarrow> 'db bucket \<Rightarrow> (nat \<Rightarrow> time) \<Rightarrow> gerr + string \<Rightarrow> (gerr \<times> nat) option
     \<Rightarrow> string \<Rightarrow> int \<Rightarrow> string \<Rightarrow> gerr option \<Rightarrow> 'db world \<Rightarrow> (gerr option \<times> 'db world) go" where
  "cacheBody sm e cb clk tmp wfail oid l body re w =
     (case NewHashRecord sm e tmp oid (w_fs w) of
        (Inl _, _) \<Rightarrow> Panic
      | (Inr h, f0) \<Rightarrow>
          (case hrCopy [(body, wfail)] re 0 h f0 of
             Panic \<Rightarrow> Panic
           | Ret (er, n, h1, f1) \<Rightarrow>
               (case hrFinish None h1 f1 of
                  Panic \<Rightarrow> Panic
                | Ret (Inl _, h2, f2) \<Rightarrow> Ret (er, w\<lparr>w_fs := f2\<rparr>)
                | Ret (Inr _, h2, f2) \<Rightarrow>
                    (case recordBlobOwnership e cb clk oid l True (w_db w) of
                       (Panic, _) \<Rightarrow> Panic
                     | (Ret _, d') \<Rightarrow> Ret (er, w\<lparr>w_fs := f2, w_db := d'\<rparr>)))))"

record 'db fetchEnv =
  fe_remote :: remoteRead
  fe_clk :: "nat \<Rightarrow> time"
  fe_tmp :: "gerr + string"
  fe_wfail :: "(gerr \<times> nat) option"
  fe_fsFree :: "gerr + int"
  fe_rnd :: int

text \<open>\<open>getBlobFromRemote\<close>: the error it returns, the status and bytes written to the response.\<close>

definition getBlobFromRemote ::
  "(string \<Rightarrow> string \<Rightarrow> string) \<Rightarrow> env \<Rightarrow> 'db bucket \<Rightarrow> 'db fetchEnv \<Rightarrow> string \<Rightarrow> int \<Rightarrow> 'db world
     \<Rightarrow> (gerr option \<times> int \<times> string \<times> 'db world) go" where
  "getBlobFromRemote sm e cb fe oid cachePerc w =
     (case getBlobOwnership cb oid (w_db w) of
        Inl er \<Rightarrow> Ret (Some er, 404, ''Can't find info for blob '' @ oid @ [CHR 0x0A], w)
      | Inr ownership \<Rightarrow>
          (case ResolveNodes e cb ownership (w_db w) of
             Panic \<Rightarrow> Panic
           | Ret nl \<Rightarrow>
               (case firstCopy (fe_remote fe) oid nl of
                  None \<Rightarrow> Ret (Some (EMsg ''couldn't get ob from any of''), 0, [], w)
                | Some (body, re) \<Rightarrow>
                    (if \<not> shouldCache e (fe_fsFree fe) (w_spaceUsed w) (fe_rnd fe) cachePerc (bo_Length ownership)
                     then Ret (re, 200, body, w)
                     else (case cacheBody sm e cb (fe_clk fe) (fe_tmp fe) (fe_wfail fe) oid (bo_Length ownership) body re w of
                             Panic \<Rightarrow> Panic
                           | Ret (er, w') \<Rightarrow> Ret (er, 200, body, w'))))))"

section \<open>The queue workers\<close>

text \<open>Another node's answer to a request: no answer, or a status.\<close>

type_synonym remoteCall = "string \<Rightarrow> string \<Rightarrow> gerr + int"

definition acquireBlob ::
  "env \<Rightarrow> (internodeTask list \<Rightarrow> bool) \<Rightarrow> remoteCall \<Rightarrow> storageNode \<Rightarrow> string \<Rightarrow> string \<Rightarrow> 'db world
     \<Rightarrow> gerr option \<times> 'db world" where
  "acquireBlob e room http n oid prevNode w =
     (if IsLocal e n then
        (let (ok, q') = maybeQueueBlobFetch room oid prevNode (w_q w) in
         (if \<not> ok then Some ENotQueued else None, w\<lparr>w_q := q'\<rparr>))
      else (case http ''GET'' (fetchURL oid n) of
              Inl er \<Rightarrow> (Some er, w)
            | Inr status \<Rightarrow> (if status \<noteq> 202 then Some (EMsg ''Error executing remote fetch'') else None, w)))"

definition deleteBlob ::
  "env \<Rightarrow> 'db bucket \<Rightarrow> (nat \<Rightarrow> time) \<Rightarrow> remoteCall \<Rightarrow> storageNode \<Rightarrow> string \<Rightarrow> 'db world
     \<Rightarrow> (gerr option \<times> 'db world) go" where
  "deleteBlob e cb clk http n oid w =
     (if IsLocal e n then removeObject e cb clk oid w
      else Ret (case http ''DELETE'' (BlobURL oid n) of
                  Inl er \<Rightarrow> (Some er, w)
                | Inr status \<Rightarrow>
                    (if status \<noteq> 204 \<and> status \<noteq> 404 then Some (EMsg ''Unexpected status'') else None, w)))"

definition performFetch ::
  "(string \<Rightarrow> string \<Rightarrow> string) \<Rightarrow> env \<Rightarrow> 'db bucket \<Rightarrow> 'db fetchEnv \<Rightarrow> string \<Rightarrow> string \<Rightarrow> 'db world
     \<Rightarrow> 'db world go" where
  "performFetch sm e cb fe oid prev w =
     (case hashFilename (e_root e) oid of
        Panic \<Rightarrow> Panic
      | Ret p \<Rightarrow>
          (case fs_files (w_fs w) p of
             Some c \<Rightarrow>
               (case recordBlobOwnership e cb (fe_clk fe) oid (int (length c)) False (w_db w) of
                  (Panic, _) \<Rightarrow> Panic
                | (Ret _, d') \<Rightarrow> Ret (w\<lparr>w_db := d'\<rparr>))
           | None \<Rightarrow>
               (case Lock oid (w_locks w) of
                  (False, l') \<Rightarrow> Ret (w\<lparr>w_locks := l'\<rparr>)
                | (True, l') \<Rightarrow>
                    (case getBlobFromRemote sm e cb fe oid 100 (w\<lparr>w_locks := l'\<rparr>) of
                       Panic \<Rightarrow> Panic
                     | Ret (er, status, _, w1) \<Rightarrow>
                         (let w2 = (if er = None \<and> status = 200 \<and> prev \<noteq> [] then
                                      (case findNode cb prev (w_db w1) of
                                         Inl _ \<Rightarrow> w1\<lparr>w_db := snd (removeBlobOwnershipRecord e cb oid prev (w_db w1))\<rparr>
                                       | Inr n \<Rightarrow> w1\<lparr>w_q := queueBlobRemoval n oid (w_q w1)\<rparr>)
                                    else w1)
                          in case Unlock oid (w_locks w2) of
                               None \<Rightarrow> Panic
                             | Some l2 \<Rightarrow> Ret (w2\<lparr>w_locks := l2\<rparr>))))))"

text \<open>One task taken from the queue by \<open>internodeTaskWorker\<close>.\<close>

definition runTask ::
  "(string \<Rightarrow> string \<Rightarrow> string) \<Rightarrow> env \<Rightarrow> 'db bucket \<Rightarrow> (internodeTask list \<Rightarrow> bool) \<Rightarrow> remoteCall \<Rightarrow> 'db fetchEnv
     \<Rightarrow> time \<Rightarrow> internodeTask \<Rightarrow> 'db world \<Rightarrow> 'db world go" where
  "runTask sm e cb room http fe now c w =
     (case it_cmd c of
        RemoveObjectCmd \<Rightarrow>
          (case deleteBlob e cb (fe_clk fe) http (it_node c) (it_oid c) w of
             Panic \<Rightarrow> Panic
           | Ret (None, w') \<Rightarrow> Ret w'
           | Ret (Some _, w') \<Rightarrow>
               (if IsDead e cb now (it_node c) (w_db w') then
                  Ret (w'\<lparr>w_db := snd (removeBlobOwnershipRecord e cb (it_oid c) (sn_name (it_node c)) (w_db w'))\<rparr>)
                else Ret w'))
      | AcquireObjectCmd \<Rightarrow> Ret (snd (acquireBlob e room http (it_node c) (it_oid c) (it_prevNode c) w))
      | FetchObjectCmd \<Rightarrow> performFetch sm e cb fe (it_oid c) (it_prevNode c) w)"

section \<open>Opening a blob\<close>

datatype openRes = OpenLocal string | OpenErr gerr | OpenNotLocal "string list" | OpenRemote string "gerr option"

text \<open>\<open>openBlob\<close>; reading and closing a remote copy that is cached is \<open>cacheBody\<close>.\<close>

definition openBlob ::
  "env \<Rightarrow> 'db bucket \<Rightarrow> remoteRead \<Rightarrow> string \<Rightarrow> bool \<Rightarrow> 'db world \<Rightarrow> openRes go" where
  "openBlob e cb remote oid localOnly w =
     (case openLocalBlob e oid (w_fs w) of
        Panic \<Rightarrow> Panic
      | Ret (Inr c) \<Rightarrow> Ret (OpenLocal c)
      | Ret (Inl _) \<Rightarrow>
          (case getBlobOwnership cb oid (w_db w) of
             Inl er \<Rightarrow> Ret (OpenErr er)
           | Inr bo \<Rightarrow>
               (case ResolveNodes e cb bo (w_db w) of
                  Panic \<Rightarrow> Panic
                | Ret nl \<Rightarrow>
                    (if nl = [] then Ret (OpenErr (EMsg ''no copies found''))
                     else if localOnly then Ret (OpenNotLocal (BlobURLs oid nl))
                     else (case firstCopy remote oid nl of
                             None \<Rightarrow> Ret (OpenErr (EMsg ''couldn't get ob from any of''))
                           | Some (body, re) \<Rightarrow> Ret (OpenRemote body re))))))"
section \<open>Lemmas\<close>

subsection \<open>Candidates and the replication loops\<close>

lemma candidatesFor_cases:
  assumes "candidatesFor e cb oid ex nl d = Ret cs"
  shows "(\<exists>er. getBlobOwnership cb oid d = Inl er \<and> cs = nl) \<or>
     (\<exists>b owners. getBlobOwnership cb oid d = Inr b \<and> ResolveNodes e cb b d = Ret owners \<and>
        cs = filter (\<lambda>n. sn_name n \<notin> sn_name ` set owners \<and> bo_Length b < sn_Free n) nl)"
  using assms
  by (auto simp: candidatesFor_def at_least.f_filter minus.f_filter split: sum.splits go.splits)

lemma salvageLoop_false: "salvageLoop room oid dead cs todo rv q = (r, q') \<Longrightarrow> r \<longrightarrow> rv"
  by (induction cs arbitrary: todo rv q) (auto simp: Let_def split: prod.splits if_splits)

lemma salvageLoop_sends:
  assumes "salvageLoop room oid dead cs todo rv q = (r, q')" and "1 \<le> todo" and "todo < 2 ^ 63"
  shows "\<exists>ns. q' = q @ map (\<lambda>n. acquireTask n oid dead) ns \<and> set ns \<subseteq> set cs \<and> (distinct cs \<longrightarrow> distinct ns) \<and>
     int (length ns) \<le> todo \<and> (r \<longrightarrow> int (length ns) = min todo (int (length cs)))"
  using assms
proof (induction cs arbitrary: todo rv q)
  case Nil
  then show ?case by auto
next
  case (Cons n cs)
  have t: "i64 (todo - 1) = todo - 1" using Cons.prems by (intro i64_id) (simp add: i64_range_def)
  obtain b q1 where m: "maybeQueueBlobAcquire room n oid dead q = (b, q1)" by fastforce
  then have q1: "q1 = q @ map (\<lambda>n. acquireTask n oid dead) (if b then [n] else [])"
    by (auto simp: maybeQueueBlobAcquire_def split: if_splits)
  show ?case
  proof (cases "todo = 1")
    case True
    then have "r = (rv \<and> b)" "q' = q1" using Cons.prems(1) m t by simp_all
    with True q1 show ?thesis by (intro exI [of _ "if b then [n] else []"]) auto
  next
    case False
    with Cons.prems m t have l: "salvageLoop room oid dead cs (todo - 1) (rv \<and> b) q1 = (r, q')" by simp
    obtain ns where ns: "q' = q1 @ map (\<lambda>n. acquireTask n oid dead) ns" "set ns \<subseteq> set cs"
      "distinct cs \<longrightarrow> distinct ns" "int (length ns) \<le> todo - 1"
      "r \<longrightarrow> int (length ns) = min (todo - 1) (int (length cs))"
      using Cons.IH [OF l] False Cons.prems by auto
    have "r \<longrightarrow> b" using salvageLoop_false [OF l] by blast
    with ns q1 show ?thesis
      by (intro exI [of _ "(if b then [n] else []) @ ns"]) auto
  qed
qed

lemma pruneLoop_sends:
  "pruneLoop mx nm oid ns (int (length ns) + extra) q =
     q @ concat (map (\<lambda>n. case nm n of Some sn \<Rightarrow> [removalTask sn oid] | None \<Rightarrow> [])
       (take (nat (int (length ns) + extra - mx)) ns))"
proof (induction ns arbitrary: q)
  case (Cons n ns)
  show ?case
  proof (cases "int (length (n # ns)) + extra \<le> mx")
    case False
    then obtain k where k: "nat (int (length (n # ns)) + extra - mx) = Suc k"
      "k = nat (int (length ns) + extra - mx)"
      by (cases "nat (int (length (n # ns)) + extra - mx)") auto
    have "int (length (n # ns)) + extra - 1 = int (length ns) + extra" by simp
    with False k Cons.IH show ?thesis
      by (cases "nm n") (simp_all add: queueBlobRemoval_def algebra_simps)
  qed simp
qed simp

lemma pruneBlob_sends:
  "pruneBlob e oid ns nl q =
     q @ concat (map (\<lambda>n. case map_of (map (\<lambda>n. (sn_name n, n)) (rev nl)) n of
           Some sn \<Rightarrow> [removalTask sn oid] | None \<Rightarrow> [])
       (take (nat (int (length ns) - cf_MaxReplicas (e_conf e))) ns))"
  using pruneLoop_sends [of "cf_MaxReplicas (e_conf e)" "map_of (map (\<lambda>n. (sn_name n, n)) (rev nl))" oid ns 0 q]
  by (simp add: pruneBlob_def)

lemma map_of_named: "map_of (map (\<lambda>n. (sn_name n, n)) nl) x = Some sn \<Longrightarrow> sn_name sn = x \<and> sn \<in> set nl"
  by (induction nl) (auto split: if_splits)

subsection \<open>Objects on disk\<close>

lemma removeObject_kept:
  "removeObject e cb clk h w = Ret (r, w') \<Longrightarrow> fst (maybeRemoveBlobOwnership e cb clk h (w_db w)) = Some er
     \<Longrightarrow> w_fs w' = w_fs w \<and> r = Some er"
  by (auto simp: removeObject_def split: prod.splits)

lemma hashFilename_root: "validHash h \<Longrightarrow> 2 \<le> length h \<Longrightarrow> hashFilename (e_root e) h = Ret (objectPath (e_root e) h)"
  by (rule hashFilename_valid)

lemma forceRemoveObject_objects:
  assumes "validHash h" and "2 \<le> length h" and "forceRemoveObject e cb h w = Ret (r, w')"
  shows "objects (e_root e) (w_fs w') = (objects (e_root e) (w_fs w))(h := None)"
  using assms objects_remove [OF assms(1,2), of "e_root e" "w_fs w"]
  by (auto simp: forceRemoveObject_def hashFilename_root split: prod.splits)

text \<open>A temporary file of the code: created by \<open>ioutil.TempFile\<close> below the root.\<close>

definition tmp_ok :: "env \<Rightarrow> gerr + string \<Rightarrow> bool" where
  "tmp_ok e t \<longleftrightarrow> (case t of Inl _ \<Rightarrow> True | Inr name \<Rightarrow> \<exists>x. name = e_root e @ ''/tmp'' @ x)"

lemma hrFinish_failed:
  assumes "hr_ok s root h f" and "1 \<le> length (s (hr_fed h))" and "hrFinish ce h f = Ret (Inl er, h', f')"
  shows "objects root f' = objects root f \<or>
     (objects root f' = (objects root f)(hexEncode (s (hr_fed h)) := None) \<and>
      (hr_hashin h = [] \<or> hr_hashin h = hexEncode (s (hr_fed h))))"
proof -
  let ?hs = "hexEncode (s (hr_fed h))" and ?fn = "objectPath root (hexEncode (s (hr_fed h)))"
  note d = digest_path [OF assms(2)]
  obtain y where h: "hr_sum h = Some s" "hr_base h = root" "hr_tmpf h = Some (root @ ''/tmp'' @ y)"
    using assms(1) by (auto simp: hr_ok_def)
  let ?tmp = "root @ ''/tmp'' @ y"
  have fn: "hashFilename root ?hs = Ret ?fn" by (rule d(3))
  show ?thesis
  proof (cases "ce = None \<and> (hr_hashin h = [] \<or> hr_hashin h = ?hs)")
    case False
    then have "f' = f" using assms(3) h fn by (auto simp: hrFinish_def Let_def split: option.splits)
    then show ?thesis by simp
  next
    case True
    obtain er1 f1 where r1: "osRename ?tmp ?fn f = (Some er1, f1)"
      using assms(3) h fn True by (auto simp: hrFinish_def Let_def split: prod.splits option.splits)
    have f1: "f1 = f" by (rule osRename_Some [OF r1])
    let ?f3 = "snd (osRemove ?fn (osMkdirAll (dirOf ?fn) f))"
    obtain er2 f4 where r2: "osRename ?tmp ?fn ?f3 = (Some er2, f4)" "f' = snd (osRemove ?tmp f4)"
      using assms(3) h fn True r1 f1 by (auto simp: hrFinish_def Let_def split: prod.splits option.splits)
    have f4: "f4 = ?f3" by (rule osRename_Some [OF r2(1)])
    have "objects root ?f3 = (objects root (osMkdirAll (dirOf ?fn) f))(?hs := None)"
      by (rule objects_remove [OF d(1,2)])
    moreover have "objects root (osMkdirAll (dirOf ?fn) f) = objects root f" by (simp add: objects_def fun_eq_iff)
    moreover have "objects root f' = objects root ?f3"
      using objects_same_but_tmp [of root y ?f3 f'] r2(2) f4 by (simp add: fs_same_but_def osRemove_files)
    ultimately show ?thesis using True by simp
  qed
qed

lemma NewHashRecord_ok:
  assumes "NewHashRecord sm e (Inr name) hashin f = (Inr h, f0)" and "getHash sm e = Some s"
    and "name = e_root e @ ''/tmp'' @ x"
  shows "hr_ok s (e_root e) h f0 \<and> hr_fed h = [] \<and> hr_hashin h = hashin \<and> hr_tmpf h = Some name \<and>
     objects (e_root e) f0 = objects (e_root e) f"
proof -
  have "h = \<lparr>hr_tmpf = Some name, hr_sum = Some s, hr_fed = [], hr_hashin = hashin, hr_base = e_root e, hr_written = 0\<rparr>"
    "f0 = f\<lparr>fs_files := (fs_files f)(name \<mapsto> [])\<rparr>"
    using assms by (auto simp: NewHashRecord_def)
  moreover have "fs_same_but {e_root e @ ''/tmp'' @ x} f (f\<lparr>fs_files := (fs_files f)(name \<mapsto> [])\<rparr>)"
    using assms(3) by (simp add: fs_same_but_def)
  ultimately show ?thesis
    using objects_same_but_tmp assms(3) by (auto simp: hr_ok_def)
qed

text \<open>
  A body that was read to the end, written and closed: it is stored under the blob's name only if that is
  its hash, and if it is not, neither the objects nor the bucket change.
\<close>

lemma cacheBody_objects:
  assumes "cacheBody sm e cb clk tmp None oid l body re w = Ret (er, w')" and "tmp_ok e tmp"
    and "getHash sm e = Some s" and "1 \<le> length (s body)" and "1 \<le> length (s [])" and "oid \<noteq> []"
  shows "er = re \<and> w_locks w' = w_locks w \<and> w_q w' = w_q w \<and> w_spaceUsed w' = w_spaceUsed w \<and>
     (store_ok s (e_root e) (w_fs w) \<longrightarrow> store_ok s (e_root e) (w_fs w')) \<and>
     (hexEncode (s body) \<noteq> oid \<longrightarrow>
        objects (e_root e) (w_fs w') = objects (e_root e) (w_fs w) \<and> w_db w' = w_db w)"
proof -
  let ?root = "e_root e"
  obtain name x where tmp: "tmp = Inr name" "name = ?root @ ''/tmp'' @ x"
    using assms(1,2) by (cases tmp) (auto simp: cacheBody_def NewHashRecord_def tmp_ok_def)
  obtain h f0 where n: "NewHashRecord sm e (Inr name) oid (w_fs w) = (Inr h, f0)"
    by (simp add: NewHashRecord_def)
  note ok = NewHashRecord_ok [OF n assms(3) tmp(2)]
  let ?h1 = "h\<lparr>hr_fed := hr_fed h @ body, hr_written := i64 (hr_written h + int (length body))\<rparr>"
  let ?f1 = "appendFile name body f0"
  have c: "hrCopy [(body, None)] re 0 h f0 = Ret (re, i64 (int (length body)), ?h1, ?f1)"
    using ok by (simp add: hrWrite_def hr_ok_def)
  have h1: "hr_ok s ?root ?h1 ?f1" using ok tmp(2) by (auto simp: hr_ok_def appendFile_def)
  have fed: "hr_fed ?h1 = body" "hr_hashin ?h1 = oid" "hr_tmpf ?h1 = Some name" using ok by simp_all
  have obj1: "objects ?root ?f1 = objects ?root (w_fs w)"
    using ok objects_same_but_tmp [of ?root x f0 ?f1] tmp(2) by (simp add: fs_same_but_def appendFile_def)
  obtain r h2 f2 where fin: "hrFinish None ?h1 ?f1 = Ret (r, h2, f2)"
    using assms(1) tmp(1) n c by (cases "hrFinish None ?h1 ?f1") (auto simp: cacheBody_def)
  have l1: "1 \<le> length (s (hr_fed ?h1))" using fed assms(4) by simp
  show ?thesis
  proof (cases r)
    case (Inl er1)
    then have w': "er = re" "w' = w\<lparr>w_fs := f2\<rparr>" using assms(1) tmp(1) n c fin by (auto simp: cacheBody_def)
    have "objects ?root f2 = objects ?root ?f1 \<or>
       (objects ?root f2 = (objects ?root ?f1)(hexEncode (s body) := None) \<and> oid = hexEncode (s body))"
      using hrFinish_failed [OF h1 l1 fin [unfolded Inl]] fed assms(6) by auto
    with w' obj1 show ?thesis by (auto simp: store_ok_objects split: if_splits)
  next
    case (Inr hs)
    note st = hrFinish_stored [OF h1 fed(3) l1 fin [unfolded Inr]]
    have hs: "hs = hexEncode (s body)" "oid = hs" using st fed assms(6) by auto
    obtain g d' where g: "recordBlobOwnership e cb clk oid l True (w_db w) = (Ret g, d')"
      and w': "er = re" "w' = w\<lparr>w_fs := f2, w_db := d'\<rparr>"
      using assms(1) tmp(1) n c fin Inr
      by (cases "recordBlobOwnership e cb clk oid l True (w_db w)"; cases "fst (recordBlobOwnership e cb clk oid l True (w_db w))")
        (auto simp: cacheBody_def)
    note dp = digest_path [OF assms(4)]
    have "objects ?root f2 = (objects ?root ?f1)(hexEncode (s body) \<mapsto> body)"
      using st fed tmp(2) by (intro objects_put [OF _ dp(1,2), of f2 ?f1 ?root x]) (simp add: hs)
    then have "store_ok s ?root (w_fs w) \<longrightarrow> store_ok s ?root f2"
      using store_ok_update [of s ?root "w_fs w" f2 "hexEncode (s body)" body] obj1 by simp
    then show ?thesis using w' hs by simp
  qed
qed
lemma prune_asked:
  fixes nm :: "string \<Rightarrow> storageNode option"
  assumes "\<And>n sn. nm n = Some sn \<Longrightarrow> sn_name sn = n"
  shows "map (sn_name \<circ> it_node) (concat (map (\<lambda>n. case nm n of Some sn \<Rightarrow> [removalTask sn oid] | None \<Rightarrow> []) ns))
     = filter (\<lambda>n. nm n \<noteq> None) ns"
  using assms by (induction ns) (auto simp: removalTask_def split: option.splits)

lemma prune_asked_tasks:
  fixes nm :: "string \<Rightarrow> storageNode option"
  assumes "t \<in> set (concat (map (\<lambda>n. case nm n of Some sn \<Rightarrow> [removalTask sn oid] | None \<Rightarrow> []) ns))"
  shows "\<exists>n sn. nm n = Some sn \<and> t = removalTask sn oid"
proof -
  obtain n where "t \<in> set (case nm n of Some sn \<Rightarrow> [removalTask sn oid] | None \<Rightarrow> [])" using assms by auto
  then show ?thesis by (cases "nm n") auto
qed

lemma Lock_cases:
  "Lock s l = (b, l') \<Longrightarrow> b = (\<not> nlGet l s) \<and> (\<forall>t. nlGet l' t \<longleftrightarrow> t = s \<or> nlGet l t)"
  using nl.lock_result [of s l] nl.lock_held [of s l] by simp

lemma getBlobFromRemote_objects:
  assumes "getBlobFromRemote sm e cb fe oid cp w = Ret (er, status, body, w')" and "tmp_ok e (fe_tmp fe)"
    and "fe_wfail fe = None" and "getHash sm e = Some s" and "\<And>x. 1 \<le> length (s x)" and "oid \<noteq> []"
  shows "w_locks w' = w_locks w \<and> w_q w' = w_q w \<and>
     (store_ok s (e_root e) (w_fs w) \<longrightarrow> store_ok s (e_root e) (w_fs w'))"
proof -
  consider "w' = w" | b r l where
    "cacheBody sm e cb (fe_clk fe) (fe_tmp fe) None oid l b r w = Ret (er, w')"
    using assms(1,3)
    by (auto simp: getBlobFromRemote_def split: sum.splits go.splits option.splits prod.splits if_splits)
  then show ?thesis
  proof cases
    case 2
    from cacheBody_objects [OF this assms(2,4,5) assms(5) assms(6)] show ?thesis by blast
  qed simp
qed

section \<open>Properties\<close>

text \<open>
  salvaging a blob asks at most \<open>todo\<close> nodes to acquire it, each at most once, only nodes of the list
  given; where the owners are known, only nodes that are not owners and have more free space than the
  blob is long. If every request found room in the queue, as many are asked as are wanted or available.
\<close>

theorem salvage_bounded:
  assumes "salvageBlob e cb room oid deadNode todo nl d q = Ret (ok, q')" and "1 \<le> todo" and "todo < 2 ^ 63"
    and "distinct nl"
  shows "\<exists>ns. q' = q @ map (\<lambda>n. acquireTask n oid deadNode) ns \<and> distinct ns \<and> set ns \<subseteq> set nl \<and>
     int (length ns) \<le> todo \<and>
     (\<forall>b owners. getBlobOwnership cb oid d = Inr b \<longrightarrow> ResolveNodes e cb b d = Ret owners \<longrightarrow>
        (\<forall>n \<in> set ns. sn_name n \<notin> sn_name ` set owners \<and> bo_Length b < sn_Free n) \<and>
        (ok \<longrightarrow> int (length ns) = min todo (int (length
           (filter (\<lambda>n. sn_name n \<notin> sn_name ` set owners \<and> bo_Length b < sn_Free n) nl)))))"
proof -
  obtain cs where cs: "candidatesFor e cb oid [named deadNode nl] nl d = Ret cs"
    and s: "(if cs = [] then (True, q) else salvageLoop room oid deadNode cs todo True q) = (ok, q')"
    using assms(1) by (auto simp: salvageBlob_def split: go.splits)
  have sub: "set cs \<subseteq> set nl" "distinct cs" using candidatesFor_cases [OF cs] assms(4) by auto
  obtain ns where ns: "q' = q @ map (\<lambda>n. acquireTask n oid deadNode) ns" "set ns \<subseteq> set cs"
    "distinct ns" "int (length ns) \<le> todo" "ok \<longrightarrow> int (length ns) = min todo (int (length cs))"
  proof (cases "cs = []")
    case True
    with s assms(2) show thesis by (intro that [of "[]"]) auto
  next
    case False
    with s have "salvageLoop room oid deadNode cs todo True q = (ok, q')" by simp
    from salvageLoop_sends [OF this assms(2,3)] sub(2)
    obtain ns where "q' = q @ map (\<lambda>n. acquireTask n oid deadNode) ns" "set ns \<subseteq> set cs"
      "distinct ns" "int (length ns) \<le> todo" "ok \<longrightarrow> int (length ns) = min todo (int (length cs))"
      by auto
    then show thesis by (rule that)
  qed
  have "(\<forall>n \<in> set ns. sn_name n \<notin> sn_name ` set owners \<and> bo_Length b < sn_Free n) \<and>
        (ok \<longrightarrow> int (length ns) = min todo (int (length
           (filter (\<lambda>n. sn_name n \<notin> sn_name ` set owners \<and> bo_Length b < sn_Free n) nl))))"
    if "getBlobOwnership cb oid d = Inr b" "ResolveNodes e cb b d = Ret owners" for b owners
    using candidatesFor_cases [OF cs] that ns(2,5) by auto
  with ns sub show ?thesis by (intro exI [of _ ns]) auto
qed

text \<open>
  C11: pruning a blob never asks for more removals than leave \<open>MaxReplicas\<close> owners: of the nodes that have
  the blob at least that many (or all, if there are fewer) are not asked, each asked node is an owner and is
  asked once.
\<close>

theorem prune_keeps_max:
  assumes "distinct nodemap" and "0 \<le> cf_MaxReplicas (e_conf e)"
  shows "\<exists>asked. pruneBlob e oid nodemap nl q = q @ asked \<and>
     (\<forall>t \<in> set asked. it_cmd t = RemoveObjectCmd \<and> it_oid t = oid \<and> it_node t \<in> set nl) \<and>
     distinct (map (sn_name \<circ> it_node) asked) \<and> set (map (sn_name \<circ> it_node) asked) \<subseteq> set nodemap \<and>
     min (int (length nodemap)) (cf_MaxReplicas (e_conf e))
       \<le> int (card (set nodemap - set (map (sn_name \<circ> it_node) asked)))"
proof -
  define nm where "nm = map_of (map (\<lambda>n. (sn_name n, n)) (rev nl))"
  define k where "k = nat (int (length nodemap) - cf_MaxReplicas (e_conf e))"
  define asked where
    "asked = concat (map (\<lambda>n. case nm n of Some sn \<Rightarrow> [removalTask sn oid] | None \<Rightarrow> []) (take k nodemap))"
  have nm: "nm n = Some sn \<Longrightarrow> sn_name sn = n \<and> sn \<in> set nl" for n sn
    using map_of_named [of "rev nl" n sn] by (simp add: nm_def)
  have names: "map (sn_name \<circ> it_node) asked = filter (\<lambda>n. nm n \<noteq> None) (take k nodemap)"
    unfolding asked_def by (rule prune_asked) (use nm in blast)
  have 1: "pruneBlob e oid nodemap nl q = q @ asked"
    by (simp add: pruneBlob_sends asked_def nm_def k_def)
  have 2: "\<forall>t \<in> set asked. it_cmd t = RemoveObjectCmd \<and> it_oid t = oid \<and> it_node t \<in> set nl"
  proof
    fix t
    assume "t \<in> set asked"
    then obtain n sn where t: "nm n = Some sn" "t = removalTask sn oid"
      using prune_asked_tasks [of t oid nm "take k nodemap"] unfolding asked_def by blast
    from nm [OF t(1)] t(2) show "it_cmd t = RemoveObjectCmd \<and> it_oid t = oid \<and> it_node t \<in> set nl"
      by (simp add: removalTask_def)
  qed
  have 3: "distinct (map (sn_name \<circ> it_node) asked)" "set (map (sn_name \<circ> it_node) asked) \<subseteq> set nodemap"
    unfolding names using assms(1) by (auto dest: in_set_takeD)
  have "set (drop k nodemap) \<subseteq> set nodemap - set (map (sn_name \<circ> it_node) asked)"
    using assms(1) set_take_disj_set_drop_if_distinct [of nodemap k k] unfolding names
    by (auto dest: in_set_dropD)
  then have "card (set (drop k nodemap)) \<le> card (set nodemap - set (map (sn_name \<circ> it_node) asked))"
    by (intro card_mono) auto
  moreover have "card (set (drop k nodemap)) = length nodemap - k"
    using assms(1) by (simp add: distinct_card)
  moreover have "min (int (length nodemap)) (cf_MaxReplicas (e_conf e)) = int (length nodemap - k)"
    using assms(2) by (simp add: k_def)
  ultimately have "min (int (length nodemap)) (cf_MaxReplicas (e_conf e))
       \<le> int (card (set nodemap - set (map (sn_name \<circ> it_node) asked)))" by simp
  with 1 2 3 show ?thesis by blast
qed

text \<open>Concrete values: a digest, two nodes, a node's state, and what its surroundings answer.\<close>

definition sum0 :: "string \<Rightarrow> string \<Rightarrow> string" where
  "sum0 alg x = ''ab''"

definition nodeA :: storageNode where
  "nodeA = storageNode_zero\<lparr>sn_name := ''n2'', sn_Addr := ''10.0.0.2'', sn_BindAddr := '':8484'', sn_Free := 1000\<rparr>"

definition nodeB :: storageNode where
  "nodeB = storageNode_zero\<lparr>sn_name := ''n3'', sn_Addr := ''10.0.0.3'', sn_BindAddr := '':8484'', sn_Free := 2000\<rparr>"

definition aWorld :: "memdb \<Rightarrow> memdb world" where
  "aWorld d = \<lparr>w_db = d, w_fs = \<lparr>fs_files = (\<lambda>p. None), fs_dirs = (\<lambda>p. p = ''/data'')\<rparr>, w_q = [], w_locks = None,
     w_spaceUsed = 0\<rparr>"

definition aFetchEnv :: "memdb fetchEnv" where
  "aFetchEnv = \<lparr>fe_remote = (\<lambda>n oid. Inr (200, ''hello'', None)), fe_clk = (\<lambda>n. 77), fe_tmp = Inr ''/data/tmp1'',
     fe_wfail = None, fe_fsFree = Inr 1000, fe_rnd = 0\<rparr>"

theorem salvage_bounded_witness:
  "\<exists>ok q' ns. salvageBlob anEnv (memBucket noView) (\<lambda>_. True) ''ab'' [] 1 [nodeA, nodeB] [] [] = Ret (ok, q') \<and>
     q' = map (\<lambda>n. acquireTask n ''ab'' []) ns \<and> int (length ns) \<le> 1"
proof -
  let ?r = "salvageBlob anEnv (memBucket noView) (\<lambda>_. True) ''ab'' [] 1 [nodeA, nodeB] [] []"
  have r: "?r = Ret (True, [acquireTask nodeA ''ab'' []])" by code_simp
  have d: "distinct [nodeA, nodeB]" by code_simp
  have t: "(1::int) \<le> 1" "(1::int) < 2 ^ 63" by simp_all
  obtain ns where "[acquireTask nodeA ''ab'' []] = [] @ map (\<lambda>n. acquireTask n ''ab'' []) ns" "int (length ns) \<le> 1"
    using salvage_bounded [OF r t d] by blast
  with r show ?thesis by (intro exI conjI) simp_all
qed

theorem prune_keeps_max_witness:
  "\<exists>asked. pruneBlob (anEnv\<lparr>e_conf := DefaultConfig\<lparr>cf_MaxReplicas := 1\<rparr>\<rparr>) ''ab'' [''n2'', ''n1'', ''n3''] [nodeA, nodeB] [] = asked \<and>
     1 \<le> int (card (set [''n2'', ''n1'', ''n3''] - set (map (sn_name \<circ> it_node) asked)))"
proof -
  have "distinct [''n2'', ''n1'', ''n3'']" "0 \<le> cf_MaxReplicas (e_conf (anEnv\<lparr>e_conf := DefaultConfig\<lparr>cf_MaxReplicas := 1\<rparr>\<rparr>))"
    by simp_all
  from prune_keeps_max [OF this, of "''ab''" "[nodeA, nodeB]" "[]"] show ?thesis by auto
qed



text \<open>
  an update error makes a node drop its copy unchecked. When the bucket cannot be updated at all (the
  callback is never invoked and the update returns an error), \<open>maybeRemoveBlobOwnership\<close> discards that
  error and reports success; \<open>removeObject\<close> then deletes the object, although neither its age nor the
  number of replicas was looked at.
\<close>

theorem removeObject_unchecked_on_error:
  assumes "cbUpdate cb (''/'' @ h) 0
       (closure (maybe_cb (e_serverId e) (cf_MinReplicas (e_conf e)) clk) (False, None, 0)) (w_db w) = ([], UpdErr er, d')"
    and "objects (e_root e) (w_fs w) h = Some c"
  shows "\<exists>w'. removeObject e cb clk h w = Ret (None, w') \<and> objects (e_root e) (w_fs w') = (objects (e_root e) (w_fs w))(h := None)"
proof -
  have h: "validHash h" "2 \<le> length h" and c: "fs_files (w_fs w) (objectPath (e_root e) h) = Some c"
    using assms(2) by (auto simp: objects_def split: if_splits)
  have "maybeRemoveBlobOwnership e cb clk h (w_db w) = (None, d')"
    using assms(1) by (simp add: maybeRemoveBlobOwnership_def Let_def)
  then have "removeObject e cb clk h w = Ret (None, w\<lparr>w_db := d', w_fs := snd (osRemove (objectPath (e_root e) h) (w_fs w))\<rparr>)"
    using c by (simp add: removeObject_def hashFilename_root [OF h] osRemove_def)
  with objects_remove [OF h, of "e_root e" "w_fs w"] show ?thesis by simp
qed

theorem removeObject_unchecked_on_error_witness:
  "\<exists>w'. removeObject anEnv ((memBucket noView)\<lparr>cbUpdate := (\<lambda>k x f d. ([], UpdErr (EMsg ''timeout''), d))\<rparr>) (\<lambda>_. 0) ''6162''
       ((aWorld [])\<lparr>w_fs := \<lparr>fs_files = (\<lambda>p. if p = ''/data/61/6162'' then Some ''x'' else None), fs_dirs = (\<lambda>p. True)\<rparr>\<rparr>)
     = Ret (None, w') \<and> objects (e_root anEnv) (w_fs w') ''6162'' = None"
proof -
  let ?cb = "(memBucket noView)\<lparr>cbUpdate := (\<lambda>k x f d. ([], UpdErr (EMsg ''timeout''), d))\<rparr>"
  let ?w = "(aWorld [])\<lparr>w_fs := \<lparr>fs_files = (\<lambda>p. if p = ''/data/61/6162'' then Some ''x'' else None), fs_dirs = (\<lambda>p. True)\<rparr>\<rparr>"
  have 1: "cbUpdate ?cb (''/'' @ ''6162'') 0
      (closure (maybe_cb (e_serverId anEnv) (cf_MinReplicas (e_conf anEnv)) (\<lambda>_. 0)) (False, None, 0)) (w_db ?w)
      = ([], UpdErr (EMsg ''timeout''), w_db ?w)" by simp
  have 2: "objects (e_root anEnv) (w_fs ?w) ''6162'' = Some ''x''" by code_simp
  from removeObject_unchecked_on_error [OF 1 2] show ?thesis by auto
qed

text \<open>
  a corrupt transfer passes for a takeover. When another node delivers, without a read error, a body
  that does not have the blob's hash, nothing is stored and no ownership is recorded, but the error of the
  close is dropped and \<open>performFetch\<close> goes on to release the previous owner: here, where that node's
  record cannot be read, by striking it off the owners.
\<close>

theorem corrupt_fetch_releases_owner:
  assumes "getBlobOwnership cb oid (w_db w) = Inr b" and "ResolveNodes e cb b (w_db w) = Ret nl"
    and "firstCopy (fe_remote fe) oid nl = Some (body, None)" and "fe_wfail fe = None"
    and "fe_tmp fe = Inr (e_root e @ ''/tmp'' @ x)" and "getHash sm e = Some s"
    and "1 \<le> length (s body)" and "hexEncode (s body) \<noteq> oid" and "validHash oid" and "2 \<le> length oid"
    and "objects (e_root e) (w_fs w) oid = None" and "\<not> nlGet (w_locks w) oid"
    and "prev \<noteq> []" and "findNode cb prev (w_db w) = Inl er"
  shows "\<exists>w'. performFetch sm e cb fe oid prev w = Ret w' \<and>
     objects (e_root e) (w_fs w') = objects (e_root e) (w_fs w) \<and>
     w_db w' = snd (removeBlobOwnershipRecord e cb oid prev (w_db w))"
proof -
  obtain l' where l: "Lock oid (w_locks w) = (True, l')"
    using nl.lock_result [of oid "w_locks w"] assms(12) by (cases "Lock oid (w_locks w)") auto
  let ?w = "w\<lparr>w_locks := l'\<rparr>"
  obtain h f0 where n: "NewHashRecord sm e (Inr (e_root e @ ''/tmp'' @ x)) oid (w_fs w) = (Inr h, f0)"
    by (simp add: NewHashRecord_def)
  note ok = NewHashRecord_ok [OF n assms(6) refl]
  let ?h1 = "h\<lparr>hr_fed := hr_fed h @ body, hr_written := i64 (hr_written h + int (length body))\<rparr>"
  let ?f1 = "appendFile (e_root e @ ''/tmp'' @ x) body f0"
  have c: "hrCopy [(body, None)] None 0 h f0 = Ret (None, i64 (int (length body)), ?h1, ?f1)"
    using ok by (simp add: hrWrite_def hr_ok_def)
  have oid: "oid \<noteq> []" using assms(10) by auto
  have fin: "hrFinish None ?h1 ?f1 = Ret (Inl (EMsg ''Invalid hash''), ?h1, ?f1)"
    using ok assms(8) oid digest_path(3) [OF assms(7), of "e_root e"] by (simp add: hrFinish_def hr_ok_def)
  have cache: "cacheBody sm e cb (fe_clk fe) (fe_tmp fe) (fe_wfail fe) oid (bo_Length b) body None ?w = Ret (None, ?w\<lparr>w_fs := ?f1\<rparr>)"
    using n c fin assms(4,5) by (simp add: cacheBody_def)
  have g: "getBlobFromRemote sm e cb fe oid 100 ?w = Ret (None, 200, body, ?w\<lparr>w_fs := ?f1\<rparr>)"
    using assms(1-3) cache by (simp add: getBlobFromRemote_def shouldCache_def)
  have nofile: "fs_files (w_fs w) (objectPath (e_root e) oid) = None"
    using assms(9-11) by (simp add: objects_def)
  have held: "nlGet l' oid" using Lock_cases [OF l] by simp
  obtain l2 where u: "Unlock oid l' = Some l2" using nl.unlock_held [OF held] by blast
  have "performFetch sm e cb fe oid prev w = Ret (?w\<lparr>w_fs := ?f1, w_locks := l2,
      w_db := snd (removeBlobOwnershipRecord e cb oid prev (w_db w))\<rparr>)"
    using l g nofile u assms(13,14) by (simp add: performFetch_def hashFilename_root [OF assms(9,10)] Let_def)
  moreover have "objects (e_root e) ?f1 = objects (e_root e) (w_fs w)"
    using ok objects_same_but_tmp [of "e_root e" x f0 ?f1] by (simp add: fs_same_but_def appendFile_def)
  ultimately show ?thesis by simp
qed

theorem corrupt_fetch_releases_owner_witness:
  "\<exists>w'. performFetch sum0 anEnv (memBucket noView) aFetchEnv ''6163'' ''n9''
       (aWorld [(''/6163'', RJson (marshal_blob (aBlob\<lparr>bo_Nodes := Some [(''n2'', 5), (''n9'', 6)]\<rparr>))),
         (''/n2'', RJson (marshal_node nodeA))]) = Ret w' \<and>
     objects (e_root anEnv) (w_fs w') ''6163'' = None"
proof -
  let ?b = "aBlob\<lparr>bo_Nodes := Some [(''n2'', 5), (''n9'', 6)]\<rparr>"
  let ?w = "aWorld [(''/6163'', RJson (marshal_blob ?b)), (''/n2'', RJson (marshal_node nodeA))]"
  have g: "getBlobOwnership (memBucket noView) ''6163'' (w_db ?w) = Inr ?b" by code_simp
  let ?nl = "case ResolveNodes anEnv (memBucket noView) ?b (w_db ?w) of Ret nl \<Rightarrow> nl | Panic \<Rightarrow> []"
  have r: "ResolveNodes anEnv (memBucket noView) ?b (w_db ?w) = Ret ?nl" by code_simp
  have f: "firstCopy (fe_remote aFetchEnv) ''6163'' ?nl = Some (''hello'', None)" by code_simp
  have t: "fe_wfail aFetchEnv = None" "fe_tmp aFetchEnv = Inr (e_root anEnv @ ''/tmp'' @ ''1'')"
    by (simp_all add: aFetchEnv_def anEnv_def)
  have h: "getHash sum0 anEnv = Some (sum0 ''sha1'')"
    by (simp add: getHash_def hashBuilders_def anEnv_def DefaultConfig_def)
  have l: "1 \<le> length (sum0 ''sha1'' ''hello'')" "hexEncode (sum0 ''sha1'' ''hello'') \<noteq> ''6163''"
    "validHash ''6163''" "2 \<le> length ''6163''" by code_simp+
  have o: "objects (e_root anEnv) (w_fs ?w) ''6163'' = None" "\<not> nlGet (w_locks ?w) ''6163''" by code_simp+
  have n: "''n9'' \<noteq> []" "findNode (memBucket noView) ''n9'' (w_db ?w) = Inl ENotFound" by code_simp+
  from corrupt_fetch_releases_owner [OF g r f t h l o n] o(1) show ?thesis by auto
qed

end
