(* ===== verification/File_Meta.thy ===== *)
theory File_Meta
  imports Couchbase
begin

text \<open>
  File metadata: the record stored under a file's name in the bucket, its JSON form, the
  naming of documents, the upload preconditions and the revision history
  (\<open>src/main.go\<close>, and \<open>maybeStoreMeta\<close> of \<open>src/backup.go\<close>).

  \<open>storeMeta\<close> is an \<open>Update\<close> whose callback captures and mutates the metadata to store, so
  \<open>storeMeta_cb\<close> threads it from one invocation to the next. The lemmas show the JSON round trip,
  that document names stay below the key limit and do not collide, what a stored upload records
  (revision number, previous revisions, user data), that the preconditions are the HTTP ones, and that
  the revision numbers of a file are consecutive however many uploads it sees.
\<close>

section \<open>Data\<close>

record prevMeta =
  pm_Headers :: header
  pm_OID :: string
  pm_Length :: int
  pm_Modified :: time
  pm_Revno :: int

record fileMeta =
  fm_Name :: string
  fm_Headers :: header
  fm_OID :: string
  fm_Length :: int
  fm_Userdata :: "json option"
  fm_Modified :: time
  fm_Previous :: "prevMeta list"
  fm_Revno :: int
  fm_Type :: string

definition prevMeta_zero :: prevMeta where
  "prevMeta_zero =
     \<lparr>pm_Headers = None, pm_OID = [], pm_Length = 0, pm_Modified = 0, pm_Revno = 0\<rparr>"

definition fileMeta_zero :: fileMeta where
  "fileMeta_zero =
     \<lparr>fm_Name = [], fm_Headers = None, fm_OID = [], fm_Length = 0, fm_Userdata = None,
      fm_Modified = 0, fm_Previous = [], fm_Revno = 0, fm_Type = []\<rparr>"

text \<open>The constants of the naming scheme.\<close>

definition maxFilename :: nat where "maxFilename = 250"
definition truncateKeyLen :: nat where "truncateKeyLen = 32"

section \<open>JSON\<close>

definition encHeader :: "header \<Rightarrow> json" where
  "encHeader h = encMap (\<lambda>vs. JArr (map JStr vs)) h"

definition decHeader :: "json \<Rightarrow> header option" where
  "decHeader j = decMap (decList decStr []) [] j"

definition marshal_prevMeta :: "prevMeta \<Rightarrow> json" where
  "marshal_prevMeta p =
     JObj [(''headers'', encHeader (pm_Headers p)), (''oid'', JStr (pm_OID p)),
           (''length'', JNum (pm_Length p)), (''modified'', JTime (pm_Modified p)),
           (''revno'', JNum (pm_Revno p))]"

definition fields_prevMeta :: "(string \<times> json) list \<Rightarrow> prevMeta option" where
  "fields_prevMeta ms = do {
     h \<leftarrow> fld ''headers'' decHeader None ms;
     oid \<leftarrow> fld ''oid'' decStr [] ms;
     l \<leftarrow> fld ''length'' decInt 0 ms;
     m \<leftarrow> fld ''modified'' decTime 0 ms;
     r \<leftarrow> fld ''revno'' decInt 0 ms;
     Some \<lparr>pm_Headers = h, pm_OID = oid, pm_Length = l, pm_Modified = m, pm_Revno = r\<rparr> }"

fun decPrevMeta :: "json \<Rightarrow> prevMeta option" where
  "decPrevMeta (JObj ms) = fields_prevMeta ms"
| "decPrevMeta _ = None"

definition fields_fileMeta :: "(string \<times> json) list \<Rightarrow> fileMeta option" where
  "fields_fileMeta ms = do {
     n \<leftarrow> fld ''name'' decStr [] ms;
     h \<leftarrow> fld ''headers'' decHeader None ms;
     oid \<leftarrow> fld ''oid'' decStr [] ms;
     l \<leftarrow> fld ''length'' decInt 0 ms;
     u \<leftarrow> fld ''userdata'' (\<lambda>j. Some (Some j)) None ms;
     m \<leftarrow> fld ''modified'' decTime 0 ms;
     ps \<leftarrow> fld ''older'' (decList decPrevMeta prevMeta_zero) [] ms;
     r \<leftarrow> fld ''revno'' decInt 0 ms;
     t \<leftarrow> fld ''type'' decStr [] ms;
     Some \<lparr>fm_Name = n, fm_Headers = h, fm_OID = oid, fm_Length = l, fm_Userdata = u,
           fm_Modified = m, fm_Previous = ps, fm_Revno = r, fm_Type = t\<rparr> }"

definition unmarshal_fileMeta :: "raw option \<Rightarrow> fileMeta option" where
  "unmarshal_fileMeta r = unmarshal fields_fileMeta r"

text \<open>The custom encoder: a map built by hand; the type is always \<open>file\<close>.\<close>

definition marshal_fileMeta :: "fileMeta \<Rightarrow> json" where
  "marshal_fileMeta fm =
     JObj ([(''oid'', JStr (fm_OID fm)),
            (''headers'', encHeader (fm_Headers fm)),
            (''type'', JStr ''file''),
            (''ctype'', JStr (hdrGet (fm_Headers fm) ''Content-Type'')),
            (''length'', JNum (fm_Length fm)),
            (''modified'', JTime (fm_Modified fm)),
            (''revno'', JNum (fm_Revno fm))]
         @ (case fm_Userdata fm of None \<Rightarrow> [] | Some u \<Rightarrow> [(''userdata'', u)])
         @ (if fm_Name fm \<noteq> [] then [(''name'', JStr (fm_Name fm))] else [])
         @ (if fm_Previous fm \<noteq> [] then [(''older'', JArr (map marshal_prevMeta (fm_Previous fm)))]
            else []))"

section \<open>Names\<close>

text \<open>
  \<open>sha1\<close> is the digest function of \<open>crypto/sha1\<close>: a parameter, of which only the length of its
  digests is used.
\<close>

definition sha1_ok :: "(string \<Rightarrow> string) \<Rightarrow> bool" where
  "sha1_ok sha1 \<longleftrightarrow> (\<forall>s. length (sha1 s) = 20)"

definition shortName :: "(string \<Rightarrow> string) \<Rightarrow> string \<Rightarrow> string" where
  "shortName sha1 k =
     (if length k < maxFilename then k
      else ''/+'' @ take truncateKeyLen k @ ''-'' @ hexEncode (sha1 k))"

section \<open>Upload preconditions\<close>

definition quoted :: "string \<Rightarrow> string" where
  "quoted s = CHR 0x22 # s @ [CHR 0x22]"

definition shouldStoreMeta :: "header \<Rightarrow> bool \<Rightarrow> fileMeta \<Rightarrow> bool" where
  "shouldStoreMeta hdr exists fm =
     (let ifmatch = hdrGet hdr ''If-Match''; ifnonematch = hdrGet hdr ''If-None-Match'' in
      if ifmatch \<noteq> [] \<and> (\<not> exists \<or>
           (ifmatch \<noteq> ''*'' \<and> \<not> containsStr ifmatch (quoted (fm_OID fm)))) then False
      else if ifnonematch \<noteq> [] \<and> exists \<and>
           (ifnonematch = ''*'' \<or> containsStr ifnonematch (quoted (fm_OID fm))) then False
      else True)"

section \<open>Storing metadata\<close>

definition prev_of :: "fileMeta \<Rightarrow> prevMeta" where
  "prev_of ex =
     \<lparr>pm_Headers = fm_Headers ex, pm_OID = fm_OID ex, pm_Length = fm_Length ex,
      pm_Modified = fm_Modified ex, pm_Revno = fm_Revno ex\<rparr>"

definition storeMeta_cb :: "header \<Rightarrow> int \<Rightarrow> fileMeta \<Rightarrow> raw option \<Rightarrow> fileMeta \<times> upd" where
  "storeMeta_cb hdr revs fm inp =
     (case unmarshal_fileMeta inp of
        None \<Rightarrow>
          if \<not> shouldStoreMeta hdr False fileMeta_zero then (fm, UErr EUploadPrecondition)
          else (fm, UStore (RJson (marshal_fileMeta fm)))
      | Some existing \<Rightarrow>
          if \<not> shouldStoreMeta hdr True existing then (fm, UErr EUploadPrecondition)
          else
            (let fm1 = fm\<lparr>fm_Userdata := fm_Userdata existing,
                          fm_Revno := i64 (fm_Revno existing + 1)\<rparr>;
                 fm2 = (if revs = -1 \<or> revs > 0 then
                          (let prev = fm_Previous existing @ [prev_of existing];
                               diff = int (length prev) - revs in
                           fm1\<lparr>fm_Previous :=
                                 (if revs \<noteq> -1 \<and> diff > 0 then drop (nat diff) prev else prev)\<rparr>)
                        else fm1)
             in (fm2, UStore (RJson (marshal_fileMeta fm2)))))"

definition storeMeta ::
  "'db bucket \<Rightarrow> (string \<Rightarrow> string) \<Rightarrow> string \<Rightarrow> int \<Rightarrow> fileMeta \<Rightarrow> int \<Rightarrow> header \<Rightarrow> 'db
     \<Rightarrow> updRes \<times> 'db" where
  "storeMeta cb sha1 fn ex fm revs hdr d =
     (let k = shortName sha1 fn;
          fm0 = (if k \<noteq> fn then fm\<lparr>fm_Name := fn\<rparr> else fm);
          (h, r, d') = cbUpdate cb k ex (closure (storeMeta_cb hdr revs) fm0) d
      in (r, d'))"

definition maybeStoreMeta ::
  "'db bucket \<Rightarrow> string \<Rightarrow> fileMeta \<Rightarrow> int \<Rightarrow> bool \<Rightarrow> 'db \<Rightarrow> gerr option \<times> 'db" where
  "maybeStoreMeta cb k fm ex force d =
     (if force then cbSet cb k ex (RJson (marshal_fileMeta fm)) d
      else (case cbAdd cb k ex (RJson (marshal_fileMeta fm)) d of
              (Inr added, d') \<Rightarrow> (if added then None else Some EItemExists, d')
            | (Inl e, d') \<Rightarrow> (Some e, d')))"

section \<open>Well-formed metadata\<close>

text \<open>What every metadata record of the running system has: 64-bit numbers and header maps.\<close>

definition wf_prevMeta :: "prevMeta \<Rightarrow> bool" where
  "wf_prevMeta p \<longleftrightarrow> mwf (pm_Headers p) \<and> i64_range (pm_Length p) \<and> i64_range (pm_Revno p)"

definition wf_fileMeta :: "fileMeta \<Rightarrow> bool" where
  "wf_fileMeta fm \<longleftrightarrow>
     mwf (fm_Headers fm) \<and> i64_range (fm_Length fm) \<and> i64_range (fm_Revno fm) \<and>
     fm_Userdata fm \<noteq> Some JNull \<and> list_all wf_prevMeta (fm_Previous fm)"

text \<open>The revision numbers of a file, oldest first, the current one last.\<close>

definition revnos :: "fileMeta \<Rightarrow> int list" where
  "revnos fm = map pm_Revno (fm_Previous fm) @ [fm_Revno fm]"

fun consec :: "int list \<Rightarrow> bool" where
  "consec [] = True"
| "consec [x] = True"
| "consec (x # y # xs) = (y = x + 1 \<and> consec (y # xs))"

text \<open>A file document: it decodes, is well-formed, and its revisions are consecutive.\<close>

definition file_doc_ok :: "raw option \<Rightarrow> bool" where
  "file_doc_ok r \<longleftrightarrow>
     (case r of None \<Rightarrow> True
      | Some _ \<Rightarrow> (\<exists>fm. unmarshal_fileMeta r = Some fm \<and> wf_fileMeta fm \<and> fm_Type fm = ''file'' \<and>
                    consec (revnos fm) \<and> 0 \<le> hd (revnos fm)))"

text \<open>
  What a file document sees, from whichever node: uploads, each running its callback on the current
  contents with metadata fresh from \<open>putUserFile\<close> (no user data, no history, revision 0); links to
  an existing blob (\<open>doLinkFile\<close>); changes of the user data (\<open>putMeta\<close>); deletions; and
  restores from a backup, which record the metadata the file had at some earlier moment.
\<close>

definition fresh_meta :: "fileMeta \<Rightarrow> bool" where
  "fresh_meta fm \<longleftrightarrow>
     mwf (fm_Headers fm) \<and> i64_range (fm_Length fm) \<and> fm_Userdata fm = None \<and>
     fm_Previous fm = [] \<and> fm_Revno fm = 0"

inductive file_step :: "raw option \<Rightarrow> raw option \<Rightarrow> bool" where
  upload: "\<lbrakk>fresh_meta fm; storeMeta_cb hdr revs fm r = (fm', UStore v);
            \<And>ex. unmarshal_fileMeta r = Some ex \<Longrightarrow> fm_Revno ex < 2 ^ 63 - 1\<rbrakk>
     \<Longrightarrow> file_step r (Some v)"
| link: "fresh_meta fm \<Longrightarrow> file_step r (Some (RJson (marshal_fileMeta fm)))"
| userdata: "unmarshal_fileMeta r = Some fm
     \<Longrightarrow> file_step r (Some (RJson (marshal_fileMeta (fm\<lparr>fm_Userdata := Some u\<rparr>))))"
| delete: "file_step r None"

inductive file_reachable :: "raw option \<Rightarrow> bool" where
  start: "file_reachable None"
| step: "file_reachable r \<Longrightarrow> file_step r r' \<Longrightarrow> file_reachable r'"
| restore: "file_reachable r \<Longrightarrow> unmarshal_fileMeta r = Some fm
     \<Longrightarrow> file_reachable (Some (RJson (marshal_fileMeta fm)))"

inductive_cases file_stepE: "file_step r r'"

section \<open>Concrete values\<close>

text \<open>A digest function and two files, for evaluating the definitions.\<close>

definition sha1_0 :: "string \<Rightarrow> string" where
  "sha1_0 s = replicate 20 (CHR 0x00)"

definition aFile :: fileMeta where
  "aFile = fileMeta_zero\<lparr>fm_OID := ''da39'', fm_Length := 5, fm_Headers := Some [], fm_Type := ''file''\<rparr>"

definition bFile :: fileMeta where
  "bFile = fileMeta_zero\<lparr>fm_OID := ''5ba9'', fm_Length := 7, fm_Headers := Some [], fm_Type := ''file''\<rparr>"

section \<open>Lemmas\<close>

subsection \<open>The JSON round trip\<close>

lemma key_eqs [json_simps]:
  "toLower ''headers'' = ''headers''" "toLower ''oid'' = ''oid''" "toLower ''length'' = ''length''"
  "toLower ''modified'' = ''modified''" "toLower ''revno'' = ''revno''" "toLower ''type'' = ''type''"
  "toLower ''ctype'' = ''ctype''" "toLower ''userdata'' = ''userdata''" "toLower ''name'' = ''name''"
  "toLower ''older'' = ''older''"
  by (simp_all add: toLower_def lowerChar_def)

lemma decAll_strs [simp]: "decAll decStr [] (map JStr vs) = Some vs"
  by (simp add: decAll_enc)

lemma decHeader_encHeader:
  "mwf h \<Longrightarrow> fld ''headers'' decHeader None [(''headers'', encHeader h)] = Some h"
  using decMap_encMap [of "\<lambda>vs. JArr (map JStr vs)" "decList decStr []" _ "[]"]
  by (cases h) (simp_all add: fld_def encHeader_def decHeader_def encMap_def)

lemma fld_headers:
  assumes "mwf h" and "jmember ''headers'' ms = (if encHeader h = JNull then None else Some (encHeader h))"
  shows "fld ''headers'' decHeader None ms = Some h"
  using decHeader_encHeader [OF assms(1)] assms(2) by (simp add: fld_def split: if_splits)

lemma prevMeta_roundtrip:
  assumes "wf_prevMeta p"
  shows "decPrevMeta (marshal_prevMeta p) = Some p"
proof -
  have h: "fld ''headers'' decHeader None
      [(''headers'', encHeader (pm_Headers p)), (''oid'', JStr (pm_OID p)),
           (''length'', JNum (pm_Length p)), (''modified'', JTime (pm_Modified p)),
           (''revno'', JNum (pm_Revno p))] = Some (pm_Headers p)"
    using assms by (intro fld_headers) (simp_all add: wf_prevMeta_def json_simps)
  show ?thesis
    using assms by (simp add: marshal_prevMeta_def fields_prevMeta_def h)
      (simp add: fld_def json_simps wf_prevMeta_def)
qed

lemma marshal_prevMeta_not_null [simp]: "marshal_prevMeta p \<noteq> JNull"
  by (simp add: marshal_prevMeta_def)

lemma older_roundtrip:
  "list_all wf_prevMeta ps \<Longrightarrow>
     decList decPrevMeta prevMeta_zero (JArr (map marshal_prevMeta ps)) = Some ps"
  by (simp, rule decAll_enc) (simp add: list_all_iff prevMeta_roundtrip)

text \<open>The members of an encoded file, one by one.\<close>

lemma marshal_fileMeta_members:
  assumes "marshal_fileMeta fm = JObj ms"
  shows "jmember ''name'' ms = (if fm_Name fm = [] then None else Some (JStr (fm_Name fm)))"
    and "jmember ''headers'' ms =
           (if encHeader (fm_Headers fm) = JNull then None else Some (encHeader (fm_Headers fm)))"
    and "jmember ''oid'' ms = Some (JStr (fm_OID fm))"
    and "jmember ''length'' ms = Some (JNum (fm_Length fm))"
    and "jmember ''userdata'' ms = (if fm_Userdata fm = Some JNull then None else fm_Userdata fm)"
    and "jmember ''modified'' ms = Some (JTime (fm_Modified fm))"
    and "jmember ''older'' ms =
           (if fm_Previous fm = [] then None else Some (JArr (map marshal_prevMeta (fm_Previous fm))))"
    and "jmember ''revno'' ms = Some (JNum (fm_Revno fm))"
    and "jmember ''type'' ms = Some (JStr ''file'')"
  using assms by (auto simp: marshal_fileMeta_def json_simps split: option.splits)

definition nonnull :: "json option \<Rightarrow> json option" where
  "nonnull u = (if u = Some JNull then None else u)"

lemma fileMeta_roundtrip_nonnull:
  assumes "wf_fileMeta (fm\<lparr>fm_Userdata := None\<rparr>)"
  shows "unmarshal_fileMeta (Some (RJson (marshal_fileMeta fm)))
       = Some (fm\<lparr>fm_Type := ''file'', fm_Userdata := nonnull (fm_Userdata fm)\<rparr>)"
proof -
  obtain ms where ms: "marshal_fileMeta fm = JObj ms"
    by (simp add: marshal_fileMeta_def)
  note mem = marshal_fileMeta_members [OF ms]
  have h: "fld ''headers'' decHeader None ms = Some (fm_Headers fm)"
    using assms by (intro fld_headers mem(2)) (simp add: wf_fileMeta_def)
  have o: "fld ''older'' (decList decPrevMeta prevMeta_zero) [] ms = Some (fm_Previous fm)"
    using assms mem(7) older_roundtrip [of "fm_Previous fm"] by (simp add: fld_def wf_fileMeta_def)
  have u: "fld ''userdata'' (\<lambda>j. Some (Some j)) None ms = Some (nonnull (fm_Userdata fm))"
    using mem(5) by (cases "fm_Userdata fm") (auto simp: fld_def nonnull_def)
  have n: "fld ''name'' decStr [] ms = Some (fm_Name fm)"
    using mem(1) by (simp add: fld_def)
  show ?thesis
    using assms by (simp add: unmarshal_fileMeta_def ms fields_fileMeta_def h o u n)
      (simp add: fld_def mem wf_fileMeta_def)
qed

lemma fileMeta_roundtrip:
  assumes "wf_fileMeta fm"
  shows "unmarshal_fileMeta (Some (RJson (marshal_fileMeta fm))) = Some (fm\<lparr>fm_Type := ''file''\<rparr>)"
  using assms fileMeta_roundtrip_nonnull [of fm] by (auto simp: wf_fileMeta_def nonnull_def)

lemma fileMeta_roundtrip_file:
  "wf_fileMeta fm \<Longrightarrow> fm_Type fm = ''file'' \<Longrightarrow>
     unmarshal_fileMeta (Some (RJson (marshal_fileMeta fm))) = Some fm"
  by (simp add: fileMeta_roundtrip)

subsection \<open>Decoded metadata is well-formed\<close>

lemma decInt_range: "decInt j = Some n \<Longrightarrow> i64_range n"
  by (cases j) (auto split: if_splits)

lemma fld_decInt_range: "fld n decInt 0 ms = Some x \<Longrightarrow> i64_range x"
  by (auto simp: fld_def dest: decInt_range split: option.splits)

lemma fld_decHeader_mwf: "fld n decHeader None ms = Some h \<Longrightarrow> mwf h"
  by (auto simp: fld_def decHeader_def mwf_def dest: decMap_mwf split: option.splits)

lemma jmember_not_null: "jmember n ms = Some j \<Longrightarrow> j \<noteq> JNull"
  by (induction n ms rule: jmember.induct) (auto split: option.splits if_splits)

lemma fields_prevMeta_wf: "fields_prevMeta ms = Some p \<Longrightarrow> wf_prevMeta p"
  by (auto simp: fields_prevMeta_def wf_prevMeta_def bind_eq_Some_conv
      dest: fld_decInt_range fld_decHeader_mwf)

lemma decPrevMeta_wf: "decPrevMeta j = Some p \<Longrightarrow> wf_prevMeta p"
  by (cases j) (auto dest: fields_prevMeta_wf)

lemma decAll_prevMeta_wf: "decAll decPrevMeta prevMeta_zero vs = Some ps \<Longrightarrow> list_all wf_prevMeta ps"
proof (induction vs arbitrary: ps)
  case (Cons v vs)
  have "wf_prevMeta prevMeta_zero"
    by (simp add: wf_prevMeta_def prevMeta_zero_def mwf_def)
  with Cons show ?case
    by (auto split: option.splits if_splits dest: decPrevMeta_wf)
qed simp

lemma unmarshal_fileMeta_wf:
  assumes "unmarshal_fileMeta r = Some fm"
  shows "wf_fileMeta fm"
proof -
  obtain ms where "fields_fileMeta ms = Some fm"
    using assms by (auto simp: unmarshal_fileMeta_def unmarshal_def split: option.splits raw.splits json.splits)
  then obtain h l u ps r where
    h: "fld ''headers'' decHeader None ms = Some h" and
    l: "fld ''length'' decInt 0 ms = Some l" and
    u: "fld ''userdata'' (\<lambda>j. Some (Some j)) None ms = Some u" and
    ps: "fld ''older'' (decList decPrevMeta prevMeta_zero) [] ms = Some ps" and
    r: "fld ''revno'' decInt 0 ms = Some r" and
    fm: "fm_Headers fm = h" "fm_Length fm = l" "fm_Userdata fm = u" "fm_Previous fm = ps" "fm_Revno fm = r"
    by (auto simp: fields_fileMeta_def bind_eq_Some_conv)
  have "u \<noteq> Some JNull"
    using u by (auto simp: fld_def dest: jmember_not_null split: option.splits)
  moreover have "list_all wf_prevMeta ps"
  proof (cases "jmember ''older'' ms")
    case (Some j)
    with ps show ?thesis by (cases j) (auto simp: fld_def dest: decAll_prevMeta_wf)
  qed (use ps in \<open>simp add: fld_def\<close>)
  ultimately show ?thesis
    using fld_decHeader_mwf [OF h] fld_decInt_range [OF l] fld_decInt_range [OF r] fm
    by (simp add: wf_fileMeta_def)
qed

subsection \<open>Names\<close>

lemma length_shortName:
  assumes "sha1_ok sha1"
  shows "length (shortName sha1 k) < maxFilename"
  using assms by (simp add: shortName_def sha1_ok_def maxFilename_def truncateKeyLen_def)

lemma shortName_short: "length k < maxFilename \<Longrightarrow> shortName sha1 k = k"
  by (simp add: shortName_def)

lemma shortName_long: "sha1_ok sha1 \<Longrightarrow> \<not> length k < maxFilename \<Longrightarrow> shortName sha1 k \<noteq> k"
  using length_shortName [of sha1 k] by auto

lemma shortName_idem:
  "sha1_ok sha1 \<Longrightarrow> shortName sha1 (shortName sha1 k) = shortName sha1 k"
  using length_shortName [of sha1 k] by (simp add: shortName_def)

lemma shortName_eq_iff:
  assumes "k = [] \<or> hd k \<noteq> CHR ''/''" and "k' = [] \<or> hd k' \<noteq> CHR ''/''"
  shows "shortName sha1 k = shortName sha1 k' \<longleftrightarrow>
     k = k' \<or> (maxFilename \<le> length k \<and> maxFilename \<le> length k' \<and> sha1 k = sha1 k' \<and>
        take truncateKeyLen k = take truncateKeyLen k')"
proof -
  have pre: "k \<noteq> CHR ''/'' # x" "k' \<noteq> CHR ''/'' # x" for x
    using assms by auto
  have tl: "maxFilename \<le> length s \<Longrightarrow> length (take truncateKeyLen s) = 32" for s :: string
    by (simp add: maxFilename_def truncateKeyLen_def)
  show ?thesis
  proof (cases "length k < maxFilename \<or> length k' < maxFilename")
    case True
    then show ?thesis by (auto simp: shortName_def pre pre [symmetric])
  next
    case False
    then have "length (take truncateKeyLen k) = length (take truncateKeyLen k')"
      using tl [of k] tl [of k'] by simp
    with False show ?thesis
      by (auto simp: shortName_def hexEncode_inject not_less)
  qed
qed

subsection \<open>Preconditions\<close>

lemma quoted_contains_iff:
  assumes "CHR 0x22 \<notin> set a"
  shows "containsStr (quoted a) (quoted b) \<longleftrightarrow> a = b"
proof
  assume "containsStr (quoted a) (quoted b)"
  then obtain x y where e: "quoted a = x @ quoted b @ y"
    by (auto simp: containsStr_iff)
  then have "count_list (quoted a) (CHR 0x22) = count_list (x @ quoted b @ y) (CHR 0x22)" by simp
  moreover have "count_list a (CHR 0x22) = 0"
    using assms by (simp add: count_list_0_iff)
  ultimately have c: "count_list x (CHR 0x22) + count_list b (CHR 0x22) + count_list y (CHR 0x22) = 0"
    by (simp add: quoted_def)
  have "x = []"
  proof (cases x)
    case (Cons q x')
    with e have "q = CHR 0x22" by (simp add: quoted_def)
    with c Cons show ?thesis by simp
  qed simp
  moreover have "y = []"
  proof (cases y rule: rev_cases)
    case (snoc y' q)
    with e have "last (quoted a) = q" by (simp add: quoted_def)
    then have "q = CHR 0x22" by (simp add: quoted_def)
    with c snoc show ?thesis by simp
  qed simp
  ultimately show "a = b" using e by (simp add: quoted_def)
qed (simp add: containsStr_iff, metis append_Nil append_Nil2)

lemma quoted_neq_star [simp]: "quoted a \<noteq> ''*''"
  by (simp add: quoted_def)

lemma quoted_neq_Nil [simp]: "quoted a \<noteq> []"
  by (simp add: quoted_def)

subsection \<open>The store callback\<close>

definition keep_revs :: "int \<Rightarrow> prevMeta list \<Rightarrow> prevMeta list" where
  "keep_revs revs ps =
     (if revs \<noteq> -1 \<and> int (length ps) - revs > 0 then drop (nat (int (length ps) - revs)) ps else ps)"

lemma length_keep_revs: "0 < revs \<Longrightarrow> int (length (keep_revs revs ps)) \<le> revs"
  by (simp add: keep_revs_def)

lemma keep_revs_suffix: "\<exists>qs. ps = qs @ keep_revs revs ps"
proof (cases "revs \<noteq> -1 \<and> int (length ps) - revs > 0")
  case True
  then have "ps = take (nat (int (length ps) - revs)) ps @ keep_revs revs ps"
    by (simp add: keep_revs_def)
  then show ?thesis ..
qed (auto simp: keep_revs_def)

lemma last_keep_revs:
  assumes "revs = -1 \<or> 0 < revs" and "ps \<noteq> []"
  shows "keep_revs revs ps \<noteq> []" "last (keep_revs revs ps) = last ps"
  using assms by (auto simp: keep_revs_def)

lemma list_all_keep_revs: "list_all P ps \<Longrightarrow> list_all P (keep_revs revs ps)"
  using keep_revs_suffix [of ps revs] by (metis list_all_append)

lemma storeMeta_cb_absent:
  assumes "unmarshal_fileMeta r = None" "shouldStoreMeta hdr False fileMeta_zero"
  shows "storeMeta_cb hdr revs fm r = (fm, UStore (RJson (marshal_fileMeta fm)))"
  using assms by (simp add: storeMeta_cb_def)

definition stored_meta :: "int \<Rightarrow> fileMeta \<Rightarrow> fileMeta \<Rightarrow> fileMeta" where
  "stored_meta revs ex fm = fm\<lparr>fm_Userdata := fm_Userdata ex, fm_Revno := i64 (fm_Revno ex + 1),
     fm_Previous := (if revs = -1 \<or> revs > 0
        then keep_revs revs (fm_Previous ex @ [prev_of ex]) else fm_Previous fm)\<rparr>"

lemma storeMeta_cb_existing:
  assumes "unmarshal_fileMeta r = Some ex" "shouldStoreMeta hdr True ex"
  shows "storeMeta_cb hdr revs fm r
       = (stored_meta revs ex fm, UStore (RJson (marshal_fileMeta (stored_meta revs ex fm))))"
  using assms by (simp add: storeMeta_cb_def Let_def keep_revs_def stored_meta_def)

lemma storeMeta_cb_cases:
  obtains (refused) "storeMeta_cb hdr revs fm r = (fm, UErr EUploadPrecondition)"
  | (absent) "unmarshal_fileMeta r = None" "shouldStoreMeta hdr False fileMeta_zero"
      "storeMeta_cb hdr revs fm r = (fm, UStore (RJson (marshal_fileMeta fm)))"
  | (existing) ex where "unmarshal_fileMeta r = Some ex" "shouldStoreMeta hdr True ex"
proof (cases "unmarshal_fileMeta r")
  case None
  then show thesis
    by (cases "shouldStoreMeta hdr False fileMeta_zero")
      (auto simp: storeMeta_cb_def intro: refused absent)
next
  case (Some ex)
  then show thesis
    by (cases "shouldStoreMeta hdr True ex") (auto simp: storeMeta_cb_def intro: refused existing)
qed

lemma wf_prev_of: "wf_fileMeta ex \<Longrightarrow> wf_prevMeta (prev_of ex)"
  by (simp add: wf_fileMeta_def wf_prevMeta_def prev_of_def)

text \<open>The fields of the captured metadata that no invocation changes.\<close>

definition same_upload :: "fileMeta \<Rightarrow> fileMeta \<Rightarrow> bool" where
  "same_upload fm fm' \<longleftrightarrow> fm_Name fm' = fm_Name fm \<and> fm_Headers fm' = fm_Headers fm \<and>
     fm_OID fm' = fm_OID fm \<and> fm_Length fm' = fm_Length fm \<and> fm_Modified fm' = fm_Modified fm"

lemma storeMeta_cb_keeps:
  assumes "wf_fileMeta fm"
  shows "same_upload fm (fst (storeMeta_cb hdr revs fm r)) \<and> wf_fileMeta (fst (storeMeta_cb hdr revs fm r))"
proof (cases rule: storeMeta_cb_cases [of hdr revs fm r])
  case (existing ex)
  have ex: "wf_fileMeta ex" using existing(1) by (rule unmarshal_fileMeta_wf)
  then have "list_all wf_prevMeta (keep_revs revs (fm_Previous ex @ [prev_of ex]))"
    by (intro list_all_keep_revs) (simp add: wf_fileMeta_def wf_prev_of)
  with ex assms show ?thesis
    by (simp add: storeMeta_cb_existing [OF existing] stored_meta_def same_upload_def wf_fileMeta_def)
qed (use assms in \<open>simp_all add: same_upload_def\<close>)

lemma storeMeta_cb_writes:
  assumes "writes (snd (storeMeta_cb hdr revs fm r))"
  shows "snd (storeMeta_cb hdr revs fm r)
       = UStore (RJson (marshal_fileMeta (fst (storeMeta_cb hdr revs fm r))))"
proof (cases rule: storeMeta_cb_cases [of hdr revs fm r])
  case refused
  with assms show ?thesis by (simp add: writes_def)
next
  case (existing ex)
  then show ?thesis by (simp add: storeMeta_cb_existing [OF existing])
qed simp

text \<open>
  The store callback meets the contract of an update callback: the captured metadata stays that of the
  upload, and what is committed is an encoding of it.
\<close>

definition stored_upload :: "fileMeta \<Rightarrow> raw option \<Rightarrow> raw option \<Rightarrow> bool" where
  "stored_upload fm x y \<longleftrightarrow>
     (\<exists>fm'. y = Some (RJson (marshal_fileMeta fm')) \<and> same_upload fm fm' \<and> wf_fileMeta fm')"

lemma same_upload_trans: "same_upload a b \<Longrightarrow> same_upload b c \<Longrightarrow> same_upload a c"
  by (simp add: same_upload_def)

interpretation store_cb: doc_callback "storeMeta_cb hdr revs"
  "\<lambda>s. same_upload fm s \<and> wf_fileMeta s" "stored_upload fm"
proof unfold_locales
  fix s x
  assume s: "same_upload fm s \<and> wf_fileMeta s"
  with storeMeta_cb_keeps [of s hdr revs x]
  show k: "same_upload fm (fst (storeMeta_cb hdr revs s x)) \<and> wf_fileMeta (fst (storeMeta_cb hdr revs s x))"
    by (blast intro: same_upload_trans)
  assume "writes (snd (storeMeta_cb hdr revs s x))"
  from storeMeta_cb_writes [OF this] k
  show "stored_upload fm x (contents_after (snd (storeMeta_cb hdr revs s x)))"
    by (auto simp: stored_upload_def contents_after_def)
qed

subsection \<open>Revisions\<close>

lemma consec_append:
  "consec (xs @ [x, y]) \<longleftrightarrow> consec (xs @ [x]) \<and> y = x + 1"
  by (induction xs rule: consec.induct) auto

lemma consec_suffix: "consec (xs @ ys) \<Longrightarrow> consec ys"
  by (induction xs rule: consec.induct) (auto elim: consec.elims)

lemma consec_hd_le: "consec (x # xs) \<Longrightarrow> y \<in> set xs \<Longrightarrow> x < y"
  by (induction "x # xs" arbitrary: x xs rule: consec.induct) fastforce+

lemma consec_nth: "consec xs \<Longrightarrow> i < length xs \<Longrightarrow> xs ! i = hd xs + int i"
proof (induction xs arbitrary: i rule: consec.induct)
  case (3 x y xs)
  then show ?case by (cases i) auto
qed auto

lemma revnos_store:
  assumes "consec (revnos ex)" and "0 \<le> hd (revnos ex)"
    and ps_def: "ps = keep_revs revs (fm_Previous ex @ [prev_of ex])"
  shows "consec (map pm_Revno ps @ [fm_Revno ex + 1]) \<and> 0 \<le> hd (map pm_Revno ps @ [fm_Revno ex + 1])"
proof -
  obtain qs where q: "fm_Previous ex @ [prev_of ex] = qs @ ps"
    using keep_revs_suffix ps_def by metis
  have all: "map pm_Revno qs @ map pm_Revno ps = revnos ex"
    using arg_cong [OF q, of "map pm_Revno"] by (simp add: revnos_def prev_of_def)
  have "consec (map pm_Revno (fm_Previous ex) @ [fm_Revno ex, fm_Revno ex + 1])"
    using assms(1) by (simp add: consec_append revnos_def)
  then have "consec (revnos ex @ [fm_Revno ex + 1])" by (simp add: revnos_def)
  then have "consec (map pm_Revno qs @ map pm_Revno ps @ [fm_Revno ex + 1])"
    by (simp add: all [symmetric])
  moreover have nn: "\<forall>x \<in> set (revnos ex). 0 \<le> x"
    using assms(1,2) by (cases "revnos ex") (auto dest: consec_hd_le)
  moreover have "0 \<le> fm_Revno ex" using nn by (simp add: revnos_def)
  moreover have "\<forall>x \<in> set (map pm_Revno ps). 0 \<le> x" using nn all by (metis Un_iff set_append)
  ultimately show ?thesis by (cases ps) (auto dest: consec_suffix)
qed

lemma fresh_doc_ok:
  assumes "fresh_meta fm"
  shows "file_doc_ok (Some (RJson (marshal_fileMeta fm)))"
proof -
  have "wf_fileMeta fm" using assms by (simp add: fresh_meta_def wf_fileMeta_def)
  then show ?thesis
    using assms fileMeta_roundtrip [of fm]
    by (auto simp: file_doc_ok_def revnos_def fresh_meta_def wf_fileMeta_def)
qed

lemma file_doc_okE:
  assumes "file_doc_ok r" and "unmarshal_fileMeta r = Some fm"
  shows "wf_fileMeta fm" "fm_Type fm = ''file''" "consec (revnos fm)" "0 \<le> hd (revnos fm)"
  using assms by (auto simp: file_doc_ok_def unmarshal_fileMeta_def split: option.splits)

lemma upload_doc_ok:
  assumes "file_doc_ok r" and "fresh_meta fm" and "storeMeta_cb hdr revs fm r = (fm', UStore v)"
    and "\<And>ex. unmarshal_fileMeta r = Some ex \<Longrightarrow> fm_Revno ex < 2 ^ 63 - 1"
  shows "file_doc_ok (Some v)"
proof (cases rule: storeMeta_cb_cases [of hdr revs fm r])
  case (existing ex)
  note ok = file_doc_okE [OF assms(1) existing(1)]
  have v: "v = RJson (marshal_fileMeta fm')"
    using assms(3) storeMeta_cb_existing [OF existing, of revs fm] by auto
  have "wf_fileMeta fm" using assms(2) by (simp add: fresh_meta_def wf_fileMeta_def)
  then have wf: "wf_fileMeta fm'"
    using storeMeta_cb_keeps [of fm hdr revs r] assms(3) by simp
  have "i64_range (fm_Revno ex)" using ok(1) by (simp add: wf_fileMeta_def)
  then have r: "i64 (fm_Revno ex + 1) = fm_Revno ex + 1"
    using assms(4) [OF existing(1)] by (intro i64_id) (simp add: i64_range_def)
  have nn: "0 \<le> fm_Revno ex"
    using ok(3,4) consec_hd_le by (cases "fm_Previous ex") (fastforce simp: revnos_def)+
  have "consec (revnos fm') \<and> 0 \<le> hd (revnos fm')"
    using assms(2,3) revnos_store [OF ok(3,4) refl, of revs] nn
      storeMeta_cb_existing [OF existing, of revs fm]
    by (auto simp: revnos_def fresh_meta_def r stored_meta_def)
  then show ?thesis
    using fileMeta_roundtrip [OF wf] wf v
    by (simp add: file_doc_ok_def revnos_def wf_fileMeta_def)
qed (use assms(3) fresh_doc_ok [OF assms(2)] in auto)

lemma userdata_doc_ok:
  assumes "file_doc_ok r" and "unmarshal_fileMeta r = Some fm"
  shows "file_doc_ok (Some (RJson (marshal_fileMeta (fm\<lparr>fm_Userdata := Some u\<rparr>))))"
proof -
  note ok = file_doc_okE [OF assms]
  let ?fm = "fm\<lparr>fm_Userdata := Some u\<rparr>"
  have "wf_fileMeta (?fm\<lparr>fm_Userdata := None\<rparr>)" using ok(1) by (simp add: wf_fileMeta_def)
  from fileMeta_roundtrip_nonnull [OF this] show ?thesis
    using ok by (simp add: file_doc_ok_def revnos_def wf_fileMeta_def nonnull_def)
qed

lemma file_step_doc_ok: "file_step r r' \<Longrightarrow> file_doc_ok r \<Longrightarrow> file_doc_ok r'"
  by (erule file_stepE) (auto intro: upload_doc_ok fresh_doc_ok userdata_doc_ok simp: file_doc_ok_def [of None])

lemma file_reachable_ok: "file_reachable r \<Longrightarrow> file_doc_ok r"
proof (induction rule: file_reachable.induct)
  case (restore r fm)
  note ok = file_doc_okE [OF restore.IH restore.hyps(2)]
  then show ?case
    using fileMeta_roundtrip_file [of fm] by (auto simp: file_doc_ok_def)
qed (auto simp: file_doc_ok_def [of None] intro: file_step_doc_ok)
section \<open>Properties\<close>

lemma sha1_0_ok [simp]: "sha1_ok sha1_0"
  by (simp add: sha1_ok_def sha1_0_def)

lemma storeMeta_stored:
  assumes "bucket_ok cb st" and "sha1_ok sha1" and "wf_fileMeta fm"
    and "storeMeta cb sha1 fn ex fm revs hdr d = (UpdOk, d')"
  shows "(\<exists>fm'. unmarshal_fileMeta (st d' (shortName sha1 fn)) = Some fm' \<and>
       fm_OID fm' = fm_OID fm \<and> fm_Length fm' = fm_Length fm \<and> fm_Headers fm' = fm_Headers fm \<and>
       fm_Modified fm' = fm_Modified fm \<and> fm_Type fm' = ''file'' \<and>
       fm_Name fm' = (if length fn < maxFilename then fm_Name fm else fn)) \<and>
     (\<forall>k. k \<noteq> shortName sha1 fn \<longrightarrow> st d' k = st d k)"
proof -
  let ?k = "shortName sha1 fn"
  let ?fm = "if ?k \<noteq> fn then fm\<lparr>fm_Name := fn\<rparr> else fm"
  obtain h where u: "cbUpdate cb ?k ex (closure (storeMeta_cb hdr revs) ?fm) d = (h, UpdOk, d')"
    using assms(4) by (auto simp: storeMeta_def Let_def split: prod.splits)
  have c: "same_upload ?fm ?fm \<and> wf_fileMeta ?fm"
    using assms(3) by (simp add: same_upload_def wf_fileMeta_def)
  note s = store_cb.update_success [OF bucket_okD(5) [OF assms(1)] c u]
  from s(2) obtain fm' where fm': "st d' ?k = Some (RJson (marshal_fileMeta fm'))"
    "same_upload ?fm fm'" "wf_fileMeta fm'" by (auto simp: stored_upload_def)
  have "fm_Name ?fm = (if length fn < maxFilename then fm_Name fm else fn)"
    using shortName_long [OF assms(2), of fn] by (simp add: shortName_short)
  moreover have "same_upload fm (?fm\<lparr>fm_Name := fm_Name fm\<rparr>)" by (simp add: same_upload_def)
  ultimately show ?thesis
    using fm' s(3) by (simp add: fileMeta_roundtrip same_upload_def)
qed

text \<open>
  C5: an upload whose update succeeded, whatever other nodes did meanwhile, leaves under the short key
  of the file exactly one decodable metadata document, with the object id, length, headers and time of
  this upload and type \<open>file\<close>; a long name is recorded in it; no other document changes.
\<close>

theorem storeMeta_success:
  assumes "bucket_ok cb st" and "sha1_ok sha1" and "wf_fileMeta fm"
    and "storeMeta cb sha1 fn ex fm revs hdr d = (UpdOk, d')"
  shows "(\<exists>fm'. unmarshal_fileMeta (st d' (shortName sha1 fn)) = Some fm' \<and>
       fm_OID fm' = fm_OID fm \<and> fm_Length fm' = fm_Length fm \<and> fm_Headers fm' = fm_Headers fm \<and>
       fm_Modified fm' = fm_Modified fm \<and> fm_Type fm' = ''file'' \<and>
       fm_Name fm' = (if length fn < maxFilename then fm_Name fm else fn)) \<and>
     (\<forall>k. k \<noteq> shortName sha1 fn \<longrightarrow> st d' k = st d k)"
  by (rule storeMeta_stored [OF assms])

theorem storeMeta_success_witness:
  "\<exists>d' fm'. storeMeta (memBucket noView) sha1_0 ''a'' 0 aFile 3 None [] = (UpdOk, d') \<and>
     unmarshal_fileMeta (map_of d' ''a'') = Some fm' \<and> fm_OID fm' = ''da39''"
proof -
  let ?d' = "snd (storeMeta (memBucket noView) sha1_0 ''a'' 0 aFile 3 None [])"
  have r: "storeMeta (memBucket noView) sha1_0 ''a'' 0 aFile 3 None [] = (UpdOk, ?d')"
    by code_simp
  have "shortName sha1_0 ''a'' = ''a''" "wf_fileMeta aFile" "fm_OID aFile = ''da39''" by code_simp+
  with r storeMeta_success [OF memBucket_ok sha1_0_ok _ r] show ?thesis by metis
qed

text \<open>
  an upload over an existing file of which it keeps \<open>revs\<close> older revisions stores a document with
  the next revision number and the user data of the old one. Its history is the old history with the
  old revision appended, all of it when \<open>revs\<close> is -1, at most the last \<open>revs\<close> entries when it is
  positive (the replaced revision always among them), and empty otherwise.
\<close>

theorem storeMeta_history:
  assumes "unmarshal_fileMeta r = Some old" and "shouldStoreMeta hdr True old"
    and "fm_Revno old < 2 ^ 63 - 1" and "fresh_meta fm"
  shows "\<exists>v fm'. closure (storeMeta_cb hdr revs) fm [r] = UStore v \<and>
     unmarshal_fileMeta (Some v) = Some fm' \<and> fm_OID fm' = fm_OID fm \<and>
     fm_Revno fm' = fm_Revno old + 1 \<and> fm_Userdata fm' = fm_Userdata old \<and>
     (revs = -1 \<longrightarrow> fm_Previous fm' = fm_Previous old @ [prev_of old]) \<and>
     (0 < revs \<longrightarrow> int (length (fm_Previous fm')) = min revs (int (length (fm_Previous old)) + 1) \<and>
        (\<exists>dropped. fm_Previous old @ [prev_of old] = dropped @ fm_Previous fm') \<and>
        last (fm_Previous fm') = prev_of old) \<and>
     (revs \<noteq> -1 \<and> revs \<le> 0 \<longrightarrow> fm_Previous fm' = [])"
proof -
  let ?fm = "stored_meta revs old fm"
  have c: "closure (storeMeta_cb hdr revs) fm [r] = UStore (RJson (marshal_fileMeta ?fm))"
    by (simp add: storeMeta_cb_existing [OF assms(1,2)])
  have wf: "wf_fileMeta ?fm"
    using storeMeta_cb_keeps [of fm hdr revs r] assms(4) storeMeta_cb_existing [OF assms(1,2), of revs fm]
    by (simp add: fresh_meta_def wf_fileMeta_def)
  have "i64 (fm_Revno old + 1) = fm_Revno old + 1"
    using unmarshal_fileMeta_wf [OF assms(1)] assms(3)
    by (intro i64_id) (simp add: i64_range_def wf_fileMeta_def)
  moreover have "0 < revs \<Longrightarrow> int (length (keep_revs revs (fm_Previous old @ [prev_of old])))
      = min revs (int (length (fm_Previous old)) + 1)"
    by (auto simp: keep_revs_def)
  moreover note keep_revs_suffix [of "fm_Previous old @ [prev_of old]" revs]
    last_keep_revs(2) [of revs "fm_Previous old @ [prev_of old]"]
  ultimately have "fm_Revno ?fm = fm_Revno old + 1 \<and> fm_Userdata ?fm = fm_Userdata old \<and>
     (revs = -1 \<longrightarrow> fm_Previous ?fm = fm_Previous old @ [prev_of old]) \<and>
     (0 < revs \<longrightarrow> int (length (fm_Previous ?fm)) = min revs (int (length (fm_Previous old)) + 1) \<and>
        (\<exists>dropped. fm_Previous old @ [prev_of old] = dropped @ fm_Previous ?fm) \<and>
        last (fm_Previous ?fm) = prev_of old) \<and>
     (revs \<noteq> -1 \<and> revs \<le> 0 \<longrightarrow> fm_Previous ?fm = [])"
    using assms(4) by (auto simp: stored_meta_def fresh_meta_def keep_revs_def)
  then show ?thesis using c fileMeta_roundtrip [OF wf] by (simp add: stored_meta_def)
qed

theorem storeMeta_history_witness:
  "\<exists>v fm'. closure (storeMeta_cb None 1) bFile
       [Some (RJson (marshal_fileMeta (aFile\<lparr>fm_Revno := 4, fm_Previous := [prev_of bFile]\<rparr>)))] = UStore v \<and>
     unmarshal_fileMeta (Some v) = Some fm' \<and> fm_Revno fm' = 5 \<and> int (length (fm_Previous fm')) = 1"
proof -
  let ?old = "aFile\<lparr>fm_Revno := 4, fm_Previous := [prev_of bFile]\<rparr>"
  have "unmarshal_fileMeta (Some (RJson (marshal_fileMeta ?old))) = Some ?old"
    by (rule fileMeta_roundtrip_file) code_simp+
  moreover have "shouldStoreMeta None True ?old" "fm_Revno ?old < 2 ^ 63 - 1" "fresh_meta bFile"
    by code_simp+
  moreover have "fm_Revno ?old = 4" "length (fm_Previous ?old) = 1" by simp_all
  ultimately show ?thesis
    using storeMeta_history [of "Some (RJson (marshal_fileMeta ?old))" ?old None bFile 1] by auto
qed


text \<open>
  C8: \<open>If-Match\<close> with one entity tag makes an upload a compare-and-swap: the callback stores exactly
  when the document it is given decodes to a file with that object id. In particular, of two such
  uploads that race, the one that is retried after the other committed a different object is refused.
\<close>

theorem ifMatch_compare_and_swap:
  assumes "hdrGet hdr ''If-Match'' = quoted oid" and "hdrGet hdr ''If-None-Match'' = []"
    and "CHR 0x22 \<notin> set oid" and "h \<noteq> []"
  shows "writes (closure (storeMeta_cb hdr revs) fm h) \<longleftrightarrow>
     (\<exists>old. unmarshal_fileMeta (last h) = Some old \<and> fm_OID old = oid)"
proof -
  obtain s where s: "closure (storeMeta_cb hdr revs) fm h = snd (storeMeta_cb hdr revs s (last h))"
    using closure_last [OF assms(4), of "storeMeta_cb hdr revs" fm] by blast
  have "shouldStoreMeta hdr True old \<longleftrightarrow> fm_OID old = oid" "\<not> shouldStoreMeta hdr False old" for old
    using assms(1-3) by (auto simp: shouldStoreMeta_def quoted_contains_iff)
  then show ?thesis
    unfolding s by (cases "unmarshal_fileMeta (last h)") (simp_all add: storeMeta_cb_def Let_def writes_def)
qed

theorem ifMatch_compare_and_swap_witness:
  "\<not> writes (closure (storeMeta_cb (Some [(''If-Match'', [quoted ''da39''])]) 0) bFile
       [Some (RJson (marshal_fileMeta aFile)), Some (RJson (marshal_fileMeta bFile))])"
proof -
  have "hdrGet (Some [(''If-Match'', [quoted ''da39''])]) ''If-Match'' = quoted ''da39''"
    "hdrGet (Some [(''If-Match'', [quoted ''da39''])]) ''If-None-Match'' = []"
    "CHR 0x22 \<notin> set ''da39''" by code_simp+
  moreover have "unmarshal_fileMeta (Some (RJson (marshal_fileMeta bFile))) = Some bFile"
    by (rule fileMeta_roundtrip_file) code_simp+
  moreover have "fm_OID bFile \<noteq> ''da39''" by code_simp
  ultimately show ?thesis
    using ifMatch_compare_and_swap [of "Some [(''If-Match'', [quoted ''da39''])]" "''da39''"
        "[Some (RJson (marshal_fileMeta aFile)), Some (RJson (marshal_fileMeta bFile))]" 0 bFile]
    by simp
qed


text \<open>
  a metadata record survives the bucket: decoding what \<open>MarshalJSON\<close> encodes gives it back, history
  and headers included, with its type set to \<open>file\<close>.
\<close>

theorem fileMeta_json_roundtrip:
  assumes "wf_fileMeta fm"
  shows "unmarshal_fileMeta (Some (RJson (marshal_fileMeta fm))) = Some (fm\<lparr>fm_Type := ''file''\<rparr>)"
  by (rule fileMeta_roundtrip [OF assms])

theorem fileMeta_json_roundtrip_witness:
  "unmarshal_fileMeta (Some (RJson (marshal_fileMeta (aFile\<lparr>fm_Previous := [prev_of bFile]\<rparr>))))
     = Some (aFile\<lparr>fm_Previous := [prev_of bFile], fm_Type := ''file''\<rparr>)"
proof -
  have "wf_fileMeta (aFile\<lparr>fm_Previous := [prev_of bFile]\<rparr>)" by code_simp
  from fileMeta_json_roundtrip [OF this] show ?thesis by simp
qed

text \<open>
  C40: the key of a file fits the bucket's limit whatever the length of its path, shortening a shortened
  key changes nothing, and two paths that do not begin with a slash share a key only if they are equal
  or both long, with the same first 32 bytes and the same digest.
\<close>

theorem shortName_keys:
  assumes "sha1_ok sha1" and "\<not> hasPrefix p ''/''" and "\<not> hasPrefix q ''/''"
  shows "length (shortName sha1 p) < 250 \<and> shortName sha1 (shortName sha1 p) = shortName sha1 p \<and>
     (shortName sha1 p = shortName sha1 q \<longleftrightarrow> p = q \<or>
        (250 \<le> length p \<and> 250 \<le> length q \<and> take 32 p = take 32 q \<and> sha1 p = sha1 q))"
proof -
  have "p = [] \<or> hd p \<noteq> CHR ''/''" "q = [] \<or> hd q \<noteq> CHR ''/''"
    using assms(2,3) by (cases p; cases q; simp add: hasPrefix_iff)+
  from shortName_eq_iff [OF this, of sha1] length_shortName [OF assms(1), of p] shortName_idem [OF assms(1), of p]
  show ?thesis by (auto simp: maxFilename_def truncateKeyLen_def)
qed

theorem shortName_keys_witness:
  "shortName sha1_0 (replicate 300 (CHR ''a'')) \<noteq> shortName sha1_0 (replicate 300 (CHR ''b''))"
proof -
  have "\<not> hasPrefix (replicate 300 (CHR ''a'')) ''/''" "\<not> hasPrefix (replicate 300 (CHR ''b'')) ''/''"
    by code_simp+
  from shortName_keys [OF sha1_0_ok this] show ?thesis by simp
qed

text \<open>
  a retry does not start afresh. When the file is deleted between two attempts of an update, the
  second attempt stores the captured metadata as the first one left it: the user data, the revision
  number and the history of the deleted file, not those of a new one.
\<close>

theorem storeMeta_retry_stale:
  assumes "unmarshal_fileMeta r = Some old" and "shouldStoreMeta hdr True old"
    and "shouldStoreMeta hdr False fileMeta_zero" and "revs = -1 \<or> 0 < revs"
  shows "closure (storeMeta_cb hdr revs) fm [None] = UStore (RJson (marshal_fileMeta fm)) \<and>
     (\<exists>fm'. closure (storeMeta_cb hdr revs) fm [r, None] = UStore (RJson (marshal_fileMeta fm')) \<and>
        fm_Userdata fm' = fm_Userdata old \<and> fm_Revno fm' = i64 (fm_Revno old + 1) \<and>
        last (fm_Previous fm') = prev_of old)"
proof -
  have n: "unmarshal_fileMeta None = None" by (simp add: unmarshal_fileMeta_def)
  have "last (keep_revs revs (fm_Previous old @ [prev_of old])) = prev_of old"
    using last_keep_revs(2) [OF assms(4)] by simp
  then show ?thesis
    using assms(4)
    by (auto simp: closure_def storeMeta_cb_existing [OF assms(1,2)] storeMeta_cb_absent [OF n assms(3)]
        stored_meta_def intro!: exI [of _ "stored_meta revs old fm"])
qed

theorem storeMeta_retry_stale_witness:
  "\<exists>fm'. closure (storeMeta_cb None 1) bFile [Some (RJson (marshal_fileMeta aFile)), None]
       = UStore (RJson (marshal_fileMeta fm')) \<and> last (fm_Previous fm') = prev_of aFile"
proof -
  have "unmarshal_fileMeta (Some (RJson (marshal_fileMeta aFile))) = Some aFile"
    by (rule fileMeta_roundtrip_file) code_simp+
  moreover have "shouldStoreMeta None True aFile" "shouldStoreMeta None False fileMeta_zero" by code_simp+
  ultimately show ?thesis
    using storeMeta_retry_stale [of "Some (RJson (marshal_fileMeta aFile))" aFile None 1 bFile] by auto
qed

end
