(* ===== verification/Views.thy ===== *)
theory Views
  imports Couchbase "HOL-Library.List_Lexorder" "HOL-Library.Char_ord"
begin

text \<open>
  Paging through the views whose keys are arrays of strings. What a view answers is documented behaviour
  of the database: the rows its map function emits for the documents of the bucket, ordered by key, from
  a start key on, at most so many. The order of strings is the collation of the database, a parameter of
  which \<open>collation_ok\<close> states what the code relies on; arrays are compared element by element and a
  proper prefix is smaller. The last section computes such answers for the bucket in memory.
\<close>

section \<open>Keys\<close>

fun keyLess :: "(string \<Rightarrow> string \<Rightarrow> bool) \<Rightarrow> string list \<Rightarrow> string list \<Rightarrow> bool" where
  "keyLess lt xs [] = False"
| "keyLess lt [] (y # ys) = True"
| "keyLess lt (x # xs) (y # ys) = (lt x y \<or> (x = y \<and> keyLess lt xs ys))"

definition collation_ok :: "(string \<Rightarrow> string \<Rightarrow> bool) \<Rightarrow> bool" where
  "collation_ok lt \<longleftrightarrow>
     (\<forall>x. \<not> lt x x) \<and> (\<forall>x y z. lt x y \<longrightarrow> lt y z \<longrightarrow> lt x z) \<and> (\<forall>x y. x = y \<or> lt x y \<or> lt y x) \<and>
     (\<forall>x. \<not> lt x []) \<and> lt ''blob'' ''file''"

text \<open>The \<open>Key []string\<close> of a row.\<close>

definition rowKey :: "vrow \<Rightarrow> string list option" where
  "rowKey r = (case vr_key r of JNull \<Rightarrow> Some [] | j \<Rightarrow> decList decStr [] j)"

fun rowKeys :: "vrow list \<Rightarrow> string list list option" where
  "rowKeys [] = Some []"
| "rowKeys (r # rs) =
     (case rowKey r of None \<Rightarrow> None | Some k \<Rightarrow> map_option ((#) k) (rowKeys rs))"

text \<open>The row for an emitted key, and the rows of a bucket's contents.\<close>

definition emittedRow :: "string \<Rightarrow> string list \<times> json \<Rightarrow> vrow" where
  "emittedRow i kv = \<lparr>vr_id = i, vr_key = JArr (map JStr (fst kv)), vr_value = snd kv, vr_doc = JNull\<rparr>"

definition emitted ::
  "(string \<Rightarrow> json \<Rightarrow> (string list \<times> json) list) \<Rightarrow> (string \<Rightarrow> raw option) \<Rightarrow> vrow \<Rightarrow> bool" where
  "emitted vw s r \<longleftrightarrow> (\<exists>i j kv. s i = Some (RJson j) \<and> kv \<in> set (vw i j) \<and> r = emittedRow i kv)"

definition theKey :: "vrow \<Rightarrow> string list" where
  "theKey r = (case rowKey r of Some k \<Rightarrow> k | None \<Rightarrow> [])"

section \<open>Answers\<close>

text \<open>Ascending from a start key, and descending from one; the limit is not negative.\<close>

definition pageUp :: "(string \<Rightarrow> string \<Rightarrow> bool) \<Rightarrow> int \<Rightarrow> string list \<Rightarrow> vrow list \<Rightarrow> vrow list" where
  "pageUp lt limit sk L = take (nat limit) (filter (\<lambda>r. \<not> keyLess lt (theKey r) sk) L)"

definition pageDown :: "(string \<Rightarrow> string \<Rightarrow> bool) \<Rightarrow> int \<Rightarrow> string list \<Rightarrow> vrow list \<Rightarrow> vrow list" where
  "pageDown lt limit sk L = take (nat limit) (filter (\<lambda>r. \<not> keyLess lt sk (theKey r)) L)"

definition descending :: "(string \<Rightarrow> string \<Rightarrow> bool) \<Rightarrow> vrow list \<Rightarrow> bool" where
  "descending lt L \<longleftrightarrow> sorted_wrt (\<lambda>r s. \<not> keyLess lt (theKey r) (theKey s)) L"

definition ascending :: "(string \<Rightarrow> string \<Rightarrow> bool) \<Rightarrow> vrow list \<Rightarrow> bool" where
  "ascending lt L \<longleftrightarrow> sorted_wrt (\<lambda>r s. keyLess lt (theKey r) (theKey s)) L"

section \<open>Lemmas\<close>

lemma keyLess_Nil [simp]: "keyLess lt [] ys \<longleftrightarrow> ys \<noteq> []"
  by (cases ys) simp_all

lemma keyLess_irrefl: "collation_ok lt \<Longrightarrow> \<not> keyLess lt xs xs"
  by (induction xs) (auto simp: collation_ok_def)

lemma keyLess_trans:
  assumes "collation_ok lt"
  shows "keyLess lt xs ys \<Longrightarrow> keyLess lt ys zs \<Longrightarrow> keyLess lt xs zs"
proof (induction xs arbitrary: ys zs)
  case Nil
  then show ?case by (cases ys; cases zs) auto
next
  case (Cons x xs)
  then obtain y ys' z zs' where "ys = y # ys'" "zs = z # zs'" by (cases ys; cases zs) auto
  with Cons assms show ?case unfolding collation_ok_def by (auto simp del: keyLess_Nil)
qed

lemma keyLess_total:
  assumes "collation_ok lt"
  shows "xs = ys \<or> keyLess lt xs ys \<or> keyLess lt ys xs"
proof (induction xs arbitrary: ys)
  case Nil
  then show ?case by auto
next
  case (Cons x xs)
  show ?case
  proof (cases ys)
    case (Cons y ys')
    moreover have "x = y \<or> lt x y \<or> lt y x" using assms unfolding collation_ok_def by blast
    ultimately show ?thesis using Cons.IH [of ys'] by auto
  qed simp
qed

text \<open>Rows are ordered by their first element first.\<close>

lemma keyLess_hd:
  assumes "collation_ok lt" and "\<not> keyLess lt (x # xs) (y # ys)"
  shows "x = y \<or> lt y x"
  using assms unfolding collation_ok_def by auto

lemma decAll_keys [simp]: "decAll decStr [] (map JStr k) = Some k"
  by (induction k) simp_all

lemma rowKey_emitted [simp]: "rowKey (emittedRow i kv) = Some (fst kv)"
  by (simp add: rowKey_def emittedRow_def)

lemma theKey_emitted [simp]: "theKey (emittedRow i kv) = fst kv"
  by (simp add: theKey_def)

lemma emitted_key: "emitted vw s r \<Longrightarrow> rowKey r = Some (theKey r)"
  by (auto simp: emitted_def)

lemma rowKeys_theKey: "(\<And>r. r \<in> set rs \<Longrightarrow> rowKey r = Some (theKey r)) \<Longrightarrow> rowKeys rs = Some (map theKey rs)"
  by (induction rs) simp_all

lemma set_pageUp: "set (pageUp lt l sk L) \<subseteq> set L"
  by (auto simp: pageUp_def dest: in_set_takeD)

lemma set_pageDown: "set (pageDown lt l sk L) \<subseteq> set L"
  by (auto simp: pageDown_def dest: in_set_takeD)

section \<open>The views of the bucket in memory\<close>

text \<open>The rows of the documents in memory, in the byte order of their keys.\<close>

definition memRows :: "(string \<Rightarrow> json \<Rightarrow> (string list \<times> json) list) \<Rightarrow> memdb \<Rightarrow> vrow list" where
  "memRows vw d =
     sort_key theKey (concat (map (\<lambda>(i, v). case v of RJson j \<Rightarrow> map (emittedRow i) (vw i j) | RText _ \<Rightarrow> [])
       (AList.clearjunk d)))"

definition memView :: "string \<Rightarrow> (string \<times> json) list \<Rightarrow> memdb \<Rightarrow> gerr + viewRes" where
  "memView v ps d =
     (let rows = (if v = ''file_blobs'' then memRows view_file_blobs d
                  else if v = ''file_browse'' then memRows view_file_browse d else []);
          sk = (case map_of ps ''startkey'' of
                  Some j \<Rightarrow> (case decList decStr [] j of Some k \<Rightarrow> k | None \<Rightarrow> []) | None \<Rightarrow> []);
          limit = (case map_of ps ''limit'' of Some (JNum n) \<Rightarrow> n | _ \<Rightarrow> int (length rows))
      in Inr \<lparr>vRows = (if map_of ps ''descending'' = Some (JBool True)
                      then pageDown (<) limit sk (rev rows) else pageUp (<) limit sk rows),
              vErrors = []\<rparr>)"

lemma keyLess_less: "keyLess (<) xs ys \<longleftrightarrow> xs < ys"
  by (induction "(<) :: string \<Rightarrow> string \<Rightarrow> bool" xs ys rule: keyLess.induct) auto

lemma collation_less: "collation_ok (<)"
  by (auto simp: collation_ok_def)

lemma emitted_memRows: "r \<in> set (memRows vw d) \<longleftrightarrow> emitted vw (map_of d) r"
proof -
  have mem: "(i, v) \<in> set (AList.clearjunk d) \<longleftrightarrow> map_of d i = Some v" for i v
    using map_of_eq_Some_iff [of "AList.clearjunk d" i v] by (simp add: distinct_clearjunk map_of_clearjunk)
  have "r \<in> set (memRows vw d) \<longleftrightarrow> (\<exists>i j kv. (i, RJson j) \<in> set (AList.clearjunk d) \<and> kv \<in> set (vw i j) \<and> r = emittedRow i kv)"
    by (fastforce simp: memRows_def split: raw.splits)
  also have "\<dots> \<longleftrightarrow> emitted vw (map_of d) r"
    by (simp add: emitted_def mem)
  finally show ?thesis .
qed

lemma descending_memRows: "descending (<) (rev (memRows vw d))"
proof -
  have "sorted (map theKey (memRows vw d))" by (simp add: memRows_def)
  then show ?thesis
    by (simp add: descending_def keyLess_less sorted_wrt_rev sorted_wrt_map not_less)
qed

end
