(* ===== verification/Http_Types.thy ===== *)
theory Http_Types
  imports File_Meta Nodes
begin

text \<open>
  Requests and responses of \<open>net/http\<close> as the handlers use them, and the small helpers of
  \<open>src/http.go\<close> and \<open>src/ioutil.go\<close> that every handler shares.

  A request body is the list of pieces its reader delivers, each with the failure writing it to disk
  meets, if any, and the error the reader ends with. A response is its status, its header and its body;
  a compressed body is kept as its uncompressed contents, with the \<open>Content-Encoding\<close> header set.
\<close>

section \<open>Requests and responses\<close>

record request =
  rq_Method :: string
  rq_Path :: string
  rq_Header :: header
  rq_Form :: "(string \<times> string list) list"
  rq_Body :: "(string \<times> (gerr \<times> nat) option) list"
  rq_BodyErr :: "gerr option"
  rq_ContentLength :: int

text \<open>
  A body: nothing, the text of an error, a message, a JSON value, bytes, or one after another.
\<close>

datatype body = BEmpty | BError gerr | BText string | BJson json | BBytes string | BCat body body

record response =
  rs_Status :: int
  rs_Header :: "(string \<times> string list) list"
  rs_Body :: body

definition FormValue :: "request \<Rightarrow> string \<Rightarrow> string" where
  "FormValue req k = (case map_of (rq_Form req) k of Some (v # _) \<Rightarrow> v | _ \<Rightarrow> [])"

definition reqHeader :: "request \<Rightarrow> string \<Rightarrow> string" where
  "reqHeader req k = hdrGet (rq_Header req) k"

text \<open>\<open>WriteHeader\<close> alone, \<open>http.Error\<close> with an error's text, and with a message; these set the type of the body.\<close>

definition errorType :: "(string \<times> string list) list" where
  "errorType = [(''Content-Type'', [''text/plain; charset=utf-8''])]"

definition statusOnly :: "int \<Rightarrow> response" where
  "statusOnly code = \<lparr>rs_Status = code, rs_Header = [], rs_Body = BEmpty\<rparr>"

definition httpErr :: "gerr \<Rightarrow> int \<Rightarrow> response" where
  "httpErr er code = \<lparr>rs_Status = code, rs_Header = errorType, rs_Body = BError er\<rparr>"

definition httpError :: "string \<Rightarrow> int \<Rightarrow> response" where
  "httpError msg code = \<lparr>rs_Status = code, rs_Header = errorType, rs_Body = BText msg\<rparr>"

definition canGzip :: "request \<Rightarrow> bool" where
  "canGzip req = containsStr (reqHeader req ''accept-encoding'') ''gzip''"

definition jsonType :: string where "jsonType = ''application/json; charset=utf-8''"

definition sendJson :: "request \<Rightarrow> json \<Rightarrow> response" where
  "sendJson req ob =
     \<lparr>rs_Status = 200,
      rs_Header = hdrSet ''Content-Type'' jsonType
        (if canGzip req then hdrSet ''Content-Encoding'' ''gzip'' [] else []),
      rs_Body = BJson ob\<rparr>"

section \<open>Helpers\<close>

definition getExpirationFrom :: "string \<Rightarrow> int" where
  "getExpirationFrom h = (if h \<noteq> [] then (case atoi h of Some i \<Rightarrow> i | None \<Rightarrow> 0) else 0)"

definition getExpiration :: "header \<Rightarrow> int" where
  "getExpiration hdr = getExpirationFrom (hdrGet hdr ''X-CBFS-Expiration'')"

definition isResponseHeader :: "string \<Rightarrow> bool" where
  "isResponseHeader s \<longleftrightarrow> toLower s = ''content-type''"

text \<open>The header entries a handler copies from the stored metadata to its response.\<close>

definition copyHeaders :: "header \<Rightarrow> (string \<times> string list) list \<Rightarrow> (string \<times> string list) list" where
  "copyHeaders hdr out = fold (\<lambda>(k, v) o'. if isResponseHeader k then AList.update k v o' else o') (mrange hdr) out"

text \<open>Slicing off a prefix the caller has tested for.\<close>

definition minusPrefix :: "string \<Rightarrow> string \<Rightarrow> string" where
  "minusPrefix s pre = drop (length pre) s"

definition shouldGzip :: "fileMeta \<Rightarrow> bool" where
  "shouldGzip f =
     (let ct = hdrGet (fm_Headers f) ''Content-Type'' in
      hasPrefix ct ''text/'' \<or> hasPrefix ct ''application/json'' \<or> hasPrefix ct ''application/javascript'')"

definition resolvePath :: "(string \<Rightarrow> string) \<Rightarrow> request \<Rightarrow> string \<times> string" where
  "resolvePath sha1 req =
     (let p0 = trimSlashes (rq_Path req);
          path = (if p0 \<noteq> [] \<and> last p0 = CHR ''/'' then p0 @ ''index.html''
                  else if p0 = [] then ''index.html'' else p0)
      in (path, shortName sha1 path))"

section \<open>Lemmas\<close>

lemma minusPrefix_append [simp]: "minusPrefix (p @ s) p = s"
  by (simp add: minusPrefix_def)

lemma resolvePath_nonempty: "fst (resolvePath sha1 req) \<noteq> []"
  by (auto simp: resolvePath_def Let_def)

lemma resolvePath_hd: "hd (fst (resolvePath sha1 req)) \<noteq> CHR ''/''"
  using trimSlashes_no_slash [of "rq_Path req"] by (auto simp: resolvePath_def Let_def)

lemma resolvePath_last: "last (fst (resolvePath sha1 req)) \<noteq> CHR ''/''"
  by (auto simp: resolvePath_def Let_def)

lemma getExpiration_itoa: "i64_range i \<Longrightarrow> getExpirationFrom (itoa i) = i"
proof -
  assume "i64_range i"
  moreover have "itoa i \<noteq> []" by (simp add: itoa_def)
  ultimately show ?thesis by (simp add: getExpirationFrom_def atoi_itoa)
qed

end
