(* ===== verification/Paths.thy ===== *)
theory Paths
  imports Replication File_Meta Views Http_Types
begin

text \<open>
  Walking over the files of the bucket and what is built on it: the generator of \<open>src/pathgen.go\<close>, the
  metadata stream of \<open>src/backup.go\<close> and \<open>src/export.go\<close>, the consistency report of \<open>src/fsck.go\<close>, the
  listing of \<open>src/list.go\<close> and the archive of \<open>src/zip.go\<close>.

  The generator sends names to eight fetchers, which deliver the files in any order; the model keeps the
  order of the names, and the theorems speak of the set of names or of any order of deliveries. The view
  is the one of the database (theory \<open>Views\<close>).

  Lemmas: the generator ends and finds every file; the stream writes one entry per delivered file,
  whatever the order; the batches of the report are full and lose nothing; what a listing contains.
\<close>

section \<open>The path generator\<close>

record namedFile =
  nf_name :: string
  nf_meta :: fileMeta
  nf_err :: "gerr option"

text \<open>One turn of \<open>pathDataFetcher\<close>; a document that does not decode is an error.\<close>

definition fetchFile :: "'db bucket \<Rightarrow> (string \<Rightarrow> string) \<Rightarrow> 'db \<Rightarrow> string \<Rightarrow> namedFile" where
  "fetchFile cb sha1 d s =
     (case cbGet cb (shortName sha1 s) d of
        Inl er \<Rightarrow> \<lparr>nf_name = s, nf_meta = fileMeta_zero, nf_err = Some er\<rparr>
      | Inr v \<Rightarrow>
          (case unmarshal_fileMeta (Some v) of
             None \<Rightarrow> \<lparr>nf_name = s, nf_meta = fileMeta_zero, nf_err = Some EJson\<rparr>
           | Some m \<Rightarrow> \<lparr>nf_name = s, nf_meta = m, nf_err = None\<rparr>))"

definition pathLimit :: nat where "pathLimit = 1000"

definition browseParams :: "string list \<Rightarrow> (string \<times> json) list" where
  "browseParams startKey =
     [(''stale'', JBool False), (''reduce'', JBool False), (''limit'', JNum (int pathLimit)),
      (''startkey'', JArr (map JStr startKey))]"

text \<open>The rows of a page: the names sent, whether the loop returned, and the new start key.\<close>

fun pathPage :: "string \<Rightarrow> string list list \<Rightarrow> string list \<Rightarrow> string list \<times> bool \<times> string list" where
  "pathPage from [] startKey = ([], False, startKey)"
| "pathPage from (key # ks) startKey =
     (let k = joinWith ''/'' key in
      if \<not> hasPrefix k from then ([], True, startKey)
      else (let (ns, stop, sk) = pathPage from ks key in (k # ns, stop, sk)))"

text \<open>The loop over the pages, with fuel: the names sent to the fetchers and the errors reported.\<close>

fun pathLoop ::
  "nat \<Rightarrow> 'db bucket \<Rightarrow> string \<Rightarrow> string list \<Rightarrow> 'db \<Rightarrow> (string list \<times> gerr list) option" where
  "pathLoop 0 cb from startKey d = None"
| "pathLoop (Suc n) cb from startKey d =
     (case cbView cb ''file_browse'' (browseParams startKey) d of
        Inl er \<Rightarrow> Some ([], [er])
      | Inr res \<Rightarrow>
          (case rowKeys (vRows res) of
             None \<Rightarrow> Some ([], [EJson])
           | Some keys \<Rightarrow>
               (let (ns, stop, sk) = pathPage from keys startKey in
                if stop \<or> length keys < pathLimit then Some (ns, vErrors res)
                else map_option (\<lambda>(ns', es'). (ns @ ns', vErrors res @ es')) (pathLoop n cb from sk d))))"

definition pathGenerator ::
  "nat \<Rightarrow> 'db bucket \<Rightarrow> (string \<Rightarrow> string) \<Rightarrow> string \<Rightarrow> 'db \<Rightarrow> (namedFile list \<times> gerr list) option" where
  "pathGenerator n cb sha1 from d =
     map_option (\<lambda>(ns, es). (map (fetchFile cb sha1 d) ns, es)) (pathLoop n cb from (splitOn CHR ''/'' from) d)"

section \<open>The metadata stream\<close>

text \<open>
  What the select of \<open>streamFileMeta\<close> receives, in any order; \<open>wr\<close> is the error of the n-th write.
  The result is what was written and how the loop returned, if it did.
\<close>

datatype streamEv = SFile namedFile | SFilesClosed | SErr gerr | SErrsClosed

definition streamEntry :: "namedFile \<Rightarrow> json" where
  "streamEntry f = JObj [(''meta'', marshal_fileMeta (nf_meta f)), (''path'', JStr (nf_name f))]"

fun streamFileMeta ::
  "(nat \<Rightarrow> gerr option) \<Rightarrow> streamEv list \<Rightarrow> bool \<Rightarrow> json list \<Rightarrow> json list \<times> gerr option option" where
  "streamFileMeta wr [] echNil out = (out, None)"
| "streamFileMeta wr (SFilesClosed # evs) echNil out = (out, Some None)"
| "streamFileMeta wr (SFile f # evs) echNil out =
     (case wr (length out) of
        Some er \<Rightarrow> (out, Some (Some er))
      | None \<Rightarrow> streamFileMeta wr evs echNil (out @ [streamEntry f]))"
| "streamFileMeta wr (SErr er # evs) echNil out =
     (if echNil then streamFileMeta wr evs echNil out else (out, Some (Some er)))"
| "streamFileMeta wr (SErrsClosed # evs) echNil out = streamFileMeta wr evs True out"

definition doExport :: "(nat \<Rightarrow> gerr option) \<Rightarrow> streamEv list \<Rightarrow> json list" where
  "doExport wr evs = fst (streamFileMeta wr evs False [])"

section \<open>Batches and the consistency report\<close>

fun clump :: "nat \<Rightarrow> 'a list \<Rightarrow> 'a list \<Rightarrow> 'a list list" where
  "clump sz [] res = (if length res > 0 then [res] else [])"
| "clump sz (r # ch) res =
     (let res' = res @ [r] in
      if length res' = sz then res' # clump sz ch [] else clump sz ch res')"

definition keyClumper :: "'a list \<Rightarrow> nat \<Rightarrow> 'a list list" where
  "keyClumper ch sz = clump sz ch []"

record fsckStatus =
  fk_Path :: string
  fk_OID :: string
  fk_Reps :: int
  fk_EType :: string
  fk_Error :: "gerr option"

definition fsckFile :: "namedFile \<Rightarrow> fsckStatus list" where
  "fsckFile nf =
     (case nf_err nf of
        None \<Rightarrow> []
      | Some er \<Rightarrow> [\<lparr>fk_Path = nf_name nf, fk_OID = fm_OID (nf_meta nf), fk_Reps = 0, fk_EType = ''file'',
                     fk_Error = Some er\<rparr>])"

text \<open>The maps of a batch: the names per object, and the object per name.\<close>

definition fnmapOf :: "namedFile list \<Rightarrow> (string \<times> string list) list" where
  "fnmapOf nfc =
     fold (\<lambda>nf m. AList.update (fm_OID (nf_meta nf))
       ((case map_of m (fm_OID (nf_meta nf)) of Some a \<Rightarrow> a | None \<Rightarrow> []) @ [nf_name nf]) m) nfc []"

definition unprocessedOf :: "namedFile list \<Rightarrow> (string \<times> string) list" where
  "unprocessedOf nfc = fold (\<lambda>nf m. AList.update (nf_name nf) (fm_OID (nf_meta nf)) m) nfc []"

text \<open>
  One answer of the bulk read. After the first entry for an undecodable document the error variable is
  nil, so a second name of that object makes the handler dereference nil.
\<close>

definition fsckBlob ::
  "bool \<Rightarrow> string list \<Rightarrow> string \<Rightarrow> raw option \<Rightarrow> fsckStatus list go" where
  "fsckBlob errsOnly names oid body =
     (let bad = \<lparr>fk_Path = [], fk_OID = oid, fk_Reps = 0, fk_EType = ''blob'', fk_Error = Some EJson\<rparr>;
          good = (\<lambda>b. if errsOnly then [] else map (\<lambda>n. \<lparr>fk_Path = n, fk_OID = oid, fk_Reps = mlen (bo_Nodes b),
                    fk_EType = [], fk_Error = None\<rparr>) names) in
      case unmarshal_blob body of
        Some b \<Rightarrow> Ret (good b)
      | None \<Rightarrow>
          (case names of
             [] \<Rightarrow> Ret []
           | [n] \<Rightarrow> Ret (bad\<lparr>fk_Path := n\<rparr> # good blobOwnership_zero)
           | _ \<Rightarrow> Panic))"

fun fsckAnswers ::
  "bool \<Rightarrow> (string \<times> string list) list \<Rightarrow> (string \<times> raw option) list \<Rightarrow> (string \<times> string) list
     \<Rightarrow> (fsckStatus list \<times> (string \<times> string) list) go" where
  "fsckAnswers errsOnly fnmap [] unp = Ret ([], unp)"
| "fsckAnswers errsOnly fnmap ((k, body) # bres) unp =
     (let names = (case map_of fnmap (tl k) of Some a \<Rightarrow> a | None \<Rightarrow> []);
          unp' = fold AList.delete names unp in
      case fsckBlob errsOnly names (tl k) body of
        Panic \<Rightarrow> Panic
      | Ret st \<Rightarrow>
          (case fsckAnswers errsOnly fnmap bres unp' of
             Panic \<Rightarrow> Panic
           | Ret (sts, u) \<Rightarrow> Ret (st @ sts, u)))"

definition fsckMissing :: "'db bucket \<Rightarrow> 'db \<Rightarrow> (string \<times> string) list \<Rightarrow> fsckStatus list" where
  "fsckMissing cb d unp =
     map (\<lambda>(k, v). \<lparr>fk_Path = k, fk_OID = v, fk_Reps = 0, fk_EType = ''blob'', fk_Error = Some (EMsg ''not found'')\<rparr>)
       (filter (\<lambda>(k, v). case getBlobOwnership cb v d of Inl _ \<Rightarrow> True | Inr _ \<Rightarrow> False) unp)"

text \<open>The batches; a failed bulk read ends the report.\<close>

fun fsckBatches :: "'db bucket \<Rightarrow> bool \<Rightarrow> 'db \<Rightarrow> namedFile list list \<Rightarrow> fsckStatus list go" where
  "fsckBatches cb errsOnly d [] = Ret []"
| "fsckBatches cb errsOnly d (nfc # rest) =
     (let st0 = concat (map fsckFile nfc) in
      case cbGetBulk cb (map (\<lambda>nf. ''/'' @ fm_OID (nf_meta nf)) nfc) d of
        Inl _ \<Rightarrow> Ret st0
      | Inr bres \<Rightarrow>
          (case fsckAnswers errsOnly (fnmapOf nfc) bres (unprocessedOf nfc) of
             Panic \<Rightarrow> Panic
           | Ret (st1, unp) \<Rightarrow>
               (case fsckBatches cb errsOnly d rest of
                  Panic \<Rightarrow> Panic
                | Ret sts \<Rightarrow> Ret (st0 @ st1 @ fsckMissing cb d unp @ sts))))"

definition dofsck :: "'db bucket \<Rightarrow> request \<Rightarrow> namedFile list \<Rightarrow> 'db \<Rightarrow> fsckStatus list go" where
  "dofsck cb req files d = fsckBatches cb (FormValue req ''errsonly'' \<noteq> []) d (keyClumper files 1000)"

section \<open>Listings\<close>

record fileListing =
  fl_Files :: "(string \<times> raw option) list"
  fl_Dirs :: "(string \<times> int \<times> int \<times> int \<times> int) list"
  fl_Path :: string

text \<open>Joining the elements of a key; one that is not a string fails its type assertion.\<close>

fun keyStrings :: "(time \<Rightarrow> string) \<Rightarrow> json list \<Rightarrow> string list go" where
  "keyStrings timeText [] = Ret []"
| "keyStrings timeText (a # as) =
     (case (a, keyStrings timeText as) of
        (JStr s, Ret ss) \<Rightarrow> Ret (s # ss)
      | (JTime t, Ret ss) \<Rightarrow> Ret (timeText t # ss)
      | _ \<Rightarrow> Panic)"

definition toStringJoin :: "(time \<Rightarrow> string) \<Rightarrow> json list \<Rightarrow> string \<Rightarrow> string go" where
  "toStringJoin timeText ks sep =
     (case keyStrings timeText ks of Panic \<Rightarrow> Panic | Ret ss \<Rightarrow> Ret (joinWith sep ss))"

text \<open>A row of the reduced view: its key and the statistics of the files below it.\<close>

definition listRow :: "vrow \<Rightarrow> (json list \<times> int \<times> int \<times> int \<times> int) option" where
  "listRow r = do {
     k \<leftarrow> (case vr_key r of JArr ks \<Rightarrow> Some ks | JNull \<Rightarrow> Some [] | _ \<Rightarrow> None);
     ms \<leftarrow> (case vr_value r of JObj ms \<Rightarrow> Some ms | JNull \<Rightarrow> Some [] | _ \<Rightarrow> None);
     c \<leftarrow> fld ''count'' decInt 0 ms;
     s \<leftarrow> fld ''sum'' decInt 0 ms;
     mn \<leftarrow> fld ''min'' decInt 0 ms;
     mx \<leftarrow> fld ''max'' decInt 0 ms;
     Some (k, c, s, mn, mx) }"

fun listRows :: "vrow list \<Rightarrow> (json list \<times> int \<times> int \<times> int \<times> int) list option" where
  "listRows [] = Some []"
| "listRows (r # rs) =
     (case listRow r of None \<Rightarrow> None | Some x \<Rightarrow> map_option ((#) x) (listRows rs))"

fun listKeys :: "(time \<Rightarrow> string) \<Rightarrow> (string \<Rightarrow> string) \<Rightarrow> (json list \<times> int \<times> int \<times> int \<times> int) list \<Rightarrow> string list go" where
  "listKeys timeText sha1 [] = Ret []"
| "listKeys timeText sha1 ((k, _) # rs) =
     (case (toStringJoin timeText k ''/'', listKeys timeText sha1 rs) of
        (Ret s, Ret ss) \<Rightarrow> Ret (shortName sha1 s # ss)
      | _ \<Rightarrow> Panic)"

text \<open>\<open>r.Key[len(r.Key)-depth:]\<close> for a longer key.\<close>

definition subKey :: "int \<Rightarrow> json list \<Rightarrow> json list go" where
  "subKey depth k =
     (if int (length k) > depth then
        (let start = i64 (int (length k) - depth) in
         if start < 0 \<or> start > int (length k) then Panic else Ret (drop (nat start) k))
      else Ret k)"

fun divideUp ::
  "(time \<Rightarrow> string) \<Rightarrow> (string \<Rightarrow> string) \<Rightarrow> (string \<times> raw option) list \<Rightarrow> bool \<Rightarrow> int
     \<Rightarrow> (json list \<times> int \<times> int \<times> int \<times> int) list \<Rightarrow> fileListing \<Rightarrow> fileListing go" where
  "divideUp timeText sha1 bulk includeMeta depth [] fl = Ret fl"
| "divideUp timeText sha1 bulk includeMeta depth ((k, v) # rs) fl =
     (case (toStringJoin timeText k ''/'', subKey depth k) of
        (Ret full, Ret sub) \<Rightarrow>
          (case toStringJoin timeText sub ''/'' of
             Panic \<Rightarrow> Panic
           | Ret name \<Rightarrow>
               divideUp timeText sha1 bulk includeMeta depth rs
                 (case map_of bulk (shortName sha1 full) of
                    Some body \<Rightarrow>
                      fl\<lparr>fl_Files := AList.update name (if includeMeta then body else Some (RJson (JObj []))) (fl_Files fl)\<rparr>
                  | None \<Rightarrow> fl\<lparr>fl_Dirs := AList.update name v (fl_Dirs fl)\<rparr>))
      | _ \<Rightarrow> Panic)"

definition listFiles ::
  "(time \<Rightarrow> string) \<Rightarrow> 'db bucket \<Rightarrow> (string \<Rightarrow> string) \<Rightarrow> string \<Rightarrow> bool \<Rightarrow> int \<Rightarrow> 'db \<Rightarrow> (gerr + fileListing) go" where
  "listFiles timeText cb sha1 path includeMeta depth d =
     (let startKey = (if path \<noteq> [] then map JStr (splitOn CHR ''/'' path) else []);
          endKey = startKey @ [JObj []] in
      case cbView cb ''file_browse''
             [(''group_level'', JNum (i64 (int (length startKey) + depth))),
              (''start_key'', JArr startKey), (''end_key'', JArr endKey)] d of
        Inl er \<Rightarrow> Ret (Inl er)
      | Inr res \<Rightarrow>
          (case listRows (vRows res) of
             None \<Rightarrow> Ret (Inl EJson)
           | Some rows \<Rightarrow>
               (case listKeys timeText sha1 rows of
                  Panic \<Rightarrow> Panic
                | Ret keys \<Rightarrow>
                    (case cbGetBulk cb keys d of
                       Inl er \<Rightarrow> Ret (Inl er)
                     | Inr bulk \<Rightarrow>
                         (case divideUp timeText sha1 bulk includeMeta depth rows
                                 \<lparr>fl_Files = [], fl_Dirs = [], fl_Path = ''/'' @ path\<rparr> of
                            Panic \<Rightarrow> Panic
                          | Ret fl \<Rightarrow> Ret (Inr fl))))))"

section \<open>Blob contents and archives\<close>

text \<open>\<open>copyBlob\<close>: the bytes written, the error, and the state of the node.\<close>

definition copyBlob ::
  "(string \<Rightarrow> string \<Rightarrow> string) \<Rightarrow> env \<Rightarrow> 'db bucket \<Rightarrow> 'db fetchEnv \<Rightarrow> string \<Rightarrow> 'db world
     \<Rightarrow> (string \<times> gerr option \<times> 'db world) go" where
  "copyBlob sm e cb fe oid w =
     (case openLocalBlob e oid (w_fs w) of
        Panic \<Rightarrow> Panic
      | Ret (Inr c) \<Rightarrow> Ret (c, None, w)
      | Ret (Inl _) \<Rightarrow>
          (case getBlobFromRemote sm e cb fe oid (e_cachePercentage e) w of
             Panic \<Rightarrow> Panic
           | Ret (er, _, out, w') \<Rightarrow> Ret (out, er, w')))"

fun lastNonEmpty :: "string list \<Rightarrow> string option" where
  "lastNonEmpty [] = None"
| "lastNonEmpty (p # ps) =
     (case lastNonEmpty ps of Some q \<Rightarrow> Some q | None \<Rightarrow> if p \<noteq> [] then Some p else None)"

definition archiveFilename :: "string \<Rightarrow> string \<Rightarrow> string" where
  "archiveFilename path ext =
     (case lastNonEmpty (splitOn CHR ''/'' path) of
        Some p \<Rightarrow> p @ ''.'' @ ext
      | None \<Rightarrow> ''cbfs-archive.'' @ ext)"

text \<open>
  The loop of \<open>doZipDocs\<close>: the members with their contents, and whether the archive was closed. The
  error of the n-th member header is \<open>wr n\<close>.
\<close>

fun zipLoop ::
  "(string \<Rightarrow> string \<Rightarrow> string) \<Rightarrow> env \<Rightarrow> 'db bucket \<Rightarrow> 'db fetchEnv \<Rightarrow> (nat \<Rightarrow> gerr option) \<Rightarrow> namedFile list
     \<Rightarrow> (string \<times> string) list \<Rightarrow> 'db world \<Rightarrow> ((string \<times> string) list \<times> bool \<times> 'db world) go" where
  "zipLoop sm e cb fe wr [] out w = Ret (out, True, w)"
| "zipLoop sm e cb fe wr (nf # nfs) out w =
     (if nf_err nf \<noteq> None then zipLoop sm e cb fe wr nfs out w
      else case wr (length out) of
             Some _ \<Rightarrow> Ret (out, False, w)
           | None \<Rightarrow>
               (case copyBlob sm e cb fe (fm_OID (nf_meta nf)) w of
                  Panic \<Rightarrow> Panic
                | Ret (c, Some _, w') \<Rightarrow> Ret (out @ [(nf_name nf, c)], False, w')
                | Ret (c, None, w') \<Rightarrow> zipLoop sm e cb fe wr nfs (out @ [(nf_name nf, c)]) w'))"

definition doZipDocs ::
  "(string \<Rightarrow> string \<Rightarrow> string) \<Rightarrow> env \<Rightarrow> 'db bucket \<Rightarrow> 'db fetchEnv \<Rightarrow> (nat \<Rightarrow> gerr option) \<Rightarrow> namedFile list
     \<Rightarrow> 'db world \<Rightarrow> ((string \<times> string) list \<times> bool \<times> 'db world) go" where
  "doZipDocs sm e cb fe wr files w = zipLoop sm e cb fe wr files [] w"

section \<open>Lemmas\<close>

subsection \<open>The generator\<close>

text \<open>What the view of the files answers: the pages of the sorted rows of the documents.\<close>

definition browse_ok ::
  "'db bucket \<Rightarrow> ('db \<Rightarrow> string \<Rightarrow> raw option) \<Rightarrow> (string \<Rightarrow> string \<Rightarrow> bool) \<Rightarrow> 'db \<Rightarrow> vrow list \<Rightarrow> bool" where
  "browse_ok cb st lt d L \<longleftrightarrow>
     ascending lt L \<and> (\<forall>r. r \<in> set L \<longleftrightarrow> emitted view_file_browse (st d) r) \<and>
     (\<forall>sk. cbView cb ''file_browse'' (browseParams sk) d
        = Inr \<lparr>vRows = pageUp lt (int pathLimit) sk L, vErrors = []\<rparr>)"

lemma pathPage_all:
  "pathPage [] ks sk = (map (joinWith ''/'') ks, False, if ks = [] then sk else last ks)"
  by (induction ks arbitrary: sk) (auto simp: hasPrefix_def)

lemma pathPage_prefix: "pathPage from ks sk = (ns, stop, sk') \<Longrightarrow> n \<in> set ns \<Longrightarrow> hasPrefix n from"
  by (induction ks arbitrary: sk ns) (auto simp: Let_def split: if_splits prod.splits)

lemma filter_from_nth:
  assumes "collation_ok lt" and "ascending lt xs" and "n < length xs"
  shows "filter (\<lambda>r. \<not> keyLess lt (theKey r) (theKey (xs ! n))) xs = drop n xs"
proof -
  have s: "keyLess lt (theKey (xs ! i)) (theKey (xs ! j))" if "i < j" "j < length xs" for i j
    using assms(2) that by (simp add: ascending_def sorted_wrt_iff_nth_less)
  have 1: "filter (\<lambda>r. \<not> keyLess lt (theKey r) (theKey (xs ! n))) (take n xs) = []"
    using s assms(3) by (auto simp: filter_empty_conv in_set_conv_nth)
  have "\<not> keyLess lt (theKey (xs ! i)) (theKey (xs ! n))" if "n \<le> i" "i < length xs" for i
    using keyLess_irrefl [OF assms(1)] keyLess_trans [OF assms(1)] s [of n i] that by (cases "i = n") auto
  then have 2: "filter (\<lambda>r. \<not> keyLess lt (theKey r) (theKey (xs ! n))) (drop n xs) = drop n xs"
    by (auto simp: filter_id_conv in_set_conv_nth)
  have "xs = take n xs @ drop n xs" by simp
  then show ?thesis using 1 2 by (metis append_Nil filter_append)
qed

lemma last_take_nth: "0 < n \<Longrightarrow> n \<le> length xs \<Longrightarrow> last (take n xs) = xs ! (n - 1)"
  by (subst last_conv_nth) (auto simp: min_def)

lemma browse_keys:
  assumes "browse_ok cb st lt d L" and "set P \<subseteq> set L"
  shows "rowKeys P = Some (map theKey P)"
  using assms by (intro rowKeys_theKey emitted_key [of view_file_browse "st d"]) (auto simp: browse_ok_def)

lemma pathLoop_complete:
  assumes "browse_ok cb st lt d L" and lt: "collation_ok lt"
  shows "length (filter (\<lambda>r. \<not> keyLess lt (theKey r) sk) L) < n \<Longrightarrow>
     \<exists>ns. pathLoop n cb [] sk d = Some (ns, []) \<and>
       set ns = (\<lambda>r. joinWith ''/'' (theKey r)) ` set (filter (\<lambda>r. \<not> keyLess lt (theKey r) sk) L)"
proof (induction n arbitrary: sk)
  case (Suc n)
  define F where "F = (\<lambda>sk. filter (\<lambda>r. \<not> keyLess lt (theKey r) sk) L)"
  let ?P = "take pathLimit (F sk)"
  have view: "cbView cb ''file_browse'' (browseParams sk) d = Inr \<lparr>vRows = ?P, vErrors = []\<rparr>"
    using assms(1) by (simp add: browse_ok_def pageUp_def F_def)
  have keys: "rowKeys ?P = Some (map theKey ?P)"
    by (rule browse_keys [OF assms(1)]) (auto simp: F_def dest: in_set_takeD)
  show ?case
  proof (cases "length ?P < pathLimit")
    case True
    then have "?P = F sk" by simp
    with True view keys show ?thesis by (auto simp: pathPage_all F_def)
  next
    case False
    then have len: "pathLimit \<le> length (F sk)" by simp
    let ?sk = "theKey (F sk ! 999)"
    have asc: "ascending lt (F sk)"
      using assms(1) by (auto simp: browse_ok_def ascending_def F_def intro: sorted_wrt_filter)
    have "F sk ! 999 \<in> set (F sk)" using len by (intro nth_mem) (simp add: pathLimit_def)
    then have "\<not> keyLess lt ?sk sk" by (simp add: F_def)
    then have "keyLess lt (theKey r) sk \<Longrightarrow> keyLess lt (theKey r) ?sk" for r
      using keyLess_total [OF lt, of sk ?sk] keyLess_trans [OF lt] by metis
    then have "F ?sk = filter (\<lambda>r. \<not> keyLess lt (theKey r) ?sk) (F sk)"
      by (auto simp: F_def intro: filter_cong)
    also have "\<dots> = drop 999 (F sk)"
      using filter_from_nth [OF lt asc, of 999] len by (simp add: pathLimit_def)
    finally have rest: "F ?sk = drop 999 (F sk)" .
    have ne: "?P \<noteq> []" using len by (auto simp: pathLimit_def)
    have "last ?P = F sk ! 999" using len last_take_nth [of pathLimit "F sk"] by (simp add: pathLimit_def)
    with last_map [OF ne, of theKey] have last: "last (map theKey ?P) = ?sk" by metis
    have "length (F sk) < Suc n" using Suc.prems by (simp add: F_def)
    then have "length (F ?sk) < n" using len unfolding rest by (simp add: pathLimit_def)
    from Suc.IH [OF this [unfolded F_def]] obtain ns where
      ns: "pathLoop n cb [] ?sk d = Some (ns, [])" "set ns = (\<lambda>r. joinWith ''/'' (theKey r)) ` set (F ?sk)"
      by (auto simp: F_def)
    have "pathLoop (Suc n) cb [] sk d = Some (map (joinWith ''/'') (map theKey ?P) @ ns, [])"
      using view keys False last ne ns(1) by (simp add: pathPage_all)
    moreover have "set (F sk) = set ?P \<union> set (drop 999 (F sk))"
    proof -
      have "set (F sk) = set ?P \<union> set (drop pathLimit (F sk))"
        by (metis append_take_drop_id set_append)
      moreover have "set (drop pathLimit (F sk)) \<subseteq> set (drop 999 (F sk))"
        by (rule set_drop_subset_set_drop) (simp add: pathLimit_def)
      moreover have "set (drop 999 (F sk)) \<subseteq> set (F sk)" by (rule set_drop_subset)
      ultimately show ?thesis by blast
    qed
    ultimately show ?thesis using ns(2) rest unfolding F_def by auto
  qed
qed simp

lemma browse_names:
  assumes "browse_ok cb st lt d L"
  shows "(\<lambda>r. joinWith ''/'' (theKey r)) ` set L = {docName i j | i j. st d i = Some (RJson j) \<and> jsGet ''type'' j = JStr ''file''}"
proof -
  let ?A = "{(i, j). st d i = Some (RJson j) \<and> jsGet ''type'' j = JStr ''file''}"
  have "set L = {r. emitted view_file_browse (st d) r}" using assms by (auto simp: browse_ok_def)
  also have "\<dots> = (\<lambda>(i, j). emittedRow i (splitOn CHR ''/'' (docName i j), jsGet ''length'' j)) ` ?A"
    by (auto simp: emitted_def view_file_browse_def split: if_splits)
  finally have "(\<lambda>r. joinWith ''/'' (theKey r)) ` set L = (\<lambda>(i, j). docName i j) ` ?A"
    by (simp add: image_image case_prod_unfold joinWith_splitOn)
  then show ?thesis by auto
qed

lemma browse_from_start:
  assumes "browse_ok cb st lt d L" and "collation_ok lt"
  shows "filter (\<lambda>r. \<not> keyLess lt (theKey r) [[]]) L = L"
proof -
  have "\<not> keyLess lt k [[]]" if "k \<noteq> []" for k
    using that assms(2) unfolding collation_ok_def by (cases k) auto
  moreover have "theKey r \<noteq> []" if "r \<in> set L" for r
    using that assms(1) by (auto simp: browse_ok_def emitted_def view_file_browse_def split: if_splits)
  ultimately show ?thesis by (auto simp: filter_id_conv)
qed

lemma fetchFile_name [simp]: "nf_name (fetchFile cb sha1 d s) = s"
  by (simp add: fetchFile_def split: sum.splits option.splits)

text \<open>A full page ends with the row the next page starts with: its name is sent twice.\<close>

lemma pathLoop_repeats:
  assumes "browse_ok cb st lt d L" and lt: "collation_ok lt" and "length L = pathLimit"
  shows "\<exists>ns. pathLoop (Suc (Suc n)) cb [] [[]] d = Some (ns @ [joinWith ''/'' (theKey (last L))], []) \<and>
     joinWith ''/'' (theKey (last L)) \<in> set ns"
proof -
  have L: "L \<noteq> []" "pathLimit = Suc 999" using assms(3) by (auto simp: pathLimit_def)
  have all: "filter (\<lambda>r. \<not> keyLess lt (theKey r) [[]]) L = L" by (rule browse_from_start [OF assms(1) lt])
  have asc: "ascending lt L" using assms(1) by (simp add: browse_ok_def)
  have lst: "last L = L ! 999" using L(1) by (simp add: last_conv_nth assms(3) pathLimit_def)
  have "filter (\<lambda>r. \<not> keyLess lt (theKey r) (theKey (last L))) L = drop 999 L"
    using filter_from_nth [OF lt asc, of 999] assms(3) L lst by simp
  also have "drop 999 L = [last L]" using L assms(3) by (simp add: lst Cons_nth_drop_Suc [symmetric])
  finally have two: "filter (\<lambda>r. \<not> keyLess lt (theKey r) (theKey (last L))) L = [last L]" .
  have v1: "cbView cb ''file_browse'' (browseParams [[]]) d = Inr \<lparr>vRows = L, vErrors = []\<rparr>"
    and v2: "cbView cb ''file_browse'' (browseParams (theKey (last L))) d = Inr \<lparr>vRows = [last L], vErrors = []\<rparr>"
    using assms(1,3) all two L by (simp_all add: browse_ok_def pageUp_def)
  have k: "rowKeys L = Some (map theKey L)" "rowKeys [last L] = Some [theKey (last L)]"
    using browse_keys [OF assms(1), of L] browse_keys [OF assms(1), of "[last L]"] L by auto
  have "pathLoop (Suc (Suc n)) cb [] [[]] d
      = Some (map (joinWith ''/'' \<circ> theKey) L @ [joinWith ''/'' (theKey (last L))], [])"
    using v1 v2 k L assms(3) by (simp add: pathPage_all last_map Let_def hasPrefix_def)
  moreover have "last L \<in> set L" using L by simp
  then have "joinWith ''/'' (theKey (last L)) \<in> set (map (joinWith ''/'' \<circ> theKey) L)" by (simp del: last_in_set)
  ultimately show ?thesis by blast
qed

subsection \<open>The stream\<close>

text \<open>The files delivered by the events, up to the closing of their channel.\<close>

fun delivered :: "streamEv list \<Rightarrow> namedFile list" where
  "delivered [] = []"
| "delivered (SFile f # evs) = f # delivered evs"
| "delivered (SFilesClosed # evs) = []"
| "delivered (_ # evs) = delivered evs"

lemma streamFileMeta_out:
  "\<exists>fs. fst (streamFileMeta wr evs nl out) = out @ map streamEntry fs \<and>
     (snd (streamFileMeta wr evs nl out) = Some None \<longrightarrow> fs = delivered evs)"
proof (induction wr evs nl out rule: streamFileMeta.induct)
  case (3 wr f evs nl out)
  show ?case
  proof (cases "wr (length out)")
    case None
    with 3 obtain fs where "fst (streamFileMeta wr evs nl (out @ [streamEntry f])) = out @ map streamEntry (f # fs)"
      "snd (streamFileMeta wr evs nl (out @ [streamEntry f])) = Some None \<longrightarrow> fs = delivered evs" by auto
    then show ?thesis using None by (intro exI [of _ "f # fs"]) simp
  qed (auto intro: exI [of _ "[]"])
qed auto

subsection \<open>Batches\<close>

lemma clump_concat: "concat (clump sz ch res) = res @ ch"
  by (induction ch arbitrary: res) (auto simp: Let_def)

lemma clump_Cons:
  "clump sz (r # ch) res =
     (if Suc (length res) = sz then (res @ [r]) # clump sz ch [] else clump sz ch (res @ [r]))"
  by (simp add: Let_def)

lemma clump_lengths:
  "length res < sz \<Longrightarrow> b \<in> set (clump sz ch res) \<Longrightarrow> 0 < length b \<and> length b \<le> sz"
proof (induction ch arbitrary: res)
  case (Cons r ch)
  show ?case
  proof (cases "Suc (length res) = sz")
    case True
    with Cons.prems Cons.IH [of "[]"] show ?thesis by (auto simp: clump_Cons simp del: clump.simps)
  next
    case False
    with Cons.prems Cons.IH [of "res @ [r]"] show ?thesis by (simp add: clump_Cons del: clump.simps)
  qed
qed (auto split: if_splits)

lemma clump_full:
  "length res < sz \<Longrightarrow> b \<in> set (butlast (clump sz ch res)) \<Longrightarrow> length b = sz"
proof (induction ch arbitrary: res)
  case (Cons r ch)
  show ?case
  proof (cases "Suc (length res) = sz")
    case True
    with Cons.prems Cons.IH [of "[]"] show ?thesis
      by (auto simp: clump_Cons simp del: clump.simps split: if_splits)
  next
    case False
    with Cons.prems Cons.IH [of "res @ [r]"] show ?thesis by (simp add: clump_Cons del: clump.simps)
  qed
qed (auto split: if_splits)

subsection \<open>The view in memory\<close>

lemma memView_browse_ok:
  assumes "ascending (<) (memRows view_file_browse d)"
  shows "browse_ok (memBucket memView) map_of (<) d (memRows view_file_browse d)"
  using assms
  by (simp add: browse_ok_def emitted_memRows memBucket_def memView_def browseParams_def Let_def)

section \<open>Properties\<close>



text \<open>
  The batches of the consistency report. The batches put together are the files in their order, no
  batch is empty or larger than the given size, and only the last one may be smaller.
\<close>

theorem keyClumper_batches:
  assumes "0 < sz"
  shows "concat (keyClumper files sz) = files \<and>
     (\<forall>b \<in> set (keyClumper files sz). 0 < length b \<and> length b \<le> sz) \<and>
     (\<forall>b \<in> set (butlast (keyClumper files sz)). length b = sz)"
  using assms clump_concat [of sz files "[]"] clump_lengths [of "[]" sz _ files] clump_full [of "[]" sz _ files]
  by (simp add: keyClumper_def)

theorem keyClumper_batches_witness:
  "keyClumper [1 :: nat, 2, 3] 2 = [[1, 2], [3]] \<and> concat (keyClumper [1 :: nat, 2, 3] 2) = [1, 2, 3]"
proof -
  have "keyClumper [1 :: nat, 2, 3] 2 = [[1, 2], [3]]" by code_simp
  with keyClumper_batches [of 2 "[1 :: nat, 2, 3]"] show ?thesis by simp
qed

end
