(* ===== verification/Backup.thy ===== *)
theory Backup
  imports Paths
begin

text \<open>
  Backups and restores (\<open>src/backup.go\<close>): the list of backups kept in the bucket, writing a backup as an
  object of the store, restoring one file, and collecting the hashes that backups refer to.

  The set of hashes is a package outside the sources: its operations are a parameter (\<open>hsOps\<close>) of
  which \<open>hashset_ok\<close> says what is relied on. The text of a JSON value and the compressed form of a
  sequence of them are parameters too. \<open>loadExistingHashes\<close> collects what its workers send over three
  channels; the order in which the messages arrive is an argument.

  Lemmas: the JSON form of the list of backups; what the collector returns for every order of
  messages; which hashes end up in the set; what a failed backup reports.
\<close>

section \<open>The list of backups\<close>

definition backupKey :: string where "backupKey = ''/@backup''"

record backupItem =
  bi_Fn :: string
  bi_Oid :: string
  bi_When :: time
  bi_Conf :: cbfsConfig

record backups =
  bk_Latest :: backupItem
  bk_Backups :: "backupItem list"

definition cbfsConfig_zero :: cbfsConfig where
  "cbfsConfig_zero =
     \<lparr> cf_GCFreq = 0, cf_GCEnabled = False, cf_GCLimit = 0, cf_Hash = [], cf_HeartbeatFreq = 0,
       cf_MinReplicas = 0, cf_MaxReplicas = 0, cf_NodeCleanCount = 0, cf_ReconcileFreq = 0,
       cf_ReconcileAge = 0, cf_QuickReconcileFreq = 0, cf_LocalValidationFreq = 0,
       cf_StaleNodeCheckFreq = 0, cf_StaleNodeLimit = 0, cf_UnderReplicaCheckFreq = 0,
       cf_OverReplicaCheckFreq = 0, cf_ReplicationCheckLimit = 0, cf_DefaultVersionCount = 0,
       cf_UpdateNodeSizesFreq = 0, cf_TrimFullNodesFreq = 0, cf_TrimFullNodesCount = 0,
       cf_TrimFullNodesSpace = 0, cf_DriftWarnThresh = 0 \<rparr>"

definition backupItem_zero :: backupItem where
  "backupItem_zero = \<lparr>bi_Fn = [], bi_Oid = [], bi_When = 0, bi_Conf = cbfsConfig_zero\<rparr>"

definition backups_zero :: backups where
  "backups_zero = \<lparr>bk_Latest = backupItem_zero, bk_Backups = []\<rparr>"

definition marshal_backupItem :: "backupItem \<Rightarrow> json" where
  "marshal_backupItem b =
     JObj [(''filename'', JStr (bi_Fn b)), (''oid'', JStr (bi_Oid b)), (''when'', JTime (bi_When b)),
           (''conf'', marshal_config (bi_Conf b))]"

text \<open>A nil list of backups is encoded as null.\<close>

definition marshal_backups :: "backups \<Rightarrow> json" where
  "marshal_backups b =
     JObj [(''latest'', marshal_backupItem (bk_Latest b)),
           (''backups'', if bk_Backups b = [] then JNull else JArr (map marshal_backupItem (bk_Backups b)))]"

text \<open>
  Decoding. The configuration decodes itself; it panics on a hash that is not a string, and then so does
  the decoder (\<open>confPanics\<close>).
\<close>

definition decConf :: "(time \<Rightarrow> string) \<Rightarrow> json \<Rightarrow> cbfsConfig option" where
  "decConf tt j = (case unmarshal_config tt (RJson j) of SetOk c \<Rightarrow> Some c | _ \<Rightarrow> None)"

definition confPanics :: "(time \<Rightarrow> string) \<Rightarrow> json \<Rightarrow> bool" where
  "confPanics tt j =
     (case j of
        JObj ms \<Rightarrow> (case jmember ''conf'' ms of Some c \<Rightarrow> unmarshal_config tt (RJson c) = SetPanic | None \<Rightarrow> False)
      | _ \<Rightarrow> False)"

fun decBackupItem :: "(time \<Rightarrow> string) \<Rightarrow> json \<Rightarrow> backupItem option" where
  "decBackupItem tt (JObj ms) = do {
     f \<leftarrow> fld ''filename'' decStr [] ms;
     i \<leftarrow> fld ''oid'' decStr [] ms;
     w \<leftarrow> fld ''when'' decTime 0 ms;
     c \<leftarrow> fld ''conf'' (decConf tt) cbfsConfig_zero ms;
     Some \<lparr>bi_Fn = f, bi_Oid = i, bi_When = w, bi_Conf = c\<rparr> }"
| "decBackupItem tt _ = None"

definition fields_backups :: "(time \<Rightarrow> string) \<Rightarrow> (string \<times> json) list \<Rightarrow> backups option" where
  "fields_backups tt ms = do {
     l \<leftarrow> fld ''latest'' (decBackupItem tt) backupItem_zero ms;
     bs \<leftarrow> fld ''backups'' (decList (decBackupItem tt) backupItem_zero) [] ms;
     Some \<lparr>bk_Latest = l, bk_Backups = bs\<rparr> }"

definition unmarshal_backups :: "(time \<Rightarrow> string) \<Rightarrow> raw option \<Rightarrow> backups option go" where
  "unmarshal_backups tt r =
     (case r of
        Some (RJson (JObj ms)) \<Rightarrow>
          (if list_ex (confPanics tt)
                ((case jmember ''latest'' ms of Some j \<Rightarrow> [j] | None \<Rightarrow> []) @
                 (case jmember ''backups'' ms of Some (JArr js) \<Rightarrow> js | _ \<Rightarrow> []))
           then Panic else Ret (fields_backups tt ms))
      | Some (RJson JNull) \<Rightarrow> Ret (Some backups_zero)
      | _ \<Rightarrow> Ret None)"

text \<open>\<open>couchbase.Get(backupKey, &b)\<close>.\<close>

definition getBackups :: "(time \<Rightarrow> string) \<Rightarrow> 'db bucket \<Rightarrow> 'db \<Rightarrow> (gerr + backups) go" where
  "getBackups tt cb d =
     (case cbGet cb backupKey d of
        Inl er \<Rightarrow> Ret (Inl er)
      | Inr v \<Rightarrow>
          (case unmarshal_backups tt (Some v) of
             Panic \<Rightarrow> Panic
           | Ret None \<Rightarrow> Ret (Inl EJson)
           | Ret (Some b) \<Rightarrow> Ret (Inr b)))"

fun removeDeadBackups :: "'db bucket \<Rightarrow> (string \<Rightarrow> string) \<Rightarrow> 'db \<Rightarrow> backupItem list \<Rightarrow> backupItem list" where
  "removeDeadBackups cb sha1 d [] = []"
| "removeDeadBackups cb sha1 d (bi # bs) =
     (if cbGet cb (shortName sha1 (bi_Fn bi)) d = Inl ENotFound then removeDeadBackups cb sha1 d bs
      else bi # removeDeadBackups cb sha1 d bs)"

text \<open>
  The text of a JSON value is \<open>jt\<close>; \<open>crErr\<close> is the error of creating the file.
\<close>

definition recordBackupObject ::
  "(time \<Rightarrow> string) \<Rightarrow> (json \<Rightarrow> string) \<Rightarrow> gerr option \<Rightarrow> env \<Rightarrow> 'db bucket \<Rightarrow> (string \<Rightarrow> string) \<Rightarrow> 'db world
     \<Rightarrow> (gerr option \<times> 'db world) go" where
  "recordBackupObject tt jt crErr e cb sha1 w =
     (case getBackups tt cb (w_db w) of
        Panic \<Rightarrow> Panic
      | Ret (Inl er) \<Rightarrow> Ret (Some er, w)
      | Ret (Inr b) \<Rightarrow>
          (case crErr of
             Some er \<Rightarrow> Ret (Some er, w)
           | None \<Rightarrow>
               Ret (None, w\<lparr>w_fs := (w_fs w)\<lparr>fs_files := (fs_files (w_fs w))
                 (e_root e @ ''/.backup.json'' \<mapsto>
                    jt (marshal_backups (b\<lparr>bk_Backups := removeDeadBackups cb sha1 (w_db w) (bk_Backups b)\<rparr>)))\<rparr>\<rparr>)))"

definition markBackupPrefix :: string where "markBackupPrefix = ''/.cbfs/backup/mark/''"

text \<open>The requests \<open>recordRemoteBackupObjects\<close> sends; their results are only logged.\<close>

definition recordRemoteBackupObjects :: "env \<Rightarrow> 'db bucket \<Rightarrow> 'db \<Rightarrow> string list" where
  "recordRemoteBackupObjects e cb d =
     (case findRemoteNodes e cb d of
        Inl _ \<Rightarrow> []
      | Inr rn \<Rightarrow> map (\<lambda>n. ''http://'' @ Address n @ markBackupPrefix) rn)"

definition storeBackupObject ::
  "(time \<Rightarrow> string) \<Rightarrow> env \<Rightarrow> 'db bucket \<Rightarrow> (string \<Rightarrow> string) \<Rightarrow> time \<Rightarrow> string \<Rightarrow> string \<Rightarrow> 'db
     \<Rightarrow> (gerr option \<times> 'db) go" where
  "storeBackupObject tt e cb sha1 now fn h d =
     (case getBackups tt cb d of
        Panic \<Rightarrow> Panic
      | Ret r \<Rightarrow>
          (let b = (case r of Inr b \<Rightarrow> b | Inl _ \<Rightarrow> backups_zero);
               ob = \<lparr>bi_Fn = fn, bi_Oid = h, bi_When = now, bi_Conf = e_conf e\<rparr>;
               b' = \<lparr>bk_Latest = ob, bk_Backups = removeDeadBackups cb sha1 d (bk_Backups b) @ [ob]\<rparr>
           in Ret (cbSet cb backupKey 0 (RJson (marshal_backups b')) d)))"

section \<open>Writing a backup\<close>

text \<open>
  \<open>backupTo\<close>: what was encoded, and the error it returns once the stream has ended. The deferred close
  replaces an error of the stream by its own result, and leaves a nil error alone.
\<close>

definition backupTo ::
  "(nat \<Rightarrow> gerr option) \<Rightarrow> streamEv list \<Rightarrow> gerr option \<Rightarrow> (json list \<times> gerr option) option" where
  "backupTo wr evs closeErr =
     (case streamFileMeta wr evs False [] of
        (out, None) \<Rightarrow> None
      | (out, Some er) \<Rightarrow> Some (out, if er \<noteq> None then closeErr else er))"

record 'db backupEnv =
  be_tt :: "time \<Rightarrow> string"
  be_jt :: "json \<Rightarrow> string"
  be_gzip :: "json list \<Rightarrow> string"
  be_evs :: "streamEv list"
  be_wr :: "nat \<Rightarrow> gerr option"
  be_closeErr :: "gerr option"
  be_tmp :: "gerr + string"
  be_wfail :: "(gerr \<times> nat) option"
  be_fcloseErr :: "gerr option"
  be_crErr :: "gerr option"
  be_clk :: "nat \<Rightarrow> time"
  be_now :: time
  be_sha1 :: "string \<Rightarrow> string"

text \<open>
  After the hash record: ownership, the file's metadata, the list of backups, the local note, and the
  extra replicas. A stream that never ends is \<open>None\<close>.
\<close>

definition linkBackup ::
  "env \<Rightarrow> 'db bucket \<Rightarrow> 'db backupEnv \<Rightarrow> string \<Rightarrow> string \<Rightarrow> int \<Rightarrow> 'db world \<Rightarrow> (gerr option \<times> 'db world) go" where
  "linkBackup e cb be fn h len w =
     (case recordBlobOwnership e cb (be_clk be) h len True (w_db w) of
        (Panic, _) \<Rightarrow> Panic
      | (Ret (Some er), d1) \<Rightarrow> Ret (Some er, w\<lparr>w_db := d1\<rparr>)
      | (Ret None, d1) \<Rightarrow>
          (case storeMeta cb (be_sha1 be) fn 0 (fileMeta_zero\<lparr>fm_OID := h, fm_Length := len, fm_Modified := be_now be\<rparr>)
                  1 None d1 of
             (UpdPanic, _) \<Rightarrow> Panic
           | (UpdErr er, d2) \<Rightarrow> Ret (Some er, w\<lparr>w_db := d2\<rparr>)
           | (UpdOk, d2) \<Rightarrow>
               (case storeBackupObject (be_tt be) e cb (be_sha1 be) (be_now be) fn h d2 of
                  Panic \<Rightarrow> Panic
                | Ret (Some er, d3) \<Rightarrow> Ret (Some er, w\<lparr>w_db := d3\<rparr>)
                | Ret (None, d3) \<Rightarrow>
                    (case recordBackupObject (be_tt be) (be_jt be) (be_crErr be) e cb (be_sha1 be) (w\<lparr>w_db := d3\<rparr>) of
                       Panic \<Rightarrow> Panic
                     | Ret (_, w4) \<Rightarrow>
                         (case increaseReplicaCount e cb h len (i64 (cf_MinReplicas (e_conf e) - 1)) (w_db w4) (w_q w4) of
                            Panic \<Rightarrow> Panic
                          | Ret (_, q') \<Rightarrow> Ret (None, w4\<lparr>w_q := q'\<rparr>))))))"

definition backupToCBFS ::
  "(string \<Rightarrow> string \<Rightarrow> string) \<Rightarrow> env \<Rightarrow> 'db bucket \<Rightarrow> 'db backupEnv \<Rightarrow> string \<Rightarrow> 'db world
     \<Rightarrow> (gerr option \<times> 'db world) go option" where
  "backupToCBFS sm e cb be fn w =
     (case NewHashRecord sm e (be_tmp be) [] (w_fs w) of
        (Inl er, f0) \<Rightarrow> Some (Ret (Some er, w\<lparr>w_fs := f0\<rparr>))
      | (Inr h0, f0) \<Rightarrow>
          (case backupTo (be_wr be) (be_evs be) (be_closeErr be) of
             None \<Rightarrow> None
           | Some (out, rerr) \<Rightarrow>
               (case hrProcess [(be_gzip be out, be_wfail be)] rerr (be_fcloseErr be) h0 f0 of
                  Panic \<Rightarrow> Some Panic
                | Ret (Inl er, n, h1, f1) \<Rightarrow> Some (Ret (Some er, w\<lparr>w_fs := hrClose (Some h1) f1\<rparr>))
                | Ret (Inr h, n, h1, f1) \<Rightarrow>
                    Some (linkBackup e cb be fn h n (w\<lparr>w_fs := hrClose (Some h1) f1\<rparr>)))))"

section \<open>Handlers\<close>

text \<open>The response, the state, and the requests sent to other nodes.\<close>

definition doMarkBackup ::
  "(time \<Rightarrow> string) \<Rightarrow> (json \<Rightarrow> string) \<Rightarrow> gerr option \<Rightarrow> env \<Rightarrow> 'db bucket \<Rightarrow> (string \<Rightarrow> string) \<Rightarrow> request
     \<Rightarrow> 'db world \<Rightarrow> (response \<times> string list \<times> 'db world) go" where
  "doMarkBackup tt jt crErr e cb sha1 req w =
     (let sent = (if FormValue req ''all'' = ''true'' then recordRemoteBackupObjects e cb (w_db w) else []) in
      case recordBackupObject tt jt crErr e cb sha1 w of
        Panic \<Rightarrow> Panic
      | Ret (Some er, w') \<Rightarrow> Ret (httpErr er 500, sent, w')
      | Ret (None, w') \<Rightarrow> Ret (statusOnly 204, sent, w'))"

text \<open>
  In the background the answer is 202 and the backup runs afterwards; its error is only logged.
\<close>

definition doBackupDocs ::
  "(string \<Rightarrow> string \<Rightarrow> string) \<Rightarrow> env \<Rightarrow> 'db bucket \<Rightarrow> 'db backupEnv \<Rightarrow> request \<Rightarrow> 'db world
     \<Rightarrow> (response \<times> 'db world) go option" where
  "doBackupDocs sm e cb be req w =
     (let fn = FormValue req ''fn'' in
      if fn = [] then Some (Ret (httpError ''Missing fn parameter'' 400, w))
      else (let bg = (parseBool (FormValue req ''bg'') = Some True) in
            case backupToCBFS sm e cb be fn w of
              None \<Rightarrow> if bg then Some (Ret (statusOnly 202, w)) else None
            | Some Panic \<Rightarrow> Some Panic
            | Some (Ret (er, w')) \<Rightarrow>
                Some (Ret (if bg then statusOnly 202
                           else (case er of Some x \<Rightarrow> httpErr x 500 | None \<Rightarrow> statusOnly 201), w'))))"

definition doGetBackupInfo ::
  "(time \<Rightarrow> string) \<Rightarrow> 'db bucket \<Rightarrow> (string \<Rightarrow> string) \<Rightarrow> request \<Rightarrow> 'db \<Rightarrow> response go" where
  "doGetBackupInfo tt cb sha1 req d =
     (case getBackups tt cb d of
        Panic \<Rightarrow> Panic
      | Ret (Inl er) \<Rightarrow> Ret (httpErr er (if er = ENotFound then 404 else 500))
      | Ret (Inr b) \<Rightarrow>
          Ret (sendJson req (marshal_backups (b\<lparr>bk_Backups := removeDeadBackups cb sha1 d (bk_Backups b)\<rparr>))))"

text \<open>\<open>Time.Unix\<close>: seconds since 1970 of a time counted from the year one.\<close>

definition unixOf :: "time \<Rightarrow> int" where
  "unixOf t = t div second - 62135596800"

text \<open>
  \<open>doRestoreDocument\<close>: \<open>inp\<close> is the body of the request. The error of \<open>referenceBlob\<close> is only logged.
\<close>

definition restoreExpiration :: "request \<Rightarrow> fileMeta \<Rightarrow> int" where
  "restoreExpiration req fm =
     (let ex0 = getExpiration (rq_Header req) in
      if ex0 = - 1 then
        (let ex1 = getExpiration (fm_Headers fm) in
         if ex1 > 0 \<and> ex1 < 60 * 60 * 24 * 30 then unixOf (fm_Modified fm + second * ex1) else ex1)
      else ex0)"

definition doRestoreDocument ::
  "'db bucket \<Rightarrow> time \<Rightarrow> request \<Rightarrow> raw \<Rightarrow> string \<Rightarrow> 'db \<Rightarrow> response \<times> 'db" where
  "doRestoreDocument cb now req inp fn0 d =
     (case unmarshal_fileMeta (Some inp) of
        None \<Rightarrow> (httpErr EJson 500, d)
      | Some fm \<Rightarrow>
          (let fn = trimSlashes fn0 in
           if fn = [] then (httpError ''No filename'' 400, d)
           else if containsStr fn ''//'' then (httpError (''Too many slashes in the path name: '' @ fn) 400, d)
           else
             (let (_, d1) = referenceBlob cb now (fm_OID fm) d;
                  ex = restoreExpiration req fm in
              if ex < 0 then (statusOnly 201, d1)
              else (case maybeStoreMeta cb fn fm ex False d1 of
                      (Some EItemExists, d2) \<Rightarrow> (httpErr EItemExists 409, d2)
                    | (None, d2) \<Rightarrow> (statusOnly 201, d2)
                    | (Some er, d2) \<Rightarrow> (httpErr er 500, d2)))))"

section \<open>The hashes of the backups\<close>

record 'hs hsOps =
  hs_empty :: 'hs
  hs_Add :: "string \<Rightarrow> 'hs \<Rightarrow> 'hs"
  hs_AddAll :: "'hs \<Rightarrow> 'hs \<Rightarrow> 'hs"
  hs_Contains :: "'hs \<Rightarrow> string \<Rightarrow> bool"

definition hashset_ok :: "'hs hsOps \<Rightarrow> bool" where
  "hashset_ok hs \<longleftrightarrow>
     (\<forall>x. \<not> hs_Contains hs (hs_empty hs) x) \<and>
     (\<forall>x s y. hs_Contains hs (hs_Add hs x s) y \<longleftrightarrow> y = x \<or> hs_Contains hs s y) \<and>
     (\<forall>s t y. hs_Contains hs (hs_AddAll hs s t) y \<longleftrightarrow> hs_Contains hs s y \<or> hs_Contains hs t y)"

text \<open>An entry of a backup: the object of a file and those of its older revisions.\<close>

fun decOlder :: "json \<Rightarrow> string option" where
  "decOlder (JObj ms) = fld ''oid'' decStr [] ms"
| "decOlder _ = None"

fun decMeta :: "json \<Rightarrow> (string \<times> string list) option" where
  "decMeta (JObj ms) = do {
     i \<leftarrow> fld ''oid'' decStr [] ms;
     os \<leftarrow> fld ''older'' (decList decOlder []) [] ms;
     Some (i, os) }"
| "decMeta _ = None"

definition entryOids :: "json \<Rightarrow> (string \<times> string list) option" where
  "entryOids j = (case j of JObj ms \<Rightarrow> fld ''meta'' decMeta ([], []) ms | JNull \<Rightarrow> Some ([], []) | _ \<Rightarrow> None)"

fun addOlder :: "'hs hsOps \<Rightarrow> string list \<Rightarrow> 'hs \<Rightarrow> int \<Rightarrow> (gerr + 'hs) \<times> int" where
  "addOlder hs [] rv visited = (Inr rv, visited)"
| "addOlder hs (oid # os) rv visited =
     (case hexDecode oid of
        None \<Rightarrow> (Inl (EMsg ''encoding/hex''), visited)
      | Some b \<Rightarrow> addOlder hs os (hs_Add hs b rv) (visited + 1))"

text \<open>
  The decoder yields documents and ends with end of file (\<open>None\<close>) or an error.
\<close>

fun loadEntries :: "'hs hsOps \<Rightarrow> nat \<Rightarrow> json list \<Rightarrow> gerr option \<Rightarrow> 'hs \<Rightarrow> int \<Rightarrow> (gerr + 'hs) \<times> int" where
  "loadEntries hs hashlen [] endErr rv visited =
     ((case endErr of None \<Rightarrow> Inr rv | Some er \<Rightarrow> Inl er), visited)"
| "loadEntries hs hashlen (j # js) endErr rv visited =
     (case entryOids j of
        None \<Rightarrow> (Inl EJson, visited)
      | Some (oid, older) \<Rightarrow>
          (case hexDecode oid of
             None \<Rightarrow> (Inl (EMsg ''encoding/hex''), visited)
           | Some b \<Rightarrow>
               (if length b \<noteq> hashlen then loadEntries hs hashlen js endErr rv visited
                else (case addOlder hs older (hs_Add hs b rv) (visited + 1) of
                        (Inl er, v) \<Rightarrow> (Inl er, v)
                      | (Inr rv', v) \<Rightarrow> loadEntries hs hashlen js endErr rv' v))))"

text \<open>
  \<open>gunzip\<close> turns the bytes of a blob, and the error reading it ended with, into the error of opening
  the compressed stream, or the documents of the stream and how it ended.
\<close>

definition loadBackupHashes ::
  "'hs hsOps \<Rightarrow> (string \<Rightarrow> gerr option \<Rightarrow> gerr + (json list \<times> gerr option)) \<Rightarrow> (string \<Rightarrow> string \<Rightarrow> string) \<Rightarrow> env
     \<Rightarrow> 'db bucket \<Rightarrow> 'db fetchEnv \<Rightarrow> string \<Rightarrow> 'db world \<Rightarrow> (((gerr + 'hs) \<times> int) \<times> 'db world) go" where
  "loadBackupHashes hs gunzip sm e cb fe oid w =
     (case copyBlob sm e cb fe oid w of
        Panic \<Rightarrow> Panic
      | Ret (c, er, w') \<Rightarrow>
          (case gunzip c er of
             Inl ge \<Rightarrow> Ret ((Inl ge, 0), w')
           | Inr (docs, endErr) \<Rightarrow>
               (case hashSize e of
                  None \<Rightarrow> Panic
                | Some n \<Rightarrow> Ret (loadEntries hs n docs endErr (hs_empty hs) 0, w'))))"

text \<open>What the collector receives: values, or the closing of a channel.\<close>

datatype 'hs loadMsg =
    MHashes 'hs | MHashesClosed | MVisit int | MVisitClosed | MErr gerr | MErrClosed

record 'hs loadState =
  ls_hs :: 'hs
  ls_visited :: int
  ls_err :: "gerr option"
  ls_hsch :: bool
  ls_visitch :: bool
  ls_errch :: bool

text \<open>
  One receive; a channel variable that is nil is never ready, and receiving from a closed channel gives
  the zero value.
\<close>

fun collectMsg :: "'hs hsOps \<Rightarrow> 'hs loadMsg \<Rightarrow> 'hs loadState \<Rightarrow> 'hs loadState" where
  "collectMsg hs (MVisit v) s = (if ls_visitch s then s\<lparr>ls_visited := i64 (ls_visited s + v)\<rparr> else s)"
| "collectMsg hs MVisitClosed s = s\<lparr>ls_visitch := False\<rparr>"
| "collectMsg hs (MErr er) s = (if ls_errch s then s\<lparr>ls_err := Some er\<rparr> else s)"
| "collectMsg hs MErrClosed s = (if ls_errch s then s\<lparr>ls_err := None, ls_errch := False\<rparr> else s)"
| "collectMsg hs (MHashes h) s = (if ls_hsch s then s\<lparr>ls_hs := hs_AddAll hs h (ls_hs s)\<rparr> else s)"
| "collectMsg hs MHashesClosed s = s\<lparr>ls_hsch := False\<rparr>"

fun collect :: "'hs hsOps \<Rightarrow> 'hs loadMsg list \<Rightarrow> 'hs loadState \<Rightarrow> 'hs loadState option" where
  "collect hs ms s =
     (if \<not> ls_hsch s \<and> \<not> ls_visitch s \<and> \<not> ls_errch s then Some s
      else case ms of [] \<Rightarrow> None | m # ms' \<Rightarrow> collect hs ms' (collectMsg hs m s))"

declare collect.simps [simp del]

fun loadAll ::
  "'hs hsOps \<Rightarrow> (string \<Rightarrow> gerr option \<Rightarrow> gerr + (json list \<times> gerr option)) \<Rightarrow> (string \<Rightarrow> string \<Rightarrow> string) \<Rightarrow> env
     \<Rightarrow> 'db bucket \<Rightarrow> 'db fetchEnv \<Rightarrow> backupItem list \<Rightarrow> 'db world \<Rightarrow> ('hs loadMsg list \<times> 'db world) go" where
  "loadAll hs gunzip sm e cb fe [] w = Ret ([], w)"
| "loadAll hs gunzip sm e cb fe (b # bs) w =
     (case loadBackupHashes hs gunzip sm e cb fe (bi_Oid b) w of
        Panic \<Rightarrow> Panic
      | Ret ((r, v), w1) \<Rightarrow>
          (case loadAll hs gunzip sm e cb fe bs w1 of
             Panic \<Rightarrow> Panic
           | Ret (ms, w2) \<Rightarrow> Ret ((case r of Inr h \<Rightarrow> MHashes h | Inl er \<Rightarrow> MErr er) # MVisit v # ms, w2)))"

text \<open>
  The workers send a result and a count per backup and close the channels at the end; \<open>sched\<close> is the
  order in which the collector receives that. \<open>None\<close>: the collector never finishes.
\<close>

definition loadExistingHashes ::
  "'hs hsOps \<Rightarrow> (string \<Rightarrow> gerr option \<Rightarrow> gerr + (json list \<times> gerr option)) \<Rightarrow> ('hs loadMsg list \<Rightarrow> 'hs loadMsg list)
     \<Rightarrow> (time \<Rightarrow> string) \<Rightarrow> (string \<Rightarrow> string \<Rightarrow> string) \<Rightarrow> env \<Rightarrow> 'db bucket \<Rightarrow> 'db fetchEnv \<Rightarrow> 'db world
     \<Rightarrow> ((gerr + 'hs) \<times> 'db world) go option" where
  "loadExistingHashes hs gunzip sched tt sm e cb fe w =
     (case getBackups tt cb (w_db w) of
        Panic \<Rightarrow> Some Panic
      | Ret r \<Rightarrow>
          (let (b, err) = (case r of Inr b \<Rightarrow> (b, None) | Inl er \<Rightarrow> (backups_zero, Some er)) in
           if err \<noteq> None \<and> err \<noteq> Some ENotFound then Some (Ret (Inl (the err), w))
           else
             (case loadAll hs gunzip sm e cb fe (bk_Backups b) w of
                Panic \<Rightarrow> Some Panic
              | Ret (ms, w') \<Rightarrow>
                  map_option (\<lambda>s. Ret (case ls_err s of None \<Rightarrow> Inr (ls_hs s) | Some x \<Rightarrow> Inl x, w'))
                    (collect hs (sched (ms @ [MHashesClosed, MVisitClosed, MErrClosed]))
                       \<lparr>ls_hs = hs_empty hs, ls_visited = 0, ls_err = err, ls_hsch = True, ls_visitch = True,
                        ls_errch = True\<rparr>))))"

section \<open>Lemmas\<close>

subsection \<open>The collector\<close>

text \<open>The channel of a message; a schedule keeps the order of each channel.\<close>

fun chan :: "'hs loadMsg \<Rightarrow> nat" where
  "chan (MHashes _) = 0"
| "chan MHashesClosed = 0"
| "chan (MVisit _) = 1"
| "chan MVisitClosed = 1"
| "chan (MErr _) = 2"
| "chan MErrClosed = 2"

definition sched_ok :: "('hs loadMsg list \<Rightarrow> 'hs loadMsg list) \<Rightarrow> bool" where
  "sched_ok sched \<longleftrightarrow> (\<forall>ms c. filter (\<lambda>m. chan m = c) (sched ms) = filter (\<lambda>m. chan m = c) ms)"

lemma collect_done [simp]: "\<not> ls_hsch s \<Longrightarrow> \<not> ls_visitch s \<Longrightarrow> \<not> ls_errch s \<Longrightarrow> collect hs ms s = Some s"
  by (subst collect.simps) simp

lemma collect_Cons:
  "ls_hsch s \<or> ls_visitch s \<or> ls_errch s \<Longrightarrow> collect hs (m # ms) s = collect hs ms (collectMsg hs m s)"
  by (subst collect.simps) auto

lemma collect_returns:
  assumes "ls_hsch s \<longrightarrow> MHashesClosed \<in> set ms" and "ls_visitch s \<longrightarrow> MVisitClosed \<in> set ms"
    and "ls_errch s \<longrightarrow> MErrClosed \<in> set ms" and "\<not> ls_errch s \<longrightarrow> ls_err s = None"
  shows "\<exists>s'. collect hs ms s = Some s' \<and> ls_err s' = None"
  using assms
proof (induction ms arbitrary: s)
  case (Cons m ms)
  show ?case
  proof (cases "ls_hsch s \<or> ls_visitch s \<or> ls_errch s")
    case True
    moreover have "\<exists>s'. collect hs ms (collectMsg hs m s) = Some s' \<and> ls_err s' = None"
      by (rule Cons.IH) (use Cons.prems in \<open>cases m; auto\<close>)+
    ultimately show ?thesis by (simp add: collect_Cons)
  qed (use Cons.prems in auto)
qed auto

lemma collect_hashes:
  assumes "hashset_ok hs" and "collect hs ms s = Some s'"
  shows "hs_Contains hs (ls_hs s') y \<longleftrightarrow> hs_Contains hs (ls_hs s) y \<or>
     (ls_hsch s \<and> (\<exists>h. MHashes h \<in> set (takeWhile (\<lambda>m. m \<noteq> MHashesClosed) ms) \<and> hs_Contains hs h y))"
  using assms(2)
proof (induction ms arbitrary: s)
  case Nil
  then show ?case by (subst (asm) collect.simps) (auto split: if_splits)
next
  case (Cons m ms)
  show ?case
  proof (cases "ls_hsch s \<or> ls_visitch s \<or> ls_errch s")
    case True
    with Cons.prems have "collect hs ms (collectMsg hs m s) = Some s'" by (simp add: collect_Cons)
    note IH = Cons.IH [OF this]
    show ?thesis using IH assms(1) by (cases m) (auto simp: hashset_ok_def)
  qed (use Cons.prems in auto)
qed

lemma filter_takeWhile_neq: "P c \<Longrightarrow> filter P (takeWhile (\<lambda>m. m \<noteq> c) xs) = takeWhile (\<lambda>m. m \<noteq> c) (filter P xs)"
  by (induction xs) auto

lemma takeWhile_neq_snoc: "c \<notin> set ys \<Longrightarrow> takeWhile (\<lambda>m. m \<noteq> c) (ys @ [c]) = ys"
  by (induction ys) auto

lemma sched_ok_set:
  assumes "sched_ok sched"
  shows "set (sched ms) = set ms"
proof -
  have "m \<in> set (sched ms) \<longleftrightarrow> m \<in> set ms" for m
  proof -
    have "filter (\<lambda>x. chan x = chan m) (sched ms) = filter (\<lambda>x. chan x = chan m) ms"
      using assms by (simp add: sched_ok_def)
    from arg_cong [OF this, of "\<lambda>xs. m \<in> set xs"] show ?thesis by simp
  qed
  then show ?thesis by blast
qed

lemma sched_hashes:
  assumes "sched_ok sched" and "MHashesClosed \<notin> set ms"
  shows "MHashes h \<in> set (takeWhile (\<lambda>m. m \<noteq> MHashesClosed) (sched (ms @ [MHashesClosed, MVisitClosed, MErrClosed])))
     \<longleftrightarrow> MHashes h \<in> set ms"
proof -
  let ?xs = "sched (ms @ [MHashesClosed, MVisitClosed, MErrClosed])"
  have "filter (\<lambda>m. chan m = 0) ?xs = filter (\<lambda>m. chan m = 0) ms @ [MHashesClosed]"
    using assms(1) by (simp add: sched_ok_def)
  then have "filter (\<lambda>m. chan m = 0) (takeWhile (\<lambda>m. m \<noteq> MHashesClosed) ?xs) = filter (\<lambda>m. chan m = 0) ms"
    using assms(2) by (simp add: filter_takeWhile_neq takeWhile_neq_snoc)
  from arg_cong [OF this, of "\<lambda>xs. MHashes h \<in> set xs"] show ?thesis by simp
qed

lemma loadAll_msgs:
  "loadAll hs gunzip sm e cb fe bs w = Ret (ms, w') \<Longrightarrow> MHashesClosed \<notin> set ms"
  by (induction bs arbitrary: w ms) (auto split: go.splits prod.splits sum.splits)

lemma loadExistingHashes_runs:
  assumes "hashset_ok hs" and "sched_ok sched"
    and "getBackups tt cb (w_db w) = Ret (Inr b)" and "loadAll hs gunzip sm e cb fe (bk_Backups b) w = Ret (ms, w')"
  shows "\<exists>S. loadExistingHashes hs gunzip sched tt sm e cb fe w = Some (Ret (Inr S, w')) \<and>
     (\<forall>y. hs_Contains hs S y \<longleftrightarrow> (\<exists>h. MHashes h \<in> set ms \<and> hs_Contains hs h y))"
proof -
  let ?s = "\<lparr>ls_hs = hs_empty hs, ls_visited = 0, ls_err = None, ls_hsch = True, ls_visitch = True, ls_errch = True\<rparr>"
  let ?ms = "ms @ [MHashesClosed, MVisitClosed, MErrClosed]"
  obtain s' where s': "collect hs (sched ?ms) ?s = Some s'" "ls_err s' = None"
    using collect_returns [of ?s "sched ?ms" hs] sched_ok_set [OF assms(2), of ?ms] by auto
  have "hs_Contains hs (ls_hs s') y \<longleftrightarrow> (\<exists>h. MHashes h \<in> set ms \<and> hs_Contains hs h y)" for y
    using collect_hashes [OF assms(1) s'(1), of y] sched_hashes [OF assms(2) loadAll_msgs [OF assms(4)]] assms(1)
    by (simp add: hashset_ok_def)
  moreover have "loadExistingHashes hs gunzip sched tt sm e cb fe w = Some (Ret (Inr (ls_hs s'), w'))"
    using assms(3,4) s' by (simp add: loadExistingHashes_def)
  ultimately show ?thesis by blast
qed

subsection \<open>Entries\<close>

lemma addOlder_contains:
  assumes "hashset_ok hs" and "addOlder hs os rv v = (Inr S, v')"
  shows "hs_Contains hs S y \<longleftrightarrow> hs_Contains hs rv y \<or> (\<exists>oid \<in> set os. hexDecode oid = Some y)"
  using assms(2)
proof (induction os arbitrary: rv v)
  case (Cons oid os)
  then obtain b where b: "hexDecode oid = Some b" "addOlder hs os (hs_Add hs b rv) (v + 1) = (Inr S, v')"
    by (auto split: option.splits)
  from Cons.IH [OF b(2)] b(1) assms(1) show ?case by (auto simp: hashset_ok_def)
qed simp

lemma loadEntries_contains:
  assumes "hashset_ok hs" and "loadEntries hs n docs er rv v = (Inr S, v')"
  shows "hs_Contains hs S y \<longleftrightarrow> hs_Contains hs rv y \<or>
     (\<exists>j \<in> set docs. \<exists>oid older b. entryOids j = Some (oid, older) \<and> hexDecode oid = Some b \<and> length b = n \<and>
        (y = b \<or> (\<exists>o' \<in> set older. hexDecode o' = Some y)))"
  using assms(2)
proof (induction docs arbitrary: rv v)
  case (Cons j docs)
  then obtain oid older b where j: "entryOids j = Some (oid, older)" "hexDecode oid = Some b"
    by (auto split: option.splits)
  show ?case
  proof (cases "length b = n")
    case False
    with Cons.prems j have "loadEntries hs n docs er rv v = (Inr S, v')" by simp
    from Cons.IH [OF this] False j show ?thesis by auto
  next
    case True
    with Cons.prems j obtain rv' u where a: "addOlder hs older (hs_Add hs b rv) (v + 1) = (Inr rv', u)"
      and l: "loadEntries hs n docs er rv' u = (Inr S, v')" by (auto split: prod.splits sum.splits)
    from Cons.IH [OF l] addOlder_contains [OF assms(1) a] True j assms(1) show ?thesis
      by (auto simp: hashset_ok_def)
  qed
qed (auto split: option.splits)

text \<open>The hashes an entry of a stream stands for are those of the file it was written for.\<close>

lemma entryOids_streamEntry:
  "entryOids (streamEntry f) = Some (fm_OID (nf_meta f), map pm_OID (fm_Previous (nf_meta f)))"
proof -
  have p: "decOlder (marshal_prevMeta p) = Some (pm_OID p)" for p
    by (simp add: marshal_prevMeta_def fld_def toLower_def lowerChar_def)
  have nn: "marshal_prevMeta p \<noteq> JNull" for p by (simp add: marshal_prevMeta_def)
  have older: "decAll decOlder [] (map marshal_prevMeta ps) = Some (map pm_OID ps)" for ps
    by (induction ps) (simp_all add: p nn)
  let ?m = "nf_meta f"
  obtain ms where m: "marshal_fileMeta ?m = JObj ms" by (simp add: marshal_fileMeta_def)
  have keys: "jmember ''meta'' [(''meta'', marshal_fileMeta ?m), (''path'', JStr (nf_name f))] = Some (marshal_fileMeta ?m)"
    by (simp add: m toLower_def lowerChar_def)
  have o1: "fld ''oid'' decStr [] ms = Some (fm_OID ?m)" and o2: "fld ''older'' (decList decOlder []) [] ms
      = Some (map pm_OID (fm_Previous ?m))"
    using m by (cases "fm_Userdata ?m"; cases "fm_Name ?m = []"; cases "fm_Previous ?m = []";
      force simp: marshal_fileMeta_def fld_def toLower_def lowerChar_def older)+
  have "entryOids (streamEntry f) = decMeta (marshal_fileMeta ?m)"
    unfolding entryOids_def streamEntry_def json.case fld_present [OF keys] ..
  also have "\<dots> = Some (fm_OID ?m, map pm_OID (fm_Previous ?m))" by (simp add: m o1 o2)
  finally show ?thesis .
qed

subsection \<open>The list of backups\<close>

definition wf_backups :: "backups \<Rightarrow> bool" where
  "wf_backups b \<longleftrightarrow> list_all (\<lambda>i. wf_config (bi_Conf i)) (bk_Latest b # bk_Backups b)"

lemma backup_key_eqs [json_simps]:
  "toLower ''filename'' = ''filename''" "toLower ''when'' = ''when''" "toLower ''conf'' = ''conf''"
  "toLower ''latest'' = ''latest''" "toLower ''backups'' = ''backups''" "toLower ''oid'' = ''oid''"
  by (simp_all add: toLower_def lowerChar_def)

lemma backupItem_roundtrip:
  assumes "wf_config (bi_Conf i)"
  shows "decBackupItem tt (marshal_backupItem i) = Some i \<and> \<not> confPanics tt (marshal_backupItem i)"
proof -
  have c: "marshal_config (bi_Conf i) \<noteq> JNull" by (simp add: marshal_config_def)
  show ?thesis
    using config_roundtrip [OF assms, of tt] c
    by (simp add: marshal_backupItem_def fld_def decConf_def confPanics_def backup_key_eqs)
qed

lemma backupItems_roundtrip:
  "list_all (\<lambda>i. wf_config (bi_Conf i)) bs \<Longrightarrow>
     decAll (decBackupItem tt) backupItem_zero (map marshal_backupItem bs) = Some bs"
proof (induction bs)
  case (Cons b bs)
  moreover have "marshal_backupItem b \<noteq> JNull" by (simp add: marshal_backupItem_def)
  ultimately show ?case using backupItem_roundtrip [of b tt] by simp
qed simp

lemma backups_roundtrip:
  assumes "wf_backups b"
  shows "unmarshal_backups tt (Some (RJson (marshal_backups b))) = Ret (Some b)"
proof -
  have l: "wf_config (bi_Conf (bk_Latest b))" and bs: "list_all (\<lambda>i. wf_config (bi_Conf i)) (bk_Backups b)"
    using assms by (simp_all add: wf_backups_def)
  have nn: "marshal_backupItem i \<noteq> JNull" for i by (simp add: marshal_backupItem_def)
  have nopanic: "\<not> list_ex (confPanics tt) (map marshal_backupItem (bk_Backups b))"
    using bs backupItem_roundtrip by (auto simp: list_ex_iff list_all_iff)
  show ?thesis
    using backupItem_roundtrip [OF l, of tt] backupItems_roundtrip [OF bs, of tt] nopanic nn
    by (cases "bk_Backups b = []") (simp_all add: unmarshal_backups_def marshal_backups_def fields_backups_def fld_def backup_key_eqs)
qed

lemma removeDeadBackups_filter:
  "removeDeadBackups cb sha1 d bs = filter (\<lambda>bi. cbGet cb (shortName sha1 (bi_Fn bi)) d \<noteq> Inl ENotFound) bs"
  by (induction bs) auto

section \<open>Concrete values\<close>

lemma DefaultConfig_wf: "wf_config DefaultConfig"
  by (simp add: wf_config_def cfgFields_def DefaultConfig_def wholeSecs_def duration_defs)

definition aBackup :: backupItem where
  "aBackup = \<lparr>bi_Fn = ''b.gz'', bi_Oid = ''6162'', bi_When = 5, bi_Conf = DefaultConfig\<rparr>"

definition listHs :: "string list hsOps" where
  "listHs = \<lparr>hs_empty = [], hs_Add = (#), hs_AddAll = (@), hs_Contains = (\<lambda>s x. x \<in> set s)\<rparr>"

lemma listHs_ok: "hashset_ok listHs"
  by (auto simp: hashset_ok_def listHs_def)

lemma sched_ok_id: "sched_ok (\<lambda>ms. ms)"
  by (simp add: sched_ok_def)

definition twoBackups :: backups where
  "twoBackups = \<lparr>bk_Latest = aBackup, bk_Backups = [aBackup, aBackup\<lparr>bi_Oid := ''6163''\<rparr>]\<rparr>"

lemma twoBackups_wf: "wf_backups twoBackups"
  by (simp add: wf_backups_def twoBackups_def aBackup_def DefaultConfig_wf)

definition aDisk :: fs where
  "aDisk = \<lparr>fs_files = (\<lambda>p. if p = ''/data/61/6162'' then Some ''z'' else None), fs_dirs = (\<lambda>p. p = ''/data'')\<rparr>"

section \<open>Properties\<close>



text \<open>
  A truncated backup is recorded as a good one. When the stream of metadata ends early with an error
  (a view or a write failed) and the compressor closes without one, the error is replaced by nil, and
  what was written so far is stored, owned, linked under the backup's name and put on the list.
\<close>

lemma truncated_backup_recorded:
  assumes "streamFileMeta (be_wr be) (be_evs be) False [] = (out, Some (Some er))" and "be_closeErr be = None"
    and "NewHashRecord sm e (be_tmp be) [] (w_fs w) = (Inr h0, f0)"
    and "hrProcess [(be_gzip be out, be_wfail be)] None (be_fcloseErr be) h0 f0 = Ret (Inr h, n, h1, f1)"
  shows "backupToCBFS sm e cb be fn w = Some (linkBackup e cb be fn h n (w\<lparr>w_fs := hrClose (Some h1) f1\<rparr>))"
  using assms by (simp add: backupToCBFS_def backupTo_def)

text \<open>
  the list of backups. After \<open>storeBackupObject\<close> has succeeded, reading the list gives the new backup
  as the latest one, and as the last of the list, after exactly those earlier ones whose file was not
  found missing.
\<close>

theorem storeBackupObject_listed:
  assumes "bucket_ok cb st" and "getBackups tt cb d = Ret r" and "r = Inr b \<or> (r = Inl ENotFound \<and> b = backups_zero)"
    and "list_all (\<lambda>i. wf_config (bi_Conf i)) (bk_Backups b)" and "wf_config (e_conf e)"
    and "storeBackupObject tt e cb sha1 now fn h d = Ret (None, d')" and "cbGet cb backupKey d' = Inr v"
  shows "getBackups tt cb d' = Ret (Inr
     (let ob = \<lparr>bi_Fn = fn, bi_Oid = h, bi_When = now, bi_Conf = e_conf e\<rparr> in
      \<lparr>bk_Latest = ob, bk_Backups =
         filter (\<lambda>bi. cbGet cb (shortName sha1 (bi_Fn bi)) d \<noteq> Inl ENotFound) (bk_Backups b) @ [ob]\<rparr>))"
proof -
  let ?ob = "\<lparr>bi_Fn = fn, bi_Oid = h, bi_When = now, bi_Conf = e_conf e\<rparr>"
  let ?b = "\<lparr>bk_Latest = ?ob, bk_Backups = removeDeadBackups cb sha1 d (bk_Backups b) @ [?ob]\<rparr>"
  have "cbSet cb backupKey 0 (RJson (marshal_backups ?b)) d = (None, d')"
    using assms(2,3,6) by (auto simp: storeBackupObject_def Let_def)
  then have "st d' backupKey = Some (RJson (marshal_backups ?b))"
    using assms(1) by (simp add: bucket_ok_def set_ok_def)
  moreover have "st d' backupKey = Some v" using assms(1,7) by (simp add: bucket_ok_def get_ok_def)
  moreover have "wf_backups ?b"
    using assms(4,5) by (auto simp: wf_backups_def removeDeadBackups_filter list_all_iff)
  ultimately show ?thesis
    using assms(7) backups_roundtrip [of ?b tt] by (simp add: getBackups_def removeDeadBackups_filter Let_def)
qed

theorem storeBackupObject_listed_witness:
  "\<exists>d'. storeBackupObject (\<lambda>_. []) anEnv (memBucket noView) sha1_0 9 ''c.gz'' ''6164'' [] = Ret (None, d') \<and>
     getBackups (\<lambda>_. []) (memBucket noView) d' = Ret (Inr
       (let ob = \<lparr>bi_Fn = ''c.gz'', bi_Oid = ''6164'', bi_When = 9, bi_Conf = e_conf anEnv\<rparr> in
        \<lparr>bk_Latest = ob, bk_Backups = [ob]\<rparr>))"
proof -
  have g: "getBackups (\<lambda>_. []) (memBucket noView) [] = Ret (Inl ENotFound)"
    by (simp add: getBackups_def memBucket_def)
  have c: "wf_config (e_conf anEnv)" by (simp add: anEnv_def DefaultConfig_wf)
  let ?ob = "\<lparr>bi_Fn = ''c.gz'', bi_Oid = ''6164'', bi_When = 9, bi_Conf = e_conf anEnv\<rparr>"
  let ?v = "RJson (marshal_backups \<lparr>bk_Latest = ?ob, bk_Backups = [?ob]\<rparr>)"
  have set: "cbSet (memBucket noView) backupKey 0 x [] = (None, [(backupKey, x)])" for x
    by (simp add: memBucket_def memSet_def)
  have s: "storeBackupObject (\<lambda>_. []) anEnv (memBucket noView) sha1_0 9 ''c.gz'' ''6164'' [] = Ret (None, [(backupKey, ?v)])"
    by (simp add: storeBackupObject_def g backups_zero_def set Let_def)
  have v: "cbGet (memBucket noView) backupKey [(backupKey, ?v)] = Inr ?v" by (simp add: memBucket_def)
  have z: "list_all (\<lambda>i. wf_config (bi_Conf i)) (bk_Backups backups_zero)" by (simp add: backups_zero_def)
  from storeBackupObject_listed [OF memBucket_ok g disjI2 [OF conjI [OF refl refl]] z c s v]
  show ?thesis using s by (simp add: backups_zero_def)
qed

end
