(* ===== verification/Tasks.thy ===== *)
theory Tasks
  imports Backup
begin

text \<open>
  Periodic tasks (\<open>src/tasks.go\<close>, except the garbage collector, which has its own theory, and
  \<open>iterateBlobs\<close> of \<open>src/nodes.go\<close>): the tables of jobs, the markers in the bucket by which the nodes of a
  cluster agree on who runs a job, the jobs that clean up after dead nodes, relieve full nodes and
  validate the local copies, and the loop that starts a job on time, on demand and after a change of
  configuration.

  A job's body is a function on the state of the node. While a job waits for another one, other nodes
  change the bucket; what they do during the n-th pause is a parameter.

  Lemmas: which keys the marker operations touch; that waiting ends; when a job body runs; which records
  cleaning a node removes.
\<close>

section \<open>The tables of jobs\<close>

record recipe =
  rc_period :: "cbfsConfig \<Rightarrow> duration"
  rc_excl :: "string list"

definition globalPeriodicJobRecipes :: "(string \<times> recipe) list" where
  "globalPeriodicJobRecipes =
     [(''checkStaleNodes'', \<lparr>rc_period = cf_StaleNodeCheckFreq, rc_excl = []\<rparr>),
      (''garbageCollectBlobs'', \<lparr>rc_period = cf_GCFreq, rc_excl = [''ensureMinReplCount'', ''trimFullNodes'']\<rparr>),
      (''ensureMinReplCount'', \<lparr>rc_period = cf_UnderReplicaCheckFreq, rc_excl = [''garbageCollectBlobs'', ''trimFullNodes'']\<rparr>),
      (''pruneExcessiveReplicas'', \<lparr>rc_period = cf_OverReplicaCheckFreq, rc_excl = []\<rparr>),
      (''updateNodeSizes'', \<lparr>rc_period = cf_UpdateNodeSizesFreq, rc_excl = []\<rparr>),
      (''trimFullNodes'', \<lparr>rc_period = cf_TrimFullNodesFreq, rc_excl = [''ensureMinReplCount'', ''garbageCollectBlobs'']\<rparr>)]"

definition localPeriodicJobRecipes :: "(string \<times> recipe) list" where
  "localPeriodicJobRecipes =
     [(''validateLocal'', \<lparr>rc_period = cf_LocalValidationFreq, rc_excl = [''reconcile'', ''quickReconcile'']\<rparr>),
      (''reconcile'', \<lparr>rc_period = cf_ReconcileFreq, rc_excl = [''validateLocal'', ''quickReconcile'']\<rparr>),
      (''quickReconcile'', \<lparr>rc_period = cf_QuickReconcileFreq, rc_excl = [''reconcile'', ''validateLocal'']\<rparr>),
      (''cleanTmp'', \<lparr>rc_period = (\<lambda>c. hour), rc_excl = []\<rparr>),
      (''checkTime'', \<lparr>rc_period = (\<lambda>c. minute * 15), rc_excl = []\<rparr>)]"

section \<open>Task states\<close>

record jobMarker =
  jm_Node :: string
  jm_Started :: time
  jm_Type :: string

definition marshal_marker :: "jobMarker \<Rightarrow> json" where
  "marshal_marker m = JObj [(''node'', JStr (jm_Node m)), (''started'', JTime (jm_Started m)), (''type'', JStr (jm_Type m))]"

definition fields_marker :: "(string \<times> json) list \<Rightarrow> jobMarker option" where
  "fields_marker ms = do {
     n \<leftarrow> fld ''node'' decStr [] ms;
     s \<leftarrow> fld ''started'' decTime 0 ms;
     t \<leftarrow> fld ''type'' decStr [] ms;
     Some \<lparr>jm_Node = n, jm_Started = s, jm_Type = t\<rparr> }"

record taskState =
  ts_State :: string
  ts_Timestamp :: time

record taskList =
  tl_Tasks :: "(string, taskState) gomap"
  tl_Node :: string
  tl_Type :: string

definition marshal_taskState :: "taskState \<Rightarrow> json" where
  "marshal_taskState s = JObj [(''state'', JStr (ts_State s)), (''ts'', JTime (ts_Timestamp s))]"

fun decTaskState :: "json \<Rightarrow> taskState option" where
  "decTaskState (JObj ms) = do {
     s \<leftarrow> fld ''state'' decStr [] ms;
     t \<leftarrow> fld ''ts'' decTime 0 ms;
     Some \<lparr>ts_State = s, ts_Timestamp = t\<rparr> }"
| "decTaskState _ = None"

definition marshal_taskList :: "taskList \<Rightarrow> json" where
  "marshal_taskList l =
     JObj [(''tasks'', encMap marshal_taskState (tl_Tasks l)), (''node'', JStr (tl_Node l)), (''type'', JStr (tl_Type l))]"

definition fields_taskList :: "(string \<times> json) list \<Rightarrow> taskList option" where
  "fields_taskList ms = do {
     ts \<leftarrow> fld ''tasks'' (decMap decTaskState \<lparr>ts_State = [], ts_Timestamp = 0\<rparr>) None ms;
     n \<leftarrow> fld ''node'' decStr [] ms;
     t \<leftarrow> fld ''type'' decStr [] ms;
     Some \<lparr>tl_Tasks = ts, tl_Node = n, tl_Type = t\<rparr> }"

text \<open>
  The tasks a stored list has. The error of decoding is ignored: bytes that are not JSON leave the empty
  map the variable starts with, and so does a list whose tasks are of another type; a null makes the map
  nil.
\<close>

definition storedTasks :: "raw option \<Rightarrow> (string, taskState) gomap" where
  "storedTasks x =
     (case x of
        Some (RJson (JObj ms)) \<Rightarrow>
          (case find (\<lambda>(k, v). toLower k = ''tasks'') (rev ms) of
             None \<Rightarrow> Some []
           | Some (_, JNull) \<Rightarrow> None
           | Some (_, j) \<Rightarrow> (case decMap decTaskState \<lparr>ts_State = [], ts_Timestamp = 0\<rparr> j of
                            Some m \<Rightarrow> m | None \<Rightarrow> Some []))
      | _ \<Rightarrow> Some [])"

definition setTask_cb :: "string \<Rightarrow> time \<Rightarrow> string \<Rightarrow> string \<Rightarrow> unit \<Rightarrow> raw option \<Rightarrow> unit \<times> upd" where
  "setTask_cb serverId ts task state u x =
     (let tasks = storedTasks x;
          fin = (\<lambda>m. ((), UStore (RJson (marshal_taskList \<lparr>tl_Tasks = m, tl_Node = serverId, tl_Type = ''tasks''\<rparr>)))) in
      if state = [] then
        (let m = mdel task tasks in if mlen m = 0 then ((), UDelete) else fin m)
      else (case mput task \<lparr>ts_State = state, ts_Timestamp = ts\<rparr> tasks of None \<Rightarrow> ((), UPanic) | Some m \<Rightarrow> fin m))"

definition tasksKey :: "string \<Rightarrow> string" where
  "tasksKey node = ''/@'' @ node @ ''/tasks''"

definition setTaskState ::
  "env \<Rightarrow> 'db bucket \<Rightarrow> time \<Rightarrow> string \<Rightarrow> string \<Rightarrow> 'db \<Rightarrow> gerr option go \<times> 'db" where
  "setTaskState e cb now task state d =
     (case cbUpdate cb (tasksKey (e_serverId e)) 0 (closure (setTask_cb (e_serverId e) now task state) ()) d of
        (_, UpdOk, d') \<Rightarrow> (Ret None, d')
      | (_, UpdErr er, d') \<Rightarrow> (Ret (if er = EUpdateCancel then None else Some er), d')
      | (_, UpdPanic, d') \<Rightarrow> (Panic, d'))"

fun taskLists :: "(string \<times> raw option) list \<Rightarrow> gerr + (string \<times> taskList) list" where
  "taskLists [] = Inr []"
| "taskLists ((k, body) # rs) =
     (case body of
        None \<Rightarrow> taskLists rs
      | Some v \<Rightarrow>
          (case unmarshal fields_taskList (Some v) of
             None \<Rightarrow> Inl EJson
           | Some ob \<Rightarrow> (case taskLists rs of Inl er \<Rightarrow> Inl er | Inr m \<Rightarrow> Inr (AList.update k ob m))))"

definition listRunningTasks :: "env \<Rightarrow> 'db bucket \<Rightarrow> 'db \<Rightarrow> gerr + (string \<times> taskList) list" where
  "listRunningTasks e cb d =
     (case findAllNodes e cb d of
        Inl er \<Rightarrow> Inl er
      | Inr nodes \<Rightarrow>
          (case cbGetBulk cb (map (\<lambda>n. tasksKey (sn_name n)) nodes) d of
             Inl er \<Rightarrow> Inl er
           | Inr resps \<Rightarrow> taskLists resps))"

section \<open>Running a job\<close>

record 'db job =
  job_period :: duration
  job_excl :: "string list"
  job_f :: "'db world \<Rightarrow> (gerr option \<times> 'db world) go"

definition runningKey :: "string \<Rightarrow> string" where
  "runningKey task = ''/@'' @ task @ ''/running''"

definition taskRunning :: "'db bucket \<Rightarrow> string \<Rightarrow> 'db \<Rightarrow> bool" where
  "taskRunning cb task d =
     (case cbGet cb (runningKey task) d of
        Inr (RJson (JObj _)) \<Rightarrow> True
      | Inr (RJson JNull) \<Rightarrow> True
      | _ \<Rightarrow> False)"

fun anyTaskRunning :: "'db bucket \<Rightarrow> string list \<Rightarrow> 'db \<Rightarrow> bool" where
  "anyTaskRunning cb [] d = False"
| "anyTaskRunning cb (t # ts) d = (if taskRunning cb t d then True else anyTaskRunning cb ts d)"

text \<open>
  \<open>relockTask\<close>: whether the marker still names this node and could be renewed. The expiry is the
  period in whole seconds in the low half of the request's extras. A task in neither table is nil.
\<close>

definition periodSecs :: "duration \<Rightarrow> int" where
  "periodSecs t = goDiv t second"

definition relockAt ::
  "env \<Rightarrow> 'db bucket \<Rightarrow> time \<Rightarrow> recipe option \<Rightarrow> string \<Rightarrow> 'db \<Rightarrow> (bool \<times> 'db) go" where
  "relockAt e cb now task k d =
     (case cbGets cb k d of
        Inl _ \<Rightarrow> Ret (False, d)
      | Inr (v, cas) \<Rightarrow>
          (case unmarshal fields_marker (Some v) of
             None \<Rightarrow> Ret (False, d)
           | Some jm \<Rightarrow>
               (if jm_Node jm \<noteq> e_serverId e then Ret (False, d)
                else (case task of
                        None \<Rightarrow> Panic
                      | Some r \<Rightarrow>
                          (case cbCas cb k cas (periodSecs (rc_period r (e_conf e)) mod 2 ^ 32)
                                  (RJson (marshal_marker (jm\<lparr>jm_Started := now\<rparr>))) d of
                             (er, d') \<Rightarrow> Ret (er = None, d'))))))"

definition relockTask :: "env \<Rightarrow> 'db bucket \<Rightarrow> time \<Rightarrow> string \<Rightarrow> 'db \<Rightarrow> (bool \<times> 'db) go" where
  "relockTask e cb now task d =
     (case map_of globalPeriodicJobRecipes task of
        Some r \<Rightarrow> relockAt e cb now (Some r) (''/@'' @ task) d
      | None \<Rightarrow> relockAt e cb now (map_of localPeriodicJobRecipes task) (''/@'' @ e_serverId e @ ''/'' @ task) d)"

text \<open>
  Waiting for the excluded tasks: polls every five seconds; \<open>oth n\<close> is what other nodes do to the bucket
  during the n-th pause, \<open>clk n\<close> the time after it. The result says whether waiting was given up.
\<close>

fun waitLoop ::
  "nat \<Rightarrow> 'db bucket \<Rightarrow> string list \<Rightarrow> (nat \<Rightarrow> 'db \<Rightarrow> 'db) \<Rightarrow> (nat \<Rightarrow> time) \<Rightarrow> time \<Rightarrow> duration \<Rightarrow> nat \<Rightarrow> 'db
     \<Rightarrow> (bool \<times> 'db) option" where
  "waitLoop 0 cb excl oth clk start period n d = None"
| "waitLoop (Suc fuel) cb excl oth clk start period n d =
     (if \<not> anyTaskRunning cb excl d then Some (False, d)
      else (let d' = oth n d in
            if timeSub (clk n) start > period then Some (True, d')
            else waitLoop fuel cb excl oth clk start period (Suc n) d'))"

text \<open>
  \<open>runMarkedTask\<close> after the wait; the deferred deletion of the running marker happens on every way out.
\<close>

definition runningMarker :: "env \<Rightarrow> time \<Rightarrow> raw" where
  "runningMarker e now = RJson (JObj [(''node'', JStr (e_serverId e)), (''time'', JTime now)])"

definition runLocked ::
  "env \<Rightarrow> 'db bucket \<Rightarrow> time \<Rightarrow> string \<Rightarrow> 'db job \<Rightarrow> 'db world \<Rightarrow> (gerr option \<times> 'db world) go" where
  "runLocked e cb now name job w =
     (case cbSet cb (runningKey name) 3600 (runningMarker e now) (w_db w) of
        (Some er, d1) \<Rightarrow> Ret (Some er, w\<lparr>w_db := d1\<rparr>)
      | (None, d1) \<Rightarrow>
          (case setTaskState e cb now name ''running'' d1 of
             (Panic, _) \<Rightarrow> Panic
           | (Ret (Some er), d2) \<Rightarrow> Ret (Some er, w\<lparr>w_db := snd (cbDelete cb (runningKey name) d2)\<rparr>)
           | (Ret None, d2) \<Rightarrow>
               (case job_f job (w\<lparr>w_db := d2\<rparr>) of
                  Panic \<Rightarrow> Panic
                | Ret (er, w') \<Rightarrow> Ret (er, w'\<lparr>w_db := snd (cbDelete cb (runningKey name) (w_db w'))\<rparr>))))"

definition runMarkedTask ::
  "nat \<Rightarrow> env \<Rightarrow> 'db bucket \<Rightarrow> (nat \<Rightarrow> 'db \<Rightarrow> 'db) \<Rightarrow> (nat \<Rightarrow> time) \<Rightarrow> time \<Rightarrow> string \<Rightarrow> 'db job \<Rightarrow> 'db world
     \<Rightarrow> (gerr option \<times> 'db world) go option" where
  "runMarkedTask fuel e cb oth clk now name job w =
     (case waitLoop fuel cb (job_excl job) oth clk now (job_period job) 0 (w_db w) of
        None \<Rightarrow> None
      | Some (True, d1) \<Rightarrow> Some (Ret (Some (EMsg ''Execution blocked for too long''), w\<lparr>w_db := d1\<rparr>))
      | Some (False, d1) \<Rightarrow>
          Some (if hasPrefix name (e_serverId e @ ''/'') then runLocked e cb now name job (w\<lparr>w_db := d1\<rparr>)
                else (case relockTask e cb now name d1 of
                        Panic \<Rightarrow> Panic
                      | Ret (False, d2) \<Rightarrow> Ret (None, w\<lparr>w_db := d2\<rparr>)
                      | Ret (True, d2) \<Rightarrow> runLocked e cb now name job (w\<lparr>w_db := d2\<rparr>))))"

text \<open>
  \<open>runNamedTask\<close>: take the marker (with force: overwrite it), announce the task, run it, and withdraw the
  announcement on every way out.
\<close>

definition takeMarker :: "env \<Rightarrow> 'db bucket \<Rightarrow> time \<Rightarrow> string \<Rightarrow> duration \<Rightarrow> bool \<Rightarrow> 'db \<Rightarrow> gerr option \<times> 'db" where
  "takeMarker e cb now name t force d =
     (let jm = RJson (marshal_marker \<lparr>jm_Node = e_serverId e, jm_Started = now, jm_Type = ''job''\<rparr>) in
      if force then cbSet cb (''/@'' @ name) (periodSecs t) jm d
      else (case cbAdd cb (''/@'' @ name) (periodSecs t) jm d of
              (Inl er, d') \<Rightarrow> (Some er, d')
            | (Inr True, d') \<Rightarrow> (None, d')
            | (Inr False, d') \<Rightarrow> (Some EAlreadyRunning, d')))"

definition runNamedTask ::
  "nat \<Rightarrow> env \<Rightarrow> 'db bucket \<Rightarrow> (nat \<Rightarrow> 'db \<Rightarrow> 'db) \<Rightarrow> (nat \<Rightarrow> time) \<Rightarrow> time \<Rightarrow> string \<Rightarrow> 'db job \<Rightarrow> bool \<Rightarrow> 'db world
     \<Rightarrow> (gerr option \<times> 'db world) go option" where
  "runNamedTask fuel e cb oth clk now name job force w =
     (if job_period job < second then Some (Ret (Some (EMsg ''Would've run with a 0s ttl''), w))
      else
        (let fin = (\<lambda>er w. case setTaskState e cb now name [] (w_db w) of
                       (Panic, _) \<Rightarrow> Panic | (Ret _, d') \<Rightarrow> Ret (er, w\<lparr>w_db := d'\<rparr>)) in
         case takeMarker e cb now name (job_period job) force (w_db w) of
           (Some er, d1) \<Rightarrow> Some (Ret (if er = EAlreadyRunning then None else Some er, w\<lparr>w_db := d1\<rparr>))
         | (None, d1) \<Rightarrow>
             (case setTaskState e cb now name ''preparing'' d1 of
                (Panic, _) \<Rightarrow> Some Panic
              | (Ret (Some er), d2) \<Rightarrow> Some (fin (Some er) (w\<lparr>w_db := d2\<rparr>))
              | (Ret None, d2) \<Rightarrow>
                  map_option (\<lambda>r. case r of Panic \<Rightarrow> Panic | Ret (er, w') \<Rightarrow> fin er w')
                    (runMarkedTask fuel e cb oth clk now name job (w\<lparr>w_db := d2\<rparr>)))))"

definition runGlobalTask ::
  "nat \<Rightarrow> env \<Rightarrow> 'db bucket \<Rightarrow> (nat \<Rightarrow> 'db \<Rightarrow> 'db) \<Rightarrow> (nat \<Rightarrow> time) \<Rightarrow> time \<Rightarrow> string \<Rightarrow> 'db job \<Rightarrow> bool \<Rightarrow> 'db world
     \<Rightarrow> (gerr option \<times> 'db world) go option" where
  "runGlobalTask fuel e cb oth clk now name job force w = runNamedTask fuel e cb oth clk now name job force w"

definition runLocalTask ::
  "nat \<Rightarrow> env \<Rightarrow> 'db bucket \<Rightarrow> (nat \<Rightarrow> 'db \<Rightarrow> 'db) \<Rightarrow> (nat \<Rightarrow> time) \<Rightarrow> time \<Rightarrow> string \<Rightarrow> 'db job \<Rightarrow> bool \<Rightarrow> 'db world
     \<Rightarrow> (gerr option \<times> 'db world) go option" where
  "runLocalTask fuel e cb oth clk now name job force w =
     runNamedTask fuel e cb oth clk now (e_serverId e @ ''/'' @ name) job force w"
section \<open>Cleaning up after nodes\<close>

text \<open>\<open>cleanNodeTaskMarkers\<close>: drops the task list of a node and the running markers that name it.\<close>

text \<open>A value of a running marker decoded into a string; a timestamp is one, whose text is not looked at.\<close>

fun decStrs :: "json \<Rightarrow> string option" where
  "decStrs (JStr s) = Some s"
| "decStrs (JTime t) = Some []"
| "decStrs _ = None"

definition marker_cb :: "string \<Rightarrow> unit \<Rightarrow> raw option \<Rightarrow> unit \<times> upd" where
  "marker_cb node u x =
     (if noBytes x then ((), UErr EUpdateCancel)
      else case x of
             Some (RJson (JObj ms)) \<Rightarrow>
               (case decMap decStrs [] (JObj ms) of
                  None \<Rightarrow> ((), UErr EUpdateCancel)
                | Some m \<Rightarrow>
                    ((), if (case mget m ''node'' of Some n \<Rightarrow> n | None \<Rightarrow> []) = node then UDelete else UErr EUpdateCancel))
           | Some (RJson JNull) \<Rightarrow> ((), if node = [] then UDelete else UErr EUpdateCancel)
           | _ \<Rightarrow> ((), UErr EUpdateCancel))"

definition cleanNodeTaskMarkers :: "'db bucket \<Rightarrow> string \<Rightarrow> 'db \<Rightarrow> 'db" where
  "cleanNodeTaskMarkers cb node d =
     fold (\<lambda>(name, _) d. snd (snd (cbUpdate cb (runningKey name) 0 (closure (marker_cb node) ()) d)))
       globalPeriodicJobRecipes (snd (cbDelete cb (tasksKey node) d))"

text \<open>
  The rows of \<open>node_blobs\<close> with their documents: identifier, owners, and the garbage mark
  (\<open>cleanupNode\<close>) or the length (\<open>moveSomeOffOf\<close>).
\<close>

record blobRow =
  br_Id :: string
  br_Nodes :: "string list"
  br_Garbage :: bool
  br_Length :: int

definition garbageRow :: "vrow \<Rightarrow> blobRow option" where
  "garbageRow r = do {
     ns \<leftarrow> docNodes (vr_doc r);
     g \<leftarrow> (case vr_doc r of JObj ms \<Rightarrow> fld ''garbage'' decBool False ms | _ \<Rightarrow> Some False);
     Some \<lparr>br_Id = vr_id r, br_Nodes = ns, br_Garbage = g, br_Length = 0\<rparr> }"

definition lengthRow :: "vrow \<Rightarrow> blobRow option" where
  "lengthRow r = do {
     ns \<leftarrow> docNodes (vr_doc r);
     l \<leftarrow> (case vr_doc r of JObj ms \<Rightarrow> fld ''length'' decInt 0 ms | _ \<Rightarrow> Some 0);
     Some \<lparr>br_Id = vr_id r, br_Nodes = ns, br_Garbage = False, br_Length = l\<rparr> }"

fun blobRows :: "(vrow \<Rightarrow> blobRow option) \<Rightarrow> vrow list \<Rightarrow> blobRow list option" where
  "blobRows dec [] = Some []"
| "blobRows dec (r # rs) = (case dec r of None \<Rightarrow> None | Some b \<Rightarrow> map_option ((#) b) (blobRows dec rs))"

definition nodeBlobsParams :: "string \<Rightarrow> int \<Rightarrow> (string \<times> json) list" where
  "nodeBlobsParams node limit =
     [(''key'', JStr node), (''limit'', JNum limit), (''reduce'', JBool False), (''include_docs'', JBool True),
      (''stale'', JBool False)]"

text \<open>The loop of \<open>cleanupNode\<close>: the number of rows seen, the bucket and the queue.\<close>

fun cleanupRows ::
  "env \<Rightarrow> 'db bucket \<Rightarrow> (internodeTask list \<Rightarrow> bool) \<Rightarrow> string \<Rightarrow> nodeList \<Rightarrow> blobRow list \<Rightarrow> nat \<Rightarrow> 'db
     \<Rightarrow> internodeTask list \<Rightarrow> (nat \<times> 'db \<times> internodeTask list) go" where
  "cleanupRows e cb room node nodes [] found d q = Ret (found, d, q)"
| "cleanupRows e cb room node nodes (r # rs) found d q =
     (if br_Garbage r then
        cleanupRows e cb room node nodes rs (Suc found) (snd (removeBlobOwnershipRecord e cb (tl (br_Id r)) node d)) q
      else if int (length (br_Nodes r)) < cf_MinReplicas (e_conf e) then
        (case salvageBlob e cb room (tl (br_Id r)) node 1 nodes d q of
           Panic \<Rightarrow> Panic
         | Ret (False, q') \<Rightarrow> Ret (Suc found, d, q')
         | Ret (True, q') \<Rightarrow> cleanupRows e cb room node nodes rs (Suc found) d q')
      else
        cleanupRows e cb room node nodes rs (Suc found) (snd (removeBlobOwnershipRecord e cb (tl (br_Id r)) node d)) q)"

definition dropNode ::
  "env \<Rightarrow> 'db bucket \<Rightarrow> (string \<Rightarrow> nat \<Rightarrow> time) \<Rightarrow> string \<Rightarrow> 'db \<Rightarrow> 'db go" where
  "dropNode e cb clk node d =
     (let d1 = snd (cbDelete cb (''/'' @ node) d);
          d2 = snd (cbDelete cb (''/'' @ node @ ''/r'') d1) in
      case removeFromNodeRegistry e cb clk node d2 of
        (Panic, _) \<Rightarrow> Panic
      | (Ret _, d3) \<Rightarrow> Ret (cleanNodeTaskMarkers cb node d3))"

definition cleanupNode ::
  "env \<Rightarrow> 'db bucket \<Rightarrow> (internodeTask list \<Rightarrow> bool) \<Rightarrow> (string \<Rightarrow> nat \<Rightarrow> time) \<Rightarrow> string \<Rightarrow> 'db \<Rightarrow> internodeTask list
     \<Rightarrow> ('db \<times> internodeTask list) go" where
  "cleanupNode e cb room clk node d q =
     (if cf_NodeCleanCount (e_conf e) < 1 then Ret (d, q)
      else case findAllNodes e cb d of
             Inl _ \<Rightarrow> Ret (d, q)
           | Inr nodes \<Rightarrow>
               (case cbView cb ''node_blobs'' (nodeBlobsParams node (cf_NodeCleanCount (e_conf e))) d of
                  Inl _ \<Rightarrow> Ret (d, q)
                | Inr res \<Rightarrow>
                    (case blobRows garbageRow (vRows res) of
                       None \<Rightarrow> Ret (d, q)
                     | Some rows \<Rightarrow>
                         (case cleanupRows e cb room node nodes rows 0 d q of
                            Panic \<Rightarrow> Panic
                          | Ret (found, d1, q1) \<Rightarrow>
                              (if found = 0 \<and> vErrors res = [] then
                                 (case dropNode e cb clk node d1 of Panic \<Rightarrow> Panic | Ret d2 \<Rightarrow> Ret (d2, q1))
                               else Ret (d1, q1))))))"

text \<open>\<open>checkStaleNodes\<close>: the nodes whose clean-up is started, with the age of each at its turn.\<close>

fun staleNodes :: "env \<Rightarrow> (string \<Rightarrow> time) \<Rightarrow> nodeList \<Rightarrow> string list" where
  "staleNodes e clk [] = []"
| "staleNodes e clk (n # nl) =
     (let d = timeSub (clk (sn_name n)) (sn_Time n) in
      if d > cf_StaleNodeLimit (e_conf e) then
        (if IsLocal e n then staleNodes e clk nl else sn_name n # staleNodes e clk nl)
      else staleNodes e clk nl)"

definition checkStaleNodes :: "env \<Rightarrow> 'db bucket \<Rightarrow> (string \<Rightarrow> time) \<Rightarrow> 'db \<Rightarrow> gerr + string list" where
  "checkStaleNodes e cb clk d =
     (case findAllNodes e cb d of Inl er \<Rightarrow> Inl er | Inr nl \<Rightarrow> Inr (staleNodes e clk nl))"

section \<open>Relieving full nodes\<close>

text \<open>\<open>rnd i n\<close> is the i-th random number below n.\<close>

fun moveRows ::
  "env \<Rightarrow> (nat \<Rightarrow> nat \<Rightarrow> nat) \<Rightarrow> storageNode \<Rightarrow> nodeList \<Rightarrow> blobRow list \<Rightarrow> int \<Rightarrow> internodeTask list \<Rightarrow> internodeTask list" where
  "moveRows e rnd n nl [] rmd q = q"
| "moveRows e rnd n nl (r # rs) rmd q =
     (let oid = tl (br_Id r); rmd' = i64 (rmd + br_Length r) in
      if rmd' > cf_TrimFullNodesSpace (e_conf e) then q
      else if int (length (br_Nodes r)) - 1 < cf_MinReplicas (e_conf e) then
        (let candidates = withAtLeast (cf_TrimFullNodesSpace (e_conf e))
               (filter (\<lambda>m. sn_name m \<notin> set (br_Nodes r)) nl) in
         if candidates = [] then moveRows e rnd n nl rs rmd' q
         else moveRows e rnd n nl rs rmd'
                (queueBlobAcquire (candidates ! rnd (length rs) (length candidates)) oid (sn_name n) q))
      else moveRows e rnd n nl rs rmd' (queueBlobRemoval n oid q))"

definition moveSomeOffOf ::
  "env \<Rightarrow> 'db bucket \<Rightarrow> (nat \<Rightarrow> nat \<Rightarrow> nat) \<Rightarrow> storageNode \<Rightarrow> nodeList \<Rightarrow> 'db \<Rightarrow> internodeTask list \<Rightarrow> internodeTask list" where
  "moveSomeOffOf e cb rnd n nl d q =
     (case cbView cb ''node_blobs'' (nodeBlobsParams (sn_name n) (cf_TrimFullNodesCount (e_conf e))) d of
        Inl _ \<Rightarrow> q
      | Inr res \<Rightarrow> (case blobRows lengthRow (vRows res) of None \<Rightarrow> q | Some rows \<Rightarrow> moveRows e rnd n nl rows 0 q))"

definition trimFullNodes ::
  "env \<Rightarrow> 'db bucket \<Rightarrow> (string \<Rightarrow> nat \<Rightarrow> nat \<Rightarrow> nat) \<Rightarrow> 'db \<Rightarrow> internodeTask list \<Rightarrow> gerr option \<times> internodeTask list" where
  "trimFullNodes e cb rnd d q =
     (case findAllNodes e cb d of
        Inl er \<Rightarrow> (Some er, q)
      | Inr nl \<Rightarrow>
          (let toRelieve = withNoMoreThan (cf_TrimFullNodesSpace (e_conf e)) nl;
               hasSpace = withAtLeast (cf_TrimFullNodesSpace (e_conf e)) nl in
           if toRelieve = [] \<or> hasSpace = [] then (None, q)
           else (None, fold (\<lambda>n. moveSomeOffOf e cb (rnd (sn_name n)) n hasSpace d) toRelieve q)))"

section \<open>Validating local copies\<close>

text \<open>
  \<open>iterateBlobs\<close>: the pages of a node's blobs, each starting at the last document of the one before.
  \<open>errCh\<close> says whether there is a channel for errors; sending to a nil channel blocks for ever, and then
  the channel of blobs is never closed (\<open>IterStuck\<close>).
\<close>

datatype iterEnd = IterClosed | IterStuck

definition iterParams :: "string \<Rightarrow> string \<Rightarrow> (string \<times> json) list" where
  "iterParams name startDocId =
     [(''key'', JStr name), (''reduce'', JBool False), (''limit'', JNum 1000)] @
     (if startDocId \<noteq> [] then [(''startkey_docid'', JStr startDocId)] else [])"

fun iterateBlobs ::
  "nat \<Rightarrow> 'db bucket \<Rightarrow> bool \<Rightarrow> string \<Rightarrow> string \<Rightarrow> 'db \<Rightarrow> (string list \<times> iterEnd) option" where
  "iterateBlobs 0 cb errCh name startDocId d = None"
| "iterateBlobs (Suc n) cb errCh name startDocId d =
     (case cbView cb ''node_blobs'' (iterParams name startDocId) d of
        Inl _ \<Rightarrow> Some ([], if errCh then IterClosed else IterStuck)
      | Inr res \<Rightarrow>
          (if vErrors res \<noteq> [] \<and> \<not> errCh then Some ([], IterStuck)
           else (let ids = map vr_id (vRows res) in
                 if length ids < 1000 then Some (map tl ids, IterClosed)
                 else map_option (\<lambda>(bs, en). (map tl ids @ bs, en))
                        (iterateBlobs n cb errCh name (last ids) d))))"

fun validateRows ::
  "env \<Rightarrow> 'db bucket \<Rightarrow> (internodeTask list \<Rightarrow> bool) \<Rightarrow> nodeList \<Rightarrow> string list \<Rightarrow> 'db world \<Rightarrow> 'db world go" where
  "validateRows e cb room nl [] w = Ret w"
| "validateRows e cb room nl (h # hs) w =
     (case hasBlob e h (w_fs w) of
        Panic \<Rightarrow> Panic
      | Ret True \<Rightarrow> validateRows e cb room nl hs w
      | Ret False \<Rightarrow>
          (let (owners, d') = removeBlobOwnershipRecord e cb h (e_serverId e) (w_db w); w1 = w\<lparr>w_db := d'\<rparr> in
           if owners < cf_MinReplicas (e_conf e) then
             (case salvageBlob e cb room h [] (i64 (cf_MinReplicas (e_conf e) - owners)) nl d' (w_q w1) of
                Panic \<Rightarrow> Panic
              | Ret (_, q') \<Rightarrow> validateRows e cb room nl hs (w1\<lparr>w_q := q'\<rparr>))
           else validateRows e cb room nl hs w1))"

text \<open>
  \<open>validateLocal\<close> passes no error channel: \<open>None\<close> if it waits for ever. Blobs are looked at while the
  pages are still being read; the model reads the pages first.
\<close>

definition validateLocal ::
  "nat \<Rightarrow> env \<Rightarrow> 'db bucket \<Rightarrow> (internodeTask list \<Rightarrow> bool) \<Rightarrow> 'db world \<Rightarrow> (gerr option \<times> 'db world) go option" where
  "validateLocal fuel e cb room w =
     (let nl = (case findAllNodes e cb (w_db w) of Inl _ \<Rightarrow> [] | Inr nl \<Rightarrow> nl) in
      case iterateBlobs fuel cb False (e_serverId e) [] (w_db w) of
        None \<Rightarrow> None
      | Some (bs, IterStuck) \<Rightarrow> None
      | Some (bs, IterClosed) \<Rightarrow>
          Some (case validateRows e cb room nl bs w of Panic \<Rightarrow> Panic | Ret w' \<Rightarrow> Ret (None, w')))"

text \<open>\<open>grabSomeData\<close>: at start-up, queue fetches for objects with few copies.\<close>

fun grabRows :: "env \<Rightarrow> (internodeTask list \<Rightarrow> bool) \<Rightarrow> fs \<Rightarrow> string list \<Rightarrow> internodeTask list \<Rightarrow> internodeTask list go" where
  "grabRows e room f [] q = Ret q"
| "grabRows e room f (i # ids) q =
     (case hasBlob e (tl i) f of
        Panic \<Rightarrow> Panic
      | Ret True \<Rightarrow> grabRows e room f ids q
      | Ret False \<Rightarrow>
          (let (ok, q') = maybeQueueBlobFetch room (tl i) [] q in
           if \<not> ok then Ret q' else grabRows e room f ids q'))"

definition grabSomeData ::
  "env \<Rightarrow> 'db bucket \<Rightarrow> (internodeTask list \<Rightarrow> bool) \<Rightarrow> int \<Rightarrow> int \<Rightarrow> 'db world \<Rightarrow> 'db world go" where
  "grabSomeData e cb room maxObjs maxRepls w =
     (case cbView cb ''repcounts''
             [(''reduce'', JBool False), (''limit'', JNum maxObjs), (''startkey'', JNum 1),
              (''endkey'', JNum (i64 (maxRepls - 1))), (''stale'', JBool False)] (w_db w) of
        Inl _ \<Rightarrow> Ret w
      | Inr res \<Rightarrow>
          (if nodeRows (vRows res) = None then Ret w
           else case grabRows e room (w_fs w) (map vr_id (vRows res)) (w_q w) of
                  Panic \<Rightarrow> Panic | Ret q' \<Rightarrow> Ret (w\<lparr>w_q := q'\<rparr>)))"

section \<open>The clock check\<close>

text \<open>
  \<open>checkTime\<close>: the times the servers report, averaged and compared with the clock; the result is the
  drift it warns about, if it does.
\<close>

definition checkTime :: "env \<Rightarrow> (string \<times> string) list \<Rightarrow> time \<Rightarrow> duration option" where
  "checkTime e reports post =
     (let ts = List.map_filter (\<lambda>(k, v). atoi v) reports;
          totalTimes = fold (\<lambda>t a. i64 (a + t)) ts 0 in
      if ts = [] then None
      else (let avgTime = goDiv totalTimes (int (length ts));
                d0 = i64 (i64 (unixOf post - avgTime) * second);
                tDelta = (if d0 < 0 then i64 (- d0) else d0) in
            if tDelta > cf_DriftWarnThresh (e_conf e) then Some tDelta else None))"

section \<open>Starting jobs\<close>

text \<open>
  The loop of \<open>runPeriodicJob\<close>: its period and the period of its ticker, and what it does on an
  event: nothing, or run the job, by force or not.
\<close>

record jobLoop =
  jl_period :: duration
  jl_ticker :: duration

datatype jobEvent = JInduce | JTick | JConfig duration

definition jobStart :: "duration \<Rightarrow> jobLoop" where
  "jobStart p = (let period = (if p < second then hour * 24 else p) in \<lparr>jl_period = period, jl_ticker = period\<rparr>)"

definition jobStep :: "jobEvent \<Rightarrow> jobLoop \<Rightarrow> jobLoop \<times> bool option" where
  "jobStep ev s =
     (case ev of
        JInduce \<Rightarrow> (s, Some True)
      | JTick \<Rightarrow> (s, Some False)
      | JConfig p \<Rightarrow>
          (if jl_period s \<noteq> p then
             (let s1 = s\<lparr>jl_period := p\<rparr> in if p > 0 then (s1\<lparr>jl_ticker := p\<rparr>, None) else (s1, None))
           else (s, None)))"

text \<open>
  The inducers: a channel with room for one request per launched job, as the number of waiting ones.
  Launching a job twice ends the process.
\<close>

type_synonym inducers = "(string \<times> nat) list"

fun launchJobs :: "(string \<times> recipe) list \<Rightarrow> inducers \<Rightarrow> inducers go" where
  "launchJobs [] ti = Ret ti"
| "launchJobs ((n, r) # m) ti =
     (if map_of ti n \<noteq> None then Panic else launchJobs m (AList.update n 0 ti))"

definition runPeriodicJobs :: "inducers \<Rightarrow> inducers go" where
  "runPeriodicJobs ti =
     (case launchJobs globalPeriodicJobRecipes ti of Panic \<Rightarrow> Panic | Ret ti' \<Rightarrow> launchJobs localPeriodicJobRecipes ti')"

definition induceTask :: "string \<Rightarrow> inducers \<Rightarrow> gerr option \<times> inducers" where
  "induceTask name ti =
     (case map_of ti name of
        None \<Rightarrow> (Some ENoSuchTask, ti)
      | Some n \<Rightarrow> if n < 1 then (None, AList.update name (Suc n) ti) else (Some ETaskAlreadyQueued, ti))"

definition startTasks :: "env \<Rightarrow> 'db bucket \<Rightarrow> 'db \<Rightarrow> (inducers \<times> 'db) go" where
  "startTasks e cb d =
     (let d1 = cleanNodeTaskMarkers cb (e_serverId e) d;
          d2 = snd (cbDelete cb (''/@'' @ e_serverId e @ ''/validateLocal'') d1);
          d3 = snd (cbDelete cb (''/@'' @ e_serverId e @ ''/quickReconcile'') d2) in
      case runPeriodicJobs [] of Panic \<Rightarrow> Panic | Ret ti \<Rightarrow> Ret (snd (induceTask ''quickReconcile'' ti), d3))"

text \<open>\<open>updateConfig\<close>: the configuration of the node after it, and its error.\<close>

definition updateConfig :: "(time \<Rightarrow> string) \<Rightarrow> env \<Rightarrow> 'db bucket \<Rightarrow> 'db \<Rightarrow> (gerr option \<times> env) go" where
  "updateConfig tt e cb d =
     (case RetrieveConfig cb tt d of
        SetOk c \<Rightarrow> Ret (None, e\<lparr>e_conf := c\<rparr>)
      | SetErr er \<Rightarrow> Ret (Some er, e)
      | SetPanic \<Rightarrow> Panic)"
section \<open>Lemmas\<close>

subsection \<open>What the operations leave alone\<close>

lemma update_frame:
  assumes "bucket_ok cb st" and "cbUpdate cb k ex f d = (h, r, d')" and "k' \<noteq> k"
  shows "st d' k' = st d k'"
  using assms unfolding bucket_ok_def update_ok_def by blast

lemma delete_frame:
  assumes "bucket_ok cb st" and "k' \<noteq> k"
  shows "st (snd (cbDelete cb k d)) k' = st d k'"
  using assms unfolding bucket_ok_def delete_ok_def by (metis prod.collapse)

lemma set_frame:
  assumes "bucket_ok cb st" and "k' \<noteq> k"
  shows "st (snd (cbSet cb k ex v d)) k' = st d k'"
  using assms unfolding bucket_ok_def set_ok_def by (metis prod.collapse)

lemma cas_frame:
  assumes "bucket_ok cb st" and "k' \<noteq> k"
  shows "st (snd (cbCas cb k c ex v d)) k' = st d k'"
proof (cases "cbCas cb k c ex v d")
  case (Pair r d')
  with assms show ?thesis unfolding bucket_ok_def cas_ok_def by (cases r) auto
qed

lemma removeBlobOwnershipRecord_frame:
  assumes "bucket_ok cb st" and "k \<noteq> ''/'' @ h" and "k \<noteq> ''/'' @ h @ ''/r''"
  shows "st (snd (removeBlobOwnershipRecord e cb h node d)) k = st d k"
proof -
  obtain hist r d1 where u: "cbUpdate cb (''/'' @ h) 0 (closure (remove_cb (e_serverId e) node) (- 1)) d = (hist, r, d1)"
    by (cases "cbUpdate cb (''/'' @ h) 0 (closure (remove_cb (e_serverId e) node) (- 1)) d") auto
  from update_frame [OF assms(1) u assms(2)] delete_frame [OF assms(1), of k "''/'' @ h @ ''/r''" d1] assms(3) u
  show ?thesis by (auto simp: removeBlobOwnershipRecord_def Let_def)
qed

lemma markGarbage_frame:
  assumes "bucket_ok cb st" and "k \<noteq> ''/'' @ h"
  shows "st (snd (markGarbage cb now h d)) k = st d k"
  using cas_frame [OF assms] by (auto simp: markGarbage_def Let_def split: sum.splits prod.splits option.splits)

lemma relockAt_cases:
  assumes "relockAt e cb now task k d = Ret (b, d')"
  obtains (lost) "\<not> b" "d' = d"
  | (sent) v cas jm ex er where "cbGets cb k d = Inr (v, cas)" "unmarshal fields_marker (Some v) = Some jm"
      "jm_Node jm = e_serverId e" "cbCas cb k cas ex (RJson (marshal_marker (jm\<lparr>jm_Started := now\<rparr>))) d = (er, d')"
      "b \<longleftrightarrow> er = None"
  using assms by (auto simp: relockAt_def split: sum.splits prod.splits option.splits if_splits)

lemma relockTask_frame:
  assumes "bucket_ok cb st" and "relockTask e cb now task d = Ret (b, d')" and "\<not> hasPrefix k ''/@''"
  shows "st d' k = st d k"
proof -
  have at: "st d' k = st d k" if "relockAt e cb now rc (''/@'' @ s) d = Ret (b, d')" for rc s
    using that
  proof (cases rule: relockAt_cases)
    case (sent v cas jm ex er)
    have "k \<noteq> ''/@'' @ s" using assms(3) by (auto simp: hasPrefix_def)
    from cas_frame [OF assms(1) this] sent(4) show ?thesis by (metis snd_conv)
  qed simp
  show ?thesis
  proof (cases "map_of globalPeriodicJobRecipes task")
    case None
    with assms(2) show ?thesis by (intro at [of _ "e_serverId e @ ''/'' @ task"]) (simp add: relockTask_def)
  next
    case (Some r)
    with assms(2) show ?thesis by (intro at [of _ task]) (simp add: relockTask_def)
  qed
qed

lemma updateRegs_frame:
  assumes "bucket_ok cb st" and "k \<notin> set ks"
  shows "st (snd (updateRegs cb f ks d)) k = st d k"
  using assms(2)
proof (induction ks arbitrary: d)
  case (Cons k' ks)
  obtain h r d' where u: "cbUpdate cb k' 0 (f k') d = (h, r, d')" by (cases "cbUpdate cb k' 0 (f k') d") auto
  from Cons.prems update_frame [OF assms(1) u] have "st d' k = st d k" by simp
  with Cons.IH [of d'] Cons.prems u show ?case
    by (cases r) (auto split: prod.splits go.splits)
qed simp

lemma cleanNodeTaskMarkers_frame:
  assumes "bucket_ok cb st" and "\<not> hasPrefix k ''/@''"
  shows "st (cleanNodeTaskMarkers cb node d) k = st d k"
proof -
  have ne: "k \<noteq> ''/@'' @ s" for s using assms(2) by (auto simp: hasPrefix_def)
  have "st (fold (\<lambda>(name, _) d. snd (snd (cbUpdate cb (runningKey name) 0 (closure (marker_cb node) ()) d))) rs d) k = st d k"
    for rs :: "(string \<times> recipe) list" and d
  proof (induction rs arbitrary: d)
    case (Cons r rs)
    obtain h x d' where u: "cbUpdate cb (runningKey (fst r)) 0 (closure (marker_cb node) ()) d = (h, x, d')"
      by (cases "cbUpdate cb (runningKey (fst r)) 0 (closure (marker_cb node) ()) d") auto
    from update_frame [OF assms(1) u, of k] ne have "st d' k = st d k" by (simp add: runningKey_def)
    with Cons.IH [of d'] u show ?case by (simp add: case_prod_unfold)
  qed simp
  then show ?thesis
    using delete_frame [OF assms(1), of k "tasksKey node" d] ne by (simp add: cleanNodeTaskMarkers_def tasksKey_def)
qed

lemma initNodeListKeys_prefix: "k \<in> set (initNodeListKeys n) \<Longrightarrow> hasPrefix k ''/@''"
  by (auto simp: initNodeListKeys_def nodeListPrefix_def hasPrefix_def)

lemma dropNode_frame:
  assumes "bucket_ok cb st" and "dropNode e cb clk node d = Ret d'" and "\<not> hasPrefix k ''/@''"
    and "k \<noteq> ''/'' @ node" and "k \<noteq> ''/'' @ node @ ''/r''" and "e_nodeListKeys e = initNodeListKeys n"
  shows "st d' k = st d k"
proof -
  let ?d2 = "snd (cbDelete cb (''/'' @ node @ ''/r'') (snd (cbDelete cb (''/'' @ node) d)))"
  have k: "k \<notin> set (e_nodeListKeys e)" using assms(3,6) initNodeListKeys_prefix by auto
  have "st ?d2 k = st d k" using delete_frame [OF assms(1)] assms(4,5) by simp
  moreover have "st (snd (removeFromNodeRegistry e cb clk node ?d2)) k = st ?d2 k"
    unfolding removeFromNodeRegistry_def by (rule updateRegs_frame [OF assms(1) k])
  moreover have "d' = cleanNodeTaskMarkers cb node (snd (removeFromNodeRegistry e cb clk node ?d2))"
    using assms(2) by (auto simp: dropNode_def Let_def split: prod.splits go.splits)
  ultimately show ?thesis using cleanNodeTaskMarkers_frame [OF assms(1,3)] by simp
qed

lemma validHash_no_slash: "validHash h \<Longrightarrow> h \<noteq> s @ ''/'' @ t"
  by (auto simp: validHash_def isHashChar_def)

lemma validHash_key: "validHash h \<Longrightarrow> \<not> hasPrefix (''/'' @ h) ''/@''"
  by (cases h) (auto simp: validHash_def isHashChar_def hasPrefix_def)

subsection \<open>Cleaning and trimming\<close>

definition plenty :: "env \<Rightarrow> blobRow \<Rightarrow> bool" where
  "plenty e r \<longleftrightarrow> br_Garbage r \<or> cf_MinReplicas (e_conf e) \<le> int (length (br_Nodes r))"

lemma cleanupRows_frame:
  assumes "bucket_ok cb st" and "validHash h"
  shows "cleanupRows e cb room node nodes rows n d q = Ret (n', d', q') \<Longrightarrow>
     (\<And>r. r \<in> set rows \<Longrightarrow> plenty e r \<Longrightarrow> tl (br_Id r) \<noteq> h) \<Longrightarrow> st d' (''/'' @ h) = st d (''/'' @ h)"
proof (induction rows arbitrary: n d q)
  case (Cons r rows)
  have rest: "\<And>r'. r' \<in> set rows \<Longrightarrow> plenty e r' \<Longrightarrow> tl (br_Id r') \<noteq> h" using Cons.prems(2) by simp
  show ?case
  proof (cases "plenty e r")
    case True
    then have ne: "tl (br_Id r) \<noteq> h" using Cons.prems(2) by simp
    have "st (snd (removeBlobOwnershipRecord e cb (tl (br_Id r)) node d)) (''/'' @ h) = st d (''/'' @ h)"
      by (rule removeBlobOwnershipRecord_frame [OF assms(1)]) (use ne validHash_no_slash [OF assms(2), of "tl (br_Id r)" "''r''"] in auto)
    moreover have "cleanupRows e cb room node nodes rows (Suc n) (snd (removeBlobOwnershipRecord e cb (tl (br_Id r)) node d)) q
        = Ret (n', d', q')"
      using Cons.prems(1) True by (auto simp: plenty_def split: if_splits)
    ultimately show ?thesis using Cons.IH [OF _ rest] by metis
  next
    case False
    then consider "d' = d" | q1 where "cleanupRows e cb room node nodes rows (Suc n) d q1 = Ret (n', d', q')"
      using Cons.prems(1) by (auto simp: plenty_def split: if_splits go.splits prod.splits bool.splits)
    then show ?thesis using Cons.IH [OF _ rest] by cases auto
  qed
qed simp

lemma cleanupRows_count: "cleanupRows e cb room node nodes rows n d q = Ret (n', d', q') \<Longrightarrow> rows \<noteq> [] \<Longrightarrow> n' \<noteq> 0"
proof (induction rows arbitrary: n d q)
  case (Cons r rows)
  have mono: "cleanupRows e cb room node nodes rows m d1 q1 = Ret (n', d', q') \<Longrightarrow> m \<noteq> 0 \<Longrightarrow> n' \<noteq> 0" for m d1 q1
    using Cons.IH by (cases rows) auto
  from Cons.prems(1) show ?case by (auto split: if_splits go.splits prod.splits bool.splits dest: mono)
qed simp

lemma moveRows_tasks:
  assumes rnd: "\<And>i k. 0 < k \<Longrightarrow> rnd i k < k"
  shows "\<exists>ts. moveRows e rnd n nl rows m q = q @ ts \<and>
     (\<forall>t \<in> set ts. \<exists>r \<in> set rows. it_oid t = tl (br_Id r) \<and>
        (t = removalTask n (it_oid t) \<and> cf_MinReplicas (e_conf e) \<le> int (length (br_Nodes r)) - 1 \<or>
         (\<exists>n' \<in> set nl. t = acquireTask n' (it_oid t) (sn_name n) \<and> sn_name n' \<notin> set (br_Nodes r) \<and>
            cf_TrimFullNodesSpace (e_conf e) < sn_Free n')))"
proof (induction rows arbitrary: m q)
  case (Cons r rows)
  let ?m = "i64 (m + br_Length r)"
  let ?c = "withAtLeast (cf_TrimFullNodesSpace (e_conf e)) (filter (\<lambda>m. sn_name m \<notin> set (br_Nodes r)) nl)"
  let ?n = "?c ! rnd (length rows) (length ?c)"
  show ?case
  proof (cases "?m > cf_TrimFullNodesSpace (e_conf e) \<or> (int (length (br_Nodes r)) - 1 < cf_MinReplicas (e_conf e) \<and> ?c = [])")
    case True
    then show ?thesis using Cons.IH [of ?m q] by (auto simp: Let_def intro: exI [of _ "[]"])
  next
    case False
    define t where "t = (if int (length (br_Nodes r)) - 1 < cf_MinReplicas (e_conf e)
      then acquireTask ?n (tl (br_Id r)) (sn_name n) else removalTask n (tl (br_Id r)))"
    have mv: "moveRows e rnd n nl (r # rows) m q = moveRows e rnd n nl rows ?m (q @ [t])"
      using False by (auto simp: Let_def t_def queueBlobAcquire_def queueBlobRemoval_def)
    have "?n \<in> set ?c" if "?c \<noteq> []" using that rnd by (intro nth_mem) simp
    then have t: "it_oid t = tl (br_Id r) \<and>
        (t = removalTask n (it_oid t) \<and> cf_MinReplicas (e_conf e) \<le> int (length (br_Nodes r)) - 1 \<or>
         (\<exists>n' \<in> set nl. t = acquireTask n' (it_oid t) (sn_name n) \<and> sn_name n' \<notin> set (br_Nodes r) \<and>
            cf_TrimFullNodesSpace (e_conf e) < sn_Free n'))"
      using False by (auto simp: t_def removalTask_def acquireTask_def at_least.f_filter)
    from Cons.IH [of ?m "q @ [t]"] obtain ts where ts: "moveRows e rnd n nl rows ?m (q @ [t]) = q @ t # ts"
      and all: "\<forall>t \<in> set ts. \<exists>r \<in> set rows. it_oid t = tl (br_Id r) \<and>
        (t = removalTask n (it_oid t) \<and> cf_MinReplicas (e_conf e) \<le> int (length (br_Nodes r)) - 1 \<or>
         (\<exists>n' \<in> set nl. t = acquireTask n' (it_oid t) (sn_name n) \<and> sn_name n' \<notin> set (br_Nodes r) \<and>
            cf_TrimFullNodesSpace (e_conf e) < sn_Free n'))" by auto
    show ?thesis
      by (rule exI [of _ "t # ts"]) (use mv ts t all in \<open>auto simp del: moveRows.simps\<close>)
  qed
qed (auto intro: exI [of _ "[]"])
subsection \<open>Waiting and starting\<close>

lemma waitLoop_ends:
  assumes clk: "\<And>n. start + 5 * second * (int n + 1) \<le> clk n" and p: "0 \<le> period" "period < 2 ^ 62"
  shows "0 < fuel \<Longrightarrow> period < 5 * second * int (fuel + n) \<Longrightarrow> \<exists>r. waitLoop fuel cb excl oth clk start period n d = Some r"
proof (induction fuel arbitrary: n d)
  case (Suc fuel)
  show ?case
  proof (cases "5 * second * (int n + 1) > period")
    case True
    with clk [of n] have "period < clk n - start" by linarith
    then have "timeSub (clk n) start > period" using p by (simp add: timeSub_greater)
    then show ?thesis by (cases "anyTaskRunning cb excl d") (auto simp: Let_def)
  next
    case False
    with Suc.prems have "0 < fuel" by (cases fuel) (simp_all add: algebra_simps)
    moreover have "period < 5 * second * int (fuel + Suc n)" using Suc.prems by simp
    ultimately show ?thesis using Suc.IH [of "Suc n" "oth n d"] by (cases "anyTaskRunning cb excl d") (auto simp: Let_def)
  qed
qed simp

lemma not_running:
  assumes "bucket_ok cb st" and "\<And>x. x \<in> set excl \<Longrightarrow> st d (runningKey x) = None"
  shows "\<not> anyTaskRunning cb excl d"
  using assms(2)
proof (induction excl)
  case (Cons x excl)
  have "cbGet cb (runningKey x) d = Inr v \<Longrightarrow> False" for v
    using assms(1) Cons.prems [of x] unfolding bucket_ok_def get_ok_def by fastforce
  then have "\<not> taskRunning cb x d" by (auto simp: taskRunning_def split: sum.splits)
  with Cons show ?case by simp
qed simp

lemma jobStep_ticker: "0 < jl_ticker s \<Longrightarrow> 0 < jl_ticker (fst (jobStep ev s))"
  by (auto simp: jobStep_def Let_def split: jobEvent.splits)

lemma jobStart_ticker: "second \<le> jl_ticker (jobStart p)"
  by (simp add: jobStart_def duration_defs)

text \<open>The names of the jobs are distinct, so launching them never ends the process.\<close>

lemma runPeriodicJobs_starts:
  "\<exists>ti. runPeriodicJobs [] = Ret ti \<and> map fst ti = map fst (globalPeriodicJobRecipes @ localPeriodicJobRecipes) \<and> (\<forall>n \<in> snd ` set ti. n = 0)"
  by (simp add: runPeriodicJobs_def globalPeriodicJobRecipes_def localPeriodicJobRecipes_def)

text \<open>At most one request waits per job.\<close>

lemma induceTask_bound: "\<forall>n \<in> snd ` set ti. n \<le> 1 \<Longrightarrow> \<forall>n \<in> snd ` set (snd (induceTask name ti)). n \<le> 1"
proof -
  assume a: "\<forall>n \<in> snd ` set ti. n \<le> 1"
  have "set (AList.update name v ti) \<subseteq> insert (name, v) (set ti)" for v by (induction ti) auto
  from this [of 1] a have "\<forall>n \<in> snd ` set (AList.update name 1 ti). n \<le> 1" by auto
  with a show ?thesis by (simp add: induceTask_def split: option.splits)
qed

text \<open>
  A view error makes local validation wait for ever: the goroutine that reads the view blocks on a nil
  channel and never closes the channel that validation reads.
\<close>

lemma validateLocal_stuck:
  assumes "cbView cb ''node_blobs'' (iterParams (e_serverId e) []) (w_db w) = Inl er"
  shows "validateLocal fuel e cb room w = None"
  using assms by (cases fuel) (simp_all add: validateLocal_def)

section \<open>Properties\<close>


definition aJob :: "memdb job" where
  "aJob = \<lparr>job_period = hour, job_excl = [''trimFullNodes''], job_f = (\<lambda>w. Ret (None, w))\<rparr>"


text \<open>
  waiting for another job ends. If every pause takes its five seconds, then after as many polls as fit
  into the job's period, and one more, \<open>waitLoop\<close> has returned, whatever other nodes do to the bucket.
\<close>

theorem wait_ends:
  assumes "\<And>n. start + 5 * second * (int n + 1) \<le> clk n" and "0 \<le> period" and "period < 2 ^ 62"
  shows "\<exists>r. waitLoop (nat (period div (5 * second)) + 1) cb excl oth clk start period 0 d = Some r"
proof (rule waitLoop_ends [OF assms])
  have "period < 5 * second * (period div (5 * second) + 1)"
    using assms(2) by (simp add: second_def)
  moreover have "0 \<le> period div (5 * second)" using assms(2) by (simp add: second_def pos_imp_zdiv_nonneg_iff)
  ultimately show "period < 5 * second * int (nat (period div (5 * second)) + 1 + 0)" by (simp add: algebra_simps)
qed simp

theorem wait_ends_witness:
  "\<exists>r. waitLoop (nat (minute div (5 * second)) + 1) (memBucket noView) [''trimFullNodes''] (\<lambda>n d. d)
     (\<lambda>n. 5 * second * (int n + 1)) 0 minute 0 [(runningKey ''trimFullNodes'', runningMarker anEnv 0)] = Some r"
proof -
  have 1: "0 + 5 * second * (int n + 1) \<le> 5 * second * (int n + 1)" for n by simp
  have 2: "0 \<le> minute" "minute < 2 ^ 62" by (simp_all add: duration_defs)
  from wait_ends [OF 1 2] show ?thesis .
qed
text \<open>
  The exclusion among the jobs of one node has no effect. A local job runs under the name of the node
  and its own, and so does its running marker, but the jobs it excludes are looked up by their bare
  names: while another local job that excludes it is running, a local job does not wait.
\<close>

theorem local_exclusion_ineffective:
  assumes "bucket_ok cb st" and "map_of localPeriodicJobRecipes t = Some rc" and "u \<in> set (rc_excl rc)"
    and "st d (runningKey (e_serverId e @ ''/'' @ u)) = Some (runningMarker e now)"
    and "\<forall>x \<in> set (rc_excl rc). st d (runningKey x) = None"
  shows "waitLoop (Suc fuel) cb (rc_excl rc) oth clk start period 0 d = Some (False, d)"
  using not_running [OF assms(1), of "rc_excl rc" d] assms(5) by simp

theorem local_exclusion_ineffective_witness:
  "waitLoop (Suc 0) (memBucket noView) [''reconcile'', ''quickReconcile''] (\<lambda>n d. d) (\<lambda>n. 0) 0 hour 0
     [(runningKey ''n1/reconcile'', runningMarker anEnv 0)] = Some (False, [(runningKey ''n1/reconcile'', runningMarker anEnv 0)])"
proof -
  let ?rc = "\<lparr>rc_period = cf_LocalValidationFreq, rc_excl = [''reconcile'', ''quickReconcile'']\<rparr>"
  let ?d = "[(runningKey ''n1/reconcile'', runningMarker anEnv 0)]"
  have m: "map_of localPeriodicJobRecipes ''validateLocal'' = Some ?rc" by (simp add: localPeriodicJobRecipes_def)
  have u: "''reconcile'' \<in> set (rc_excl ?rc)" by simp
  have s: "map_of ?d (runningKey (e_serverId anEnv @ ''/'' @ ''reconcile'')) = Some (runningMarker anEnv 0)"
    by (simp add: anEnv_def)
  have n: "\<forall>x \<in> set (rc_excl ?rc). map_of ?d (runningKey x) = None" by (simp add: runningKey_def)
  have "waitLoop (Suc 0) (memBucket noView) (rc_excl ?rc) (\<lambda>n d. d) (\<lambda>n. 0) 0 hour 0 ?d = Some (False, ?d)"
    by (rule local_exclusion_ineffective [where st = map_of and t = "''validateLocal''" and u = "''reconcile''"
          and e = anEnv and now = 0, OF memBucket_ok m u s n])
  then show ?thesis by (simp only: recipe.select_convs)
qed

text \<open>
  C36: cleaning up after a dead node spares scarce blobs. \<open>cleanupNode\<close> never touches the ownership record of
  a blob that is not garbage and has fewer than the minimum of copies; it only asks for another copy.
\<close>

theorem cleanupNode_spares_scarce:
  assumes "bucket_ok cb st" and "e_nodeListKeys e = initNodeListKeys m"
    and "cbView cb ''node_blobs'' (nodeBlobsParams node (cf_NodeCleanCount (e_conf e))) d = Inr res"
    and "blobRows garbageRow (vRows res) = Some rows"
    and "cleanupNode e cb room clk node d q = Ret (d', q')" and "validHash h" and "h \<noteq> node"
    and "\<forall>r \<in> set rows. tl (br_Id r) = h \<longrightarrow> \<not> br_Garbage r \<and> int (length (br_Nodes r)) < cf_MinReplicas (e_conf e)"
  shows "st d' (''/'' @ h) = st d (''/'' @ h)"
proof -
  have scarce: "\<And>r. r \<in> set rows \<Longrightarrow> plenty e r \<Longrightarrow> tl (br_Id r) \<noteq> h" using assms(8) by (auto simp: plenty_def)
  show ?thesis
  proof (cases "cf_NodeCleanCount (e_conf e) < 1 \<or> (\<exists>er. findAllNodes e cb d = Inl er)")
    case True
    then have "cleanupNode e cb room clk node d q = Ret (d, q)" unfolding cleanupNode_def by (elim disjE exE) simp_all
    with assms(5) show ?thesis by simp
  next
    case False
    then obtain nodes where n: "findAllNodes e cb d = Inr nodes" "\<not> cf_NodeCleanCount (e_conf e) < 1"
      by (cases "findAllNodes e cb d") auto
    with assms(3-5) obtain found d1 q1 where c: "cleanupRows e cb room node nodes rows 0 d q = Ret (found, d1, q1)"
      by (cases "cleanupRows e cb room node nodes rows 0 d q") (auto simp: cleanupNode_def)
    note d1 = cleanupRows_frame [OF assms(1,6) c scarce]
    show ?thesis
    proof (cases "found = 0 \<and> vErrors res = []")
      case True
      with n assms(3-5) c have drop: "dropNode e cb clk node d1 = Ret d'"
        by (auto simp: cleanupNode_def split: go.splits)
      have "''/'' @ h \<noteq> ''/'' @ node" "''/'' @ h \<noteq> ''/'' @ node @ ''/r''"
        using assms(7) validHash_no_slash [OF assms(6), of node "''r''"] by auto
      from dropNode_frame [OF assms(1) drop validHash_key [OF assms(6)] this assms(2)] d1 show ?thesis by simp
    next
      case no: False
      with n assms(3-5) c have "d' = d1" unfolding cleanupNode_def by (simp split: if_splits)
      with d1 show ?thesis by simp
    qed
  qed
qed

definition scarceBlob :: blobOwnership where
  "scarceBlob = aBlob\<lparr>bo_Nodes := Some [(''n1'', 0), (''n2'', 0)]\<rparr>"

definition aBlobView :: "string \<Rightarrow> (string \<times> json) list \<Rightarrow> memdb \<Rightarrow> gerr + viewRes" where
  "aBlobView v ps d =
     Inr \<lparr>vRows = [\<lparr>vr_id = ''/6162'', vr_key = JStr ''n2'', vr_value = JNull, vr_doc = marshal_blob scarceBlob\<rparr>], vErrors = []\<rparr>"

definition aCluster :: memdb where
  "aCluster = [(''/@nodes'', RJson (marshal_reg (nodeRegistry_zero\<lparr>reg_Nodes := Some [(''n3'', 5)]\<rparr>))),
     (''/n3'', RJson (marshal_node nodeB)), (''/6162'', RJson (marshal_blob scarceBlob))]"

theorem cleanupNode_spares_scarce_witness:
  "\<exists>d' q'. cleanupNode (anEnv\<lparr>e_nodeListKeys := initNodeListKeys 0\<rparr>) (memBucket aBlobView) (\<lambda>_. True) (\<lambda>_ _. 0) ''n2'' aCluster [] = Ret (d', q') \<and>
     map_of d' (''/'' @ ''6162'') = map_of aCluster (''/'' @ ''6162'')"
proof -
  let ?e = "anEnv\<lparr>e_nodeListKeys := initNodeListKeys 0\<rparr>"
  let ?res = "\<lparr>vRows = [\<lparr>vr_id = ''/6162'', vr_key = JStr ''n2'', vr_value = JNull, vr_doc = marshal_blob scarceBlob\<rparr>], vErrors = []\<rparr>"
  let ?r = "cleanupNode ?e (memBucket aBlobView) (\<lambda>_. True) (\<lambda>_ _. 0) ''n2'' aCluster []"
  have "(case ?r of Ret _ \<Rightarrow> True | Panic \<Rightarrow> False)" by code_simp
  then obtain d' q' where r: "?r = Ret (d', q')" by (cases ?r) auto
  have v: "cbView (memBucket aBlobView) ''node_blobs'' (nodeBlobsParams ''n2'' (cf_NodeCleanCount (e_conf ?e))) aCluster = Inr ?res"
    by (simp add: memBucket_def aBlobView_def)
  let ?row = "\<lparr>br_Id = ''/6162'', br_Nodes = map fst (mrange (bo_Nodes scarceBlob)), br_Garbage = False, br_Length = 0\<rparr>"
  have rows: "blobRows garbageRow (vRows ?res) = Some [?row]" by code_simp
  have h: "validHash ''6162''" "''6162'' \<noteq> ''n2''" by code_simp+
  have few: "\<forall>r \<in> set [?row]. tl (br_Id r) = ''6162'' \<longrightarrow> \<not> br_Garbage r \<and> int (length (br_Nodes r)) < cf_MinReplicas (e_conf ?e)"
    by (simp add: scarceBlob_def aBlob_def anEnv_def DefaultConfig_def)
  have k: "e_nodeListKeys ?e = initNodeListKeys 0" by simp
  from r cleanupNode_spares_scarce [where st = map_of, OF memBucket_ok k v rows r h few] show ?thesis by blast
qed

text \<open>
  C37: relieving a full node keeps the replicas. Every task \<open>moveSomeOffOf\<close> sends is about a blob of the page
  it read, and either asks the full node to drop its copy where the minimum of copies remains without it,
  or asks a node that has room and no copy to take the copy over.
\<close>

theorem moveSomeOffOf_keeps_replicas:
  assumes "\<And>i k. 0 < k \<Longrightarrow> rnd i k < k"
    and "cbView cb ''node_blobs'' (nodeBlobsParams (sn_name n) (cf_TrimFullNodesCount (e_conf e))) d = Inr res"
    and "blobRows lengthRow (vRows res) = Some rows"
  shows "\<exists>ts. moveSomeOffOf e cb rnd n nl d q = q @ ts \<and>
     (\<forall>t \<in> set ts. \<exists>r \<in> set rows. it_oid t = tl (br_Id r) \<and>
        (t = removalTask n (it_oid t) \<and> cf_MinReplicas (e_conf e) \<le> int (length (br_Nodes r)) - 1 \<or>
         (\<exists>n' \<in> set nl. t = acquireTask n' (it_oid t) (sn_name n) \<and> sn_name n' \<notin> set (br_Nodes r) \<and>
            cf_TrimFullNodesSpace (e_conf e) < sn_Free n')))"
  using moveRows_tasks [OF assms(1), where e = e and n = n and nl = nl and rows = rows and m = 0 and q = q] assms(2,3)
  by (simp add: moveSomeOffOf_def)

theorem moveSomeOffOf_keeps_replicas_witness:
  "\<exists>ts. moveSomeOffOf (anEnv\<lparr>e_conf := DefaultConfig\<lparr>cf_TrimFullNodesSpace := 1000\<rparr>\<rparr>) (memBucket aBlobView) (\<lambda>i k. 0) nodeA [nodeB] [] [] = ts \<and>
     (\<forall>t \<in> set ts. it_oid t = ''6162'')"
proof -
  let ?e = "anEnv\<lparr>e_conf := DefaultConfig\<lparr>cf_TrimFullNodesSpace := 1000\<rparr>\<rparr>"
  let ?res = "\<lparr>vRows = [\<lparr>vr_id = ''/6162'', vr_key = JStr ''n2'', vr_value = JNull, vr_doc = marshal_blob scarceBlob\<rparr>], vErrors = []\<rparr>"
  have 1: "0 < k \<Longrightarrow> (\<lambda>i k. 0) i k < k" for i k :: nat by simp
  have 2: "cbView (memBucket aBlobView) ''node_blobs'' (nodeBlobsParams (sn_name nodeA) (cf_TrimFullNodesCount (e_conf ?e))) [] = Inr ?res"
    by (simp add: memBucket_def aBlobView_def)
  have 3: "blobRows lengthRow (vRows ?res)
      = Some [\<lparr>br_Id = ''/6162'', br_Nodes = map fst (mrange (bo_Nodes scarceBlob)), br_Garbage = False, br_Length = bo_Length scarceBlob\<rparr>]"
    by code_simp
  from moveSomeOffOf_keeps_replicas [OF 1 2 3, of "[nodeB]" "[]"] show ?thesis by auto
qed

end
