(* ===== verification/Garbage.thy ===== *)
theory Garbage
  imports Tasks
begin

text \<open>
  Garbage collection (\<open>okToClean\<close> and \<open>garbageCollectBlobs\<close> of tasks.go): a walk, in descending order
  and page by page, over the rows of the files and blobs view. A blob is collected when no file row precedes its
  own rows and no backup refers to it. The properties state that collection spares what a file or a backup refers
  to, whatever other nodes do in between, and when the walk ends.
\<close>

section \<open>The collector\<close>

definition okToClean :: "'db bucket \<Rightarrow> time \<Rightarrow> string \<Rightarrow> 'db \<Rightarrow> bool \<times> 'db" where
  "okToClean cb now oid d = (let (er, d') = markGarbage cb now oid d in (er = None, d'))"

text \<open>The variables of the loop; \<open>gc_reads\<close> counts the readings of the clock.\<close>

record gcState =
  gc_startKey :: string
  gc_lastBlob :: string
  gc_count :: int
  gc_skipped :: int
  gc_inBackup :: int
  gc_reads :: nat

definition gcParams :: "int \<Rightarrow> string \<Rightarrow> (string \<times> json) list" where
  "gcParams limit startKey =
     [(''stale'', JBool False), (''descending'', JBool True), (''limit'', JNum (i64 (limit + 1))),
      (''startkey'', JArr [JStr startKey])]"

text \<open>A blob row whose blob no file row came before.\<close>

definition gcBlob ::
  "'hs hsOps \<Rightarrow> env \<Rightarrow> 'db bucket \<Rightarrow> (nat \<Rightarrow> time) \<Rightarrow> (string \<times> storageNode) list \<Rightarrow> 'hs \<Rightarrow> string \<Rightarrow> string
     \<Rightarrow> gcState \<times> 'db \<times> internodeTask list \<Rightarrow> gcState \<times> 'db \<times> internodeTask list" where
  "gcBlob hs e cb clk nm backedup blobId blobNode st =
     (case st of (s, d, q) \<Rightarrow>
        if blobNode = [] then
          (s\<lparr>gc_count := gc_count s + 1\<rparr>, snd (removeBlobOwnershipRecord e cb blobId (e_serverId e) d), q)
        else case map_of nm blobNode of
               None \<Rightarrow> (s, d, q)
             | Some n \<Rightarrow>
                 (if (case hexDecode blobId of Some b \<Rightarrow> hs_Contains hs backedup b | None \<Rightarrow> False) then
                    (s\<lparr>gc_inBackup := gc_inBackup s + 1\<rparr>, d, q)
                  else (let (ok, d') = okToClean cb (clk (gc_reads s)) blobId d; s' = s\<lparr>gc_reads := Suc (gc_reads s)\<rparr> in
                        if ok then (s'\<lparr>gc_count := gc_count s + 1\<rparr>, d', queueBlobRemoval n blobId q)
                        else (s'\<lparr>gc_skipped := gc_skipped s + 1\<rparr>, d', q))))"

definition gcRow ::
  "'hs hsOps \<Rightarrow> env \<Rightarrow> 'db bucket \<Rightarrow> (nat \<Rightarrow> time) \<Rightarrow> (string \<times> storageNode) list \<Rightarrow> 'hs \<Rightarrow> string list
     \<Rightarrow> gcState \<times> 'db \<times> internodeTask list \<Rightarrow> gcState \<times> 'db \<times> internodeTask list" where
  "gcRow hs e cb clk nm backedup key st =
     (case st of (s, d, q) \<Rightarrow>
        case key of
          blobId # typeFlag # blobNode # _ \<Rightarrow>
            (let s' = s\<lparr>gc_startKey := blobId\<rparr> in
             if typeFlag = ''file'' then (s'\<lparr>gc_lastBlob := blobId\<rparr>, d, q)
             else if typeFlag = ''blob'' \<and> blobId \<noteq> gc_lastBlob s then
               gcBlob hs e cb clk nm backedup blobId blobNode (s', d, q)
             else (s', d, q))
        | _ \<Rightarrow> (s, d, q))"

text \<open>
  The loop over the pages; \<open>oth n\<close> is what other nodes do to the bucket before the n-th page is read.
  \<open>None\<close>: the fuel ran out.
\<close>

fun gcLoop ::
  "nat \<Rightarrow> 'hs hsOps \<Rightarrow> env \<Rightarrow> 'db bucket \<Rightarrow> (nat \<Rightarrow> time) \<Rightarrow> (nat \<Rightarrow> 'db \<Rightarrow> 'db) \<Rightarrow> (string \<times> storageNode) list \<Rightarrow> 'hs \<Rightarrow> nat
     \<Rightarrow> gcState \<times> 'db \<times> internodeTask list \<Rightarrow> (gerr option \<times> 'db \<times> internodeTask list) go option" where
  "gcLoop 0 hs e cb clk oth nm backedup n st = None"
| "gcLoop (Suc fuel) hs e cb clk oth nm backedup n (s, d, q) =
     (let d0 = oth n d in
      case cbView cb ''file_blobs'' (gcParams (cf_GCLimit (e_conf e)) (gc_startKey s)) d0 of
        Inl er \<Rightarrow> Some (Ret (Some er, d0, q))
      | Inr res \<Rightarrow>
          (case rowKeys (vRows res) of
             None \<Rightarrow> Some (Ret (Some EJson, d0, q))
           | Some ks \<Rightarrow>
               (if vErrors res \<noteq> [] then Some (Ret (Some (EMsg ''View errors''), d0, q))
                else
                  (let (s1, d1, q1) = fold (gcRow hs e cb clk nm backedup) ks (s\<lparr>gc_lastBlob := []\<rparr>, d0, q) in
                   case relockTask e cb (clk (gc_reads s1)) ''garbageCollectBlobs'' d1 of
                     Panic \<Rightarrow> Some Panic
                   | Ret (False, d2) \<Rightarrow> Some (Ret (Some (EMsg ''Lost lock''), d2, q1))
                   | Ret (True, d2) \<Rightarrow>
                       (if int (length ks) < cf_GCLimit (e_conf e) then Some (Ret (None, d2, q1))
                        else gcLoop fuel hs e cb clk oth nm backedup (Suc n) (s1\<lparr>gc_reads := Suc (gc_reads s1)\<rparr>, d2, q1))))))"

definition gcStart :: gcState where
  "gcStart = \<lparr>gc_startKey = ''g'', gc_lastBlob = [], gc_count = 0, gc_skipped = 0, gc_inBackup = 0, gc_reads = 0\<rparr>"

definition garbageCollectBlobs ::
  "nat \<Rightarrow> 'hs hsOps \<Rightarrow> (string \<Rightarrow> gerr option \<Rightarrow> gerr + (json list \<times> gerr option)) \<Rightarrow> ('hs loadMsg list \<Rightarrow> 'hs loadMsg list)
     \<Rightarrow> (time \<Rightarrow> string) \<Rightarrow> (string \<Rightarrow> string \<Rightarrow> string) \<Rightarrow> env \<Rightarrow> 'db bucket \<Rightarrow> 'db fetchEnv \<Rightarrow> (nat \<Rightarrow> time) \<Rightarrow> (nat \<Rightarrow> 'db \<Rightarrow> 'db)
     \<Rightarrow> 'db world \<Rightarrow> (gerr option \<times> 'db world) go option" where
  "garbageCollectBlobs fuel hs gunzip sched tt sm e cb fe clk oth w =
     (if \<not> cf_GCEnabled (e_conf e) then Some (Ret (None, w))
      else
        (case loadExistingHashes hs gunzip sched tt sm e cb fe w of
           None \<Rightarrow> None
         | Some Panic \<Rightarrow> Some Panic
         | Some (Ret (Inl er, w1)) \<Rightarrow> Some (Ret (Some er, w1))
         | Some (Ret (Inr backedup, w1)) \<Rightarrow>
             (case findNodeMap e cb (w_db w1) of
                Inl er \<Rightarrow> Some (Ret (Some er, w1))
              | Inr nm \<Rightarrow>
                  map_option (\<lambda>r. case r of Panic \<Rightarrow> Panic | Ret (er, d, q) \<Rightarrow> Ret (er, w1\<lparr>w_db := d, w_q := q\<rparr>))
                    (gcLoop fuel hs e cb clk oth nm backedup 0 (gcStart, w_db w1, w_q w1)))))"

section \<open>What the bucket promises\<close>

text \<open>
  An answer without errors is a page, descending from the start key, of the rows of the documents stored at that time.
\<close>

definition file_blobs_ok ::
  "'db bucket \<Rightarrow> ('db \<Rightarrow> string \<Rightarrow> raw option) \<Rightarrow> (string \<Rightarrow> string \<Rightarrow> bool) \<Rightarrow> bool" where
  "file_blobs_ok cb st lt \<longleftrightarrow>
     (\<forall>d limit sk res. cbView cb ''file_blobs'' (gcParams limit sk) d = Inr res \<longrightarrow> vErrors res = [] \<longrightarrow>
        (\<exists>L. descending lt L \<and> (\<forall>r. r \<in> set L \<longleftrightarrow> emitted view_file_blobs (st d) r) \<and>
             vRows res = pageDown lt (i64 (limit + 1)) [sk] L))"

lemma memView_file_blobs_ok: "file_blobs_ok (memBucket memView) map_of (<)"
  unfolding file_blobs_ok_def
proof (intro allI impI)
  fix d limit sk res
  assume "cbView (memBucket memView) ''file_blobs'' (gcParams limit sk) d = Inr res"
  then have "vRows res = pageDown (<) (i64 (limit + 1)) [sk] (rev (memRows view_file_blobs d))"
    by (auto simp: memBucket_def memView_def gcParams_def Let_def)
  then show "\<exists>L. descending (<) L \<and> (\<forall>r. r \<in> set L \<longleftrightarrow> emitted view_file_blobs (map_of d) r) \<and>
      vRows res = pageDown (<) (i64 (limit + 1)) [sk] L"
    by (intro exI [of _ "rev (memRows view_file_blobs d)"]) (simp add: descending_memRows emitted_memRows)
qed
section \<open>Lemmas\<close>

subsection \<open>File rows come first\<close>

text \<open>
  Every blob row of \<open>h\<close> is met while \<open>h\<close> is the blob of the last file row.
\<close>

fun guarded :: "string \<Rightarrow> string \<Rightarrow> string list list \<Rightarrow> bool" where
  "guarded h lb [] \<longleftrightarrow> True"
| "guarded h lb (k # ks) \<longleftrightarrow>
     (\<forall>n rest. k = h # ''blob'' # n # rest \<longrightarrow> lb = h) \<and>
     guarded h (case k of b # t # n # _ \<Rightarrow> if t = ''file'' then b else lb | _ \<Rightarrow> lb) ks"

definition threeKey :: "vrow \<Rightarrow> bool" where
  "threeKey r \<longleftrightarrow> (\<exists>b t n. theKey r = [b, t, n])"

lemma emitted_three: "emitted view_file_blobs s r \<Longrightarrow> threeKey r"
  by (auto simp: emitted_def threeKey_def view_file_blobs_def Let_def split: if_splits)

lemma collation_asym: "collation_ok lt \<Longrightarrow> lt x y \<Longrightarrow> \<not> lt y x"
  unfolding collation_ok_def by blast

lemma descending_head:
  assumes "collation_ok lt" and "descending lt (r # rs)" and "r' \<in> set rs" and "theKey r = b # k" and "theKey r' = b' # k'"
  shows "b = b' \<or> lt b' b"
proof -
  have "\<not> keyLess lt (theKey r) (theKey r')" using assms(2,3) by (auto simp: descending_def)
  then show ?thesis using keyLess_hd [OF assms(1), of b k b' k'] unfolding assms(4,5) by blast
qed

lemma guarded_rows:
  assumes "collation_ok lt"
  shows "descending lt rs \<Longrightarrow> \<forall>r \<in> set rs. threeKey r \<Longrightarrow>
     (\<exists>r \<in> set rs. \<exists>n. theKey r = [h, ''file'', n]) \<or>
     (lb = h \<and> (\<forall>r \<in> set rs. hd (theKey r) = h \<or> lt (hd (theKey r)) h)) \<or>
     (\<forall>r \<in> set rs. \<forall>n. theKey r \<noteq> [h, ''blob'', n]) \<Longrightarrow>
     guarded h lb (map theKey rs)"
proof (induction rs arbitrary: lb)
  case (Cons r rs)
  obtain b t n where k: "theKey r = [b, t, n]" using Cons.prems(2) by (auto simp: threeKey_def)
  have three: "\<forall>r \<in> set rs. threeKey r" and desc: "descending lt rs"
    using Cons.prems(1,2) by (simp_all add: descending_def)
  have below: "b = b' \<or> lt b' b" if "r' \<in> set rs" "theKey r' = b' # k'" for r' b' k'
    using descending_head [OF assms Cons.prems(1) that(1) k that(2)] .
  have hds: "hd (theKey r') = b \<or> lt (hd (theKey r')) b" if "r' \<in> set rs" for r'
    using three that below [OF that] by (fastforce simp: threeKey_def)
  have blobfile: "lt ''blob'' ''file''" using assms by (simp add: collation_ok_def)
  have first: "lb = h" if "[b, t, n] = h # ''blob'' # n' # rest" for n' rest
  proof -
    have "\<not> (\<exists>r' \<in> set rs. \<exists>n. theKey r' = [h, ''file'', n])"
    proof
      assume "\<exists>r' \<in> set rs. \<exists>n. theKey r' = [h, ''file'', n]"
      then obtain r' m where r': "r' \<in> set rs" "theKey r' = [h, ''file'', m]" by blast
      with Cons.prems(1) have "\<not> keyLess lt (theKey r) (theKey r')" by (auto simp: descending_def)
      with that k r'(2) blobfile show False by simp
    qed
    moreover from that k have "theKey r = [h, ''blob'', n]" by simp
    ultimately show ?thesis using Cons.prems(3) k that by auto
  qed
  let ?lb = "if t = ''file'' then b else lb"
  consider (here) m where "theKey r = [h, ''file'', m]" | (there) "\<exists>r \<in> set rs. \<exists>n. theKey r = [h, ''file'', n]"
    | (seen) "lb = h" "\<forall>r' \<in> set (r # rs). hd (theKey r') = h \<or> lt (hd (theKey r')) h"
    | (none) "\<forall>r \<in> set rs. \<forall>n. theKey r \<noteq> [h, ''blob'', n]"
    using Cons.prems(3) by auto
  then have "guarded h ?lb (map theKey rs)"
  proof cases
    case here
    then have "b = h" "t = ''file''" using k by simp_all
    with hds show ?thesis by (intro Cons.IH [OF desc three]) auto
  next
    case there
    then show ?thesis by (intro Cons.IH [OF desc three]) blast
  next
    case seen
    show ?thesis
    proof (cases "t = ''file'' \<and> b \<noteq> h")
      case True
      then have "lt b h" using seen(2) k by auto
      then have "\<not> (b = h \<or> lt h b)" using collation_asym [OF assms] True by blast
      then have "\<forall>r \<in> set rs. \<forall>n. theKey r \<noteq> [h, ''blob'', n]" using below by fastforce
      then show ?thesis by (intro Cons.IH [OF desc three]) blast
    next
      case False
      with seen show ?thesis by (intro Cons.IH [OF desc three]) auto
    qed
  next
    case none
    then show ?thesis by (intro Cons.IH [OF desc three]) blast
  qed
  with first k show ?case by simp
qed simp

text \<open>A page that has a blob row of a blob in use shows all of the blob's file rows before it.\<close>

lemma page_guarded:
  assumes "collation_ok lt" and "descending lt L" and "\<forall>r \<in> set L. threeKey r"
    and "f \<in> set L" and "theKey f = [h, ''file'', m]"
  shows "guarded h lb (map theKey (pageDown lt limit [sk] L))"
proof -
  let ?F = "filter (\<lambda>r. \<not> keyLess lt [sk] (theKey r)) L"
  let ?P = "take (nat limit) ?F"
  have dF: "descending lt ?F" using assms(2) unfolding descending_def by (rule sorted_wrt_filter)
  then have dP: "descending lt ?P" unfolding descending_def by (rule sorted_wrt_take)
  have sub: "set ?P \<subseteq> set L" by (auto dest: in_set_takeD)
  have "(\<exists>r \<in> set ?P. \<exists>n. theKey r = [h, ''file'', n]) \<or> (\<forall>r \<in> set ?P. \<forall>n. theKey r \<noteq> [h, ''blob'', n])"
  proof (rule disjCI)
    assume "\<not> (\<forall>r \<in> set ?P. \<forall>n. theKey r \<noteq> [h, ''blob'', n])"
    then obtain r n where r: "r \<in> set ?P" "theKey r = [h, ''blob'', n]" by blast
    have "\<not> keyLess lt [sk] (theKey r)" using in_set_takeD [OF r(1)] by simp
    then have "\<not> keyLess lt [sk] (theKey f)" using r(2) assms(5) by simp
    with assms(4) have "f \<in> set ?F" by simp
    then consider "f \<in> set ?P" | "f \<in> set (drop (nat limit) ?F)" by (metis append_take_drop_id in_set_conv_decomp set_append Un_iff)
    then have "f \<in> set ?P"
    proof cases
      case 2
      have "sorted_wrt (\<lambda>r s. \<not> keyLess lt (theKey r) (theKey s)) (?P @ drop (nat limit) ?F)"
        using dF by (simp add: descending_def)
      with r(1) 2 have "\<not> keyLess lt (theKey r) (theKey f)" unfolding sorted_wrt_append by blast
      with r(2) assms(1,5) show ?thesis by (simp add: collation_ok_def)
    qed simp
    with assms(5) show "\<exists>r \<in> set ?P. \<exists>n. theKey r = [h, ''file'', n]" by blast
  qed
  then show ?thesis
    unfolding pageDown_def using sub assms(3) by (intro guarded_rows [OF assms(1) dP]) blast+
qed

subsection \<open>What a row changes\<close>

definition spares :: "('db \<Rightarrow> string \<Rightarrow> raw option) \<Rightarrow> string \<Rightarrow> string \<Rightarrow> 'db \<times> internodeTask list \<Rightarrow> 'db \<times> internodeTask list \<Rightarrow> bool" where
  "spares st h k a b \<longleftrightarrow>
     st (fst b) (''/'' @ h) = st (fst a) (''/'' @ h) \<and> st (fst b) k = st (fst a) k \<and>
     (\<exists>ts. snd b = snd a @ ts \<and> (\<forall>t \<in> set ts. it_oid t \<noteq> h))"

lemma spares_refl [simp]: "spares st h k a a"
  by (simp add: spares_def)

lemma spares_trans: "spares st h k a b \<Longrightarrow> spares st h k b c \<Longrightarrow> spares st h k a c"
  by (auto simp: spares_def)

lemma gcBlob_spares:
  assumes "bucket_ok cb st" and "validHash h" and "\<not> hasPrefix k ''/''" and "b \<noteq> h"
    and "gcBlob hs e cb clk nm backedup b n (s, d, q) = (s', d', q')"
  shows "spares st h k (d, q) (d', q')" and "gc_lastBlob s' = gc_lastBlob s" and "gc_startKey s' = gc_startKey s"
proof -
  have k: "k \<noteq> ''/'' @ x" for x using assms(3) by (auto simp: hasPrefix_def)
  have h: "''/'' @ h \<noteq> ''/'' @ b @ ''/r''" using validHash_no_slash [OF assms(2), of b "''r''"] by simp
  have 1: "st (snd (removeBlobOwnershipRecord e cb b (e_serverId e) d)) x = st d x" if "x = k \<or> x = ''/'' @ h" for x
    using that h assms(4) k by (intro removeBlobOwnershipRecord_frame [OF assms(1)]) auto
  have 2: "st (snd (markGarbage cb now b d)) x = st d x" if "x = k \<or> x = ''/'' @ h" for x now
    using that assms(4) k by (intro markGarbage_frame [OF assms(1)]) auto
  show "spares st h k (d, q) (d', q')"
    using assms(4,5) 1 2 [of k "clk (gc_reads s)"] 2 [of "''/'' @ h" "clk (gc_reads s)"]
    by (auto simp: gcBlob_def spares_def okToClean_def Let_def queueBlobRemoval_def removalTask_def
        split: if_splits option.splits prod.splits)
  show "gc_lastBlob s' = gc_lastBlob s" "gc_startKey s' = gc_startKey s"
    using assms(5) by (auto simp: gcBlob_def Let_def split: if_splits option.splits prod.splits)
qed

lemma gcRow_spares:
  assumes "bucket_ok cb st" and "validHash h" and "\<not> hasPrefix k ''/''" and "guarded h (gc_lastBlob s) (key # ks)"
    and "gcRow hs e cb clk nm backedup key (s, d, q) = (s', d', q')"
  shows "spares st h k (d, q) (d', q') \<and> guarded h (gc_lastBlob s') ks"
proof (cases "\<exists>b n rest. key = b # ''blob'' # n # rest \<and> b \<noteq> gc_lastBlob s")
  case True
  then obtain b n rest where key: "key = b # ''blob'' # n # rest" and nb: "b \<noteq> gc_lastBlob s" by blast
  then have bh: "b \<noteq> h" using assms(4) by auto
  have "gcBlob hs e cb clk nm backedup b n (s\<lparr>gc_startKey := b\<rparr>, d, q) = (s', d', q')"
    using assms(5) key nb by (simp add: gcRow_def)
  from gcBlob_spares(1,2) [OF assms(1-3) bh this] assms(4) key show ?thesis by simp
next
  case False
  with assms(4,5) show ?thesis by (auto simp: gcRow_def Let_def split: list.splits if_splits)
qed

lemma gcRows_spares:
  assumes "bucket_ok cb st" and "validHash h" and "\<not> hasPrefix k ''/''"
  shows "guarded h (gc_lastBlob s) ks \<Longrightarrow> fold (gcRow hs e cb clk nm backedup) ks (s, d, q) = (s', d', q') \<Longrightarrow>
     spares st h k (d, q) (d', q')"
proof (induction ks arbitrary: s d q)
  case (Cons key ks)
  obtain s1 d1 q1 where r: "gcRow hs e cb clk nm backedup key (s, d, q) = (s1, d1, q1)"
    by (cases "gcRow hs e cb clk nm backedup key (s, d, q)") auto
  note row = gcRow_spares [OF assms Cons.prems(1) r]
  from row Cons.prems(2) r have "spares st h k (d1, q1) (d', q')" by (intro Cons.IH) simp_all
  with row show ?case using spares_trans by blast
qed simp
text \<open>
  The rows of a page of a bucket that holds a file: its objects are guarded.
\<close>

lemma view_page_guarded:
  assumes "collation_ok lt" and "file_blobs_ok cb st lt"
    and "cbView cb ''file_blobs'' (gcParams limit sk) d = Inr res" and "vErrors res = []" and "rowKeys (vRows res) = Some ks"
    and "st d k = Some (RJson doc)" and "([h, ''file'', m], v) \<in> set (view_file_blobs k doc)"
  shows "guarded h lb ks"
proof -
  obtain L where L: "descending lt L" "\<And>r. r \<in> set L \<longleftrightarrow> emitted view_file_blobs (st d) r"
      "vRows res = pageDown lt (i64 (limit + 1)) [sk] L"
    using assms(2-4) unfolding file_blobs_ok_def by blast
  have "emitted view_file_blobs (st d) (emittedRow k ([h, ''file'', m], v))"
    using assms(6,7) unfolding emitted_def by blast
  with L(2) have f: "emittedRow k ([h, ''file'', m], v) \<in> set L" by simp
  have three: "\<forall>r \<in> set L. threeKey r" using L(2) emitted_three by blast
  have "\<And>r. r \<in> set (vRows res) \<Longrightarrow> rowKey r = Some (theKey r)"
    using L(2,3) set_pageDown [of lt "i64 (limit + 1)" "[sk]" L] emitted_key by auto
  then have "ks = map theKey (vRows res)" using rowKeys_theKey assms(5) by fastforce
  with page_guarded [OF assms(1) L(1) three f, of h m] L(3) show ?thesis by simp
qed

text \<open>One round of the loop: an end, or a page of rows and another round.\<close>

lemma gcLoop_round:
  assumes "gcLoop (Suc fuel) hs e cb clk oth nm backedup n (s, d, q) = Some (Ret (er, d', q'))"
  obtains (nothing) "d' = oth n d" "q' = q"
  | (page) res ks s1 d1 q1 ok d2 where
      "cbView cb ''file_blobs'' (gcParams (cf_GCLimit (e_conf e)) (gc_startKey s)) (oth n d) = Inr res"
      "vErrors res = []" "rowKeys (vRows res) = Some ks"
      "fold (gcRow hs e cb clk nm backedup) ks (s\<lparr>gc_lastBlob := []\<rparr>, oth n d, q) = (s1, d1, q1)"
      "relockTask e cb (clk (gc_reads s1)) ''garbageCollectBlobs'' d1 = Ret (ok, d2)"
      "d' = d2 \<and> q' = q1 \<or>
       gcLoop fuel hs e cb clk oth nm backedup (Suc n) (s1\<lparr>gc_reads := Suc (gc_reads s1)\<rparr>, d2, q1) = Some (Ret (er, d', q'))"
proof (cases "cbView cb ''file_blobs'' (gcParams (cf_GCLimit (e_conf e)) (gc_startKey s)) (oth n d)")
  case (Inl x)
  with assms have "d' = oth n d" "q' = q" by (simp_all add: Let_def)
  then show ?thesis by (rule nothing)
next
  case (Inr res)
  show ?thesis
  proof (cases "vErrors res = [] \<and> rowKeys (vRows res) \<noteq> None")
    case False
    with assms Inr have "d' = oth n d" "q' = q" by (auto simp: Let_def split: option.splits if_splits)
    then show ?thesis by (rule nothing)
  next
    case True
    then obtain ks where ks: "rowKeys (vRows res) = Some ks" by blast
    obtain s1 d1 q1 where f: "fold (gcRow hs e cb clk nm backedup) ks (s\<lparr>gc_lastBlob := []\<rparr>, oth n d, q) = (s1, d1, q1)"
      using prod_cases3 by blast
    obtain ok d2 where r: "relockTask e cb (clk (gc_reads s1)) ''garbageCollectBlobs'' d1 = Ret (ok, d2)"
      using assms Inr ks f True by (cases "relockTask e cb (clk (gc_reads s1)) ''garbageCollectBlobs'' d1") (auto simp: Let_def)
    have "d' = d2 \<and> q' = q1 \<or>
       gcLoop fuel hs e cb clk oth nm backedup (Suc n) (s1\<lparr>gc_reads := Suc (gc_reads s1)\<rparr>, d2, q1) = Some (Ret (er, d', q'))"
      using assms Inr ks f True r by (cases ok) (auto simp: Let_def split: if_splits)
    from page [OF Inr _ ks f r this] True show ?thesis by blast
  qed
qed

lemma gcLoop_spares:
  assumes "bucket_ok cb st" and "validHash h" and "\<not> hasPrefix k ''/''" and "collation_ok lt" and "file_blobs_ok cb st lt"
    and oth: "\<And>n d. st (oth n d) k = st d k \<and> st (oth n d) (''/'' @ h) = st d (''/'' @ h)"
    and row: "([h, ''file'', m], v) \<in> set (view_file_blobs k doc)"
  shows "gcLoop fuel hs e cb clk oth nm backedup n (s, d, q) = Some (Ret (er, d', q')) \<Longrightarrow> st d k = Some (RJson doc) \<Longrightarrow>
     spares st h k (d, q) (d', q')"
proof (induction fuel arbitrary: n s d q)
  case (Suc fuel)
  have slash: "\<not> hasPrefix k ''/@''" using assms(3) by (cases k) (auto simp: hasPrefix_def)
  from Suc.prems(1) show ?case
  proof (cases rule: gcLoop_round)
    case nothing
    then show ?thesis using oth by (simp add: spares_def)
  next
    case (page res ks s1 d1 q1 ok d2)
    have k0: "st (oth n d) k = Some (RJson doc)" using oth Suc.prems(2) by simp
    have g: "guarded h (gc_lastBlob (s\<lparr>gc_lastBlob := []\<rparr>)) ks"
      by (rule view_page_guarded [OF assms(4,5) page(1-3) k0 row])
    have "spares st h k (d, q) (oth n d, q)" using oth by (simp add: spares_def)
    moreover have rows: "spares st h k (oth n d, q) (d1, q1)" by (rule gcRows_spares [OF assms(1-3) g page(4)])
    moreover have lock: "spares st h k (d1, q1) (d2, q1)"
      using relockTask_frame [OF assms(1) page(5)] slash validHash_key [OF assms(2)] by (simp add: spares_def)
    ultimately have here: "spares st h k (d, q) (d2, q1)" using spares_trans by blast
    then have "st d2 k = Some (RJson doc)" using Suc.prems(2) by (simp add: spares_def)
    then show ?thesis using page(6) Suc.IH here spares_trans by blast
  qed
qed simp
subsection \<open>Backups\<close>

lemma gcRow_queue:
  assumes "gcRow hs e cb clk nm backedup key (s, d, q) = (s', d', q')"
  shows "\<exists>ts. q' = q @ ts \<and> (\<forall>t \<in> set ts. \<forall>b. hexDecode (it_oid t) = Some b \<longrightarrow> \<not> hs_Contains hs backedup b)"
  using assms
  by (auto simp: gcRow_def gcBlob_def Let_def queueBlobRemoval_def removalTask_def split: list.splits if_splits option.splits prod.splits)

lemma gcRows_queue:
  "fold (gcRow hs e cb clk nm backedup) ks (s, d, q) = (s', d', q') \<Longrightarrow>
     \<exists>ts. q' = q @ ts \<and> (\<forall>t \<in> set ts. \<forall>b. hexDecode (it_oid t) = Some b \<longrightarrow> \<not> hs_Contains hs backedup b)"
proof (induction ks arbitrary: s d q)
  case (Cons k ks)
  obtain s1 d1 q1 where r: "gcRow hs e cb clk nm backedup k (s, d, q) = (s1, d1, q1)"
    by (cases "gcRow hs e cb clk nm backedup k (s, d, q)") auto
  from Cons.prems r Cons.IH [of s1 d1 q1] gcRow_queue [OF r] show ?case by fastforce
qed simp

lemma gcLoop_queue:
  "gcLoop fuel hs e cb clk oth nm backedup n (s, d, q) = Some (Ret (er, d', q')) \<Longrightarrow>
     \<exists>ts. q' = q @ ts \<and> (\<forall>t \<in> set ts. \<forall>b. hexDecode (it_oid t) = Some b \<longrightarrow> \<not> hs_Contains hs backedup b)"
proof (induction fuel arbitrary: n s d q)
  case (Suc fuel)
  from Suc.prems show ?case
  proof (cases rule: gcLoop_round)
    case (page res ks s1 d1 q1 ok d2)
    from gcRows_queue [OF page(4)] page(6) Suc.IH show ?thesis by fastforce
  qed simp
qed simp

subsection \<open>The end of the walk\<close>

definition pages_within :: "'db bucket \<Rightarrow> (string \<Rightarrow> string \<Rightarrow> bool) \<Rightarrow> string set \<Rightarrow> int \<Rightarrow> bool" where
  "pages_within cb lt K limit \<longleftrightarrow>
     (\<forall>d sk res. cbView cb ''file_blobs'' (gcParams limit sk) d = Inr res \<longrightarrow>
        (\<exists>L. vRows res = pageDown lt (i64 (limit + 1)) [sk] L \<and> (\<forall>r \<in> set L. threeKey r \<and> hd (theKey r) \<in> K)))"

lemma gcBlob_startKey:
  "gc_startKey (fst (gcBlob hs e cb clk nm backedup b n (s, d, q))) = gc_startKey s"
  by (simp add: gcBlob_def Let_def split: option.split prod.split)

lemma gcRow_startKey: "gc_startKey (fst (gcRow hs e cb clk nm backedup [b, t, n] (s, d, q))) = b"
  by (simp add: gcRow_def Let_def gcBlob_startKey)

lemma gcRows_startKey:
  assumes "ks \<noteq> []" and "\<forall>k \<in> set ks. \<exists>b t n. k = [b, t, n]"
  shows "gc_startKey (fst (fold (gcRow hs e cb clk nm backedup) ks st)) = hd (last ks)"
  using assms
proof (induction ks rule: rev_nonempty_induct)
  case (single k)
  then show ?case by (cases st) (auto simp: gcRow_startKey)
next
  case (snoc k ks)
  then obtain b t n where k: "k = [b, t, n]" by auto
  show ?case by (cases "fold (gcRow hs e cb clk nm backedup) ks st") (simp add: k gcRow_startKey)
qed

lemma gcLoop_ends:
  assumes "collation_ok lt" and "finite K" and "pages_within cb lt K (cf_GCLimit (e_conf e))" and "1 \<le> cf_GCLimit (e_conf e)"
  shows "card {x \<in> K. lt x (gc_startKey s)} < fuel \<Longrightarrow> \<exists>r. gcLoop fuel hs e cb clk oth nm backedup n (s, d, q) = Some r"
proof (induction fuel arbitrary: n s d q)
  case (Suc fuel)
  let ?limit = "cf_GCLimit (e_conf e)" and ?sk = "gc_startKey s"
  show ?case
  proof (cases "cbView cb ''file_blobs'' (gcParams ?limit ?sk) (oth n d)")
    case (Inr res)
    obtain L where L: "vRows res = pageDown lt (i64 (?limit + 1)) [?sk] L" "\<forall>r \<in> set L. threeKey r \<and> hd (theKey r) \<in> K"
      using assms(3) Inr unfolding pages_within_def by blast
    have rk: "rowKey r = Some (theKey r)" if "r \<in> set (vRows res)" for r
      using that L set_pageDown [of lt "i64 (?limit + 1)" "[?sk]" L] by (auto simp: threeKey_def theKey_def split: option.splits)
    let ?ks = "map theKey (vRows res)"
    have ks: "rowKeys (vRows res) = Some ?ks" using rk by (rule rowKeys_theKey)
    obtain s1 d1 q1 where f: "fold (gcRow hs e cb clk nm backedup) ?ks (s\<lparr>gc_lastBlob := []\<rparr>, oth n d, q) = (s1, d1, q1)"
      using prod_cases3 by blast
    have more: "\<exists>r. gcLoop fuel hs e cb clk oth nm backedup (Suc n) (s1\<lparr>gc_reads := Suc (gc_reads s1)\<rparr>, d2, q1) = Some r"
      if "?limit \<le> int (length ?ks)" for d2
    proof (rule Suc.IH)
      have ne: "?ks \<noteq> []" using that assms(4) by auto
      have in_page: "r \<in> set L \<and> \<not> keyLess lt [?sk] (theKey r)" if "r \<in> set (vRows res)" for r
        using that L(1) by (auto simp: pageDown_def dest: in_set_takeD)
      have three: "\<forall>k \<in> set ?ks. \<exists>b t n. k = [b, t, n]" using in_page L(2) by (auto simp: threeKey_def)
      have "last ?ks \<in> set ?ks" using ne by (rule last_in_set)
      then obtain r where r: "r \<in> set (vRows res)" "last ?ks = theKey r" by (auto simp del: last_map)
      obtain b t m where b: "theKey r = [b, t, m]" "b \<in> K" using in_page [OF r(1)] L(2) by (auto simp: threeKey_def)
      have "\<not> keyLess lt [?sk] [b, t, m]" using in_page [OF r(1)] b(1) by simp
      then have lt: "lt b ?sk" using assms(1) by (auto simp: collation_ok_def)
      have s1: "gc_startKey s1 = b" using gcRows_startKey [OF ne three, of hs e cb clk nm backedup "(s\<lparr>gc_lastBlob := []\<rparr>, oth n d, q)"] f r(2) b(1) by simp
      have "{x \<in> K. lt x b} \<subset> {x \<in> K. lt x ?sk}" using lt b(2) assms(1) unfolding collation_ok_def by blast
      then have "card {x \<in> K. lt x b} < card {x \<in> K. lt x ?sk}" using assms(2) by (intro psubset_card_mono) auto
      with Suc.prems s1 show "card {x \<in> K. lt x (gc_startKey (s1\<lparr>gc_reads := Suc (gc_reads s1)\<rparr>))} < fuel" by simp
    qed
    show ?thesis
    proof (cases "vErrors res = []")
      case True
      with Inr ks f more show ?thesis by (auto simp: Let_def split: go.split bool.split)
    qed (use Inr ks in \<open>simp add: Let_def\<close>)
  qed (simp add: Let_def)
qed simp

lemma loadExistingHashes_returns:
  assumes "sched_ok sched"
  shows "\<exists>r. loadExistingHashes hs gunzip sched tt sm e cb fe w = Some r"
proof -
  have "\<exists>s'. collect hs (sched (ms @ [MHashesClosed, MVisitClosed, MErrClosed]))
      \<lparr>ls_hs = hs_empty hs, ls_visited = 0, ls_err = er, ls_hsch = True, ls_visitch = True, ls_errch = True\<rparr> = Some s'" for ms er
    using collect_returns [of "\<lparr>ls_hs = hs_empty hs, ls_visited = 0, ls_err = er, ls_hsch = True, ls_visitch = True, ls_errch = True\<rparr>"
        "sched (ms @ [MHashesClosed, MVisitClosed, MErrClosed])" hs]
      sched_ok_set [OF assms, of "ms @ [MHashesClosed, MVisitClosed, MErrClosed]"] by auto
  then show ?thesis
    unfolding loadExistingHashes_def by (auto simp: Let_def split: go.split sum.split)
qed
subsection \<open>The rows of a file\<close>

lemma view_file_blobs_file:
  assumes "h \<in> set (fm_OID fm # map pm_OID (fm_Previous fm))"
  shows "([h, ''file'', docName k (marshal_fileMeta fm)], JNull) \<in> set (view_file_blobs k (marshal_fileMeta fm))"
proof -
  have o1: "jsGet ''oid'' (marshal_fileMeta fm) = JStr (fm_OID fm)" and t: "jsGet ''type'' (marshal_fileMeta fm) = JStr ''file''"
    by (auto simp: marshal_fileMeta_def split: option.splits)
  have p: "jsGet ''oid'' (marshal_prevMeta p) = JStr (pm_OID p)" for p by (simp add: marshal_prevMeta_def)
  have ol: "jsItems (jsGet ''older'' (marshal_fileMeta fm)) = map marshal_prevMeta (fm_Previous fm)"
    by (auto simp: marshal_fileMeta_def split: option.splits)
  show ?thesis using assms by (auto simp: view_file_blobs_def o1 t ol p)
qed

lemma garbageCollectBlobs_runs:
  assumes "cf_GCEnabled (e_conf e)" and "loadExistingHashes hs gunzip sched tt sm e cb fe w = Some (Ret (Inr S, w1))"
    and "garbageCollectBlobs fuel hs gunzip sched tt sm e cb fe clk oth w = Some (Ret (er, w'))"
  obtains (nothing) "w' = w1"
  | (ran) nm d' q' where "gcLoop fuel hs e cb clk oth nm S 0 (gcStart, w_db w1, w_q w1) = Some (Ret (er, d', q'))"
      "w' = w1\<lparr>w_db := d', w_q := q'\<rparr>"
proof (cases "findNodeMap e cb (w_db w1)")
  case (Inl x)
  with assms have "w' = w1" by (simp add: garbageCollectBlobs_def)
  then show ?thesis by (rule nothing)
next
  case (Inr nm)
  with assms obtain r where r: "gcLoop fuel hs e cb clk oth nm S 0 (gcStart, w_db w1, w_q w1) = Some r"
      "(case r of Panic \<Rightarrow> Panic | Ret (er, d, q) \<Rightarrow> Ret (er, w1\<lparr>w_db := d, w_q := q\<rparr>)) = Ret (er, w')"
    by (auto simp: garbageCollectBlobs_def)
  then obtain d' q' where "r = Ret (er, d', q')" "w' = w1\<lparr>w_db := d', w_q := q'\<rparr>" by (auto split: go.splits prod.splits)
  with r ran show ?thesis by blast
qed

section \<open>Properties\<close>

text \<open>
  C14: the collector spares what a file refers to. While a file document whose key does not begin with a slash
  and that names \<open>h\<close>, as its object or as
  the object of one of its older revisions, stays in the bucket, a run of \<open>garbageCollectBlobs\<close> sends no task about
  \<open>h\<close> and leaves the file document and the ownership record of \<open>h\<close> as they are, whatever else other nodes
  do to the bucket between its pages.
\<close>

theorem gc_spares_files:
  assumes "bucket_ok cb st" and "collation_ok lt" and "file_blobs_ok cb st lt" and "cf_GCEnabled (e_conf e)"
    and "\<And>n d. st (oth n d) k = st d k \<and> st (oth n d) (''/'' @ h) = st d (''/'' @ h)"
    and "loadExistingHashes hs gunzip sched tt sm e cb fe w = Some (Ret (Inr S, w1))"
    and "st (w_db w1) k = Some (RJson (marshal_fileMeta fm))" and "\<not> hasPrefix k ''/''"
    and "h \<in> set (fm_OID fm # map pm_OID (fm_Previous fm))" and "validHash h"
    and "garbageCollectBlobs fuel hs gunzip sched tt sm e cb fe clk oth w = Some (Ret (er, w'))"
  shows "st (w_db w') k = st (w_db w1) k \<and> st (w_db w') (''/'' @ h) = st (w_db w1) (''/'' @ h) \<and>
     (\<exists>ts. w_q w' = w_q w1 @ ts \<and> (\<forall>t \<in> set ts. it_oid t \<noteq> h))"
  using assms(4,6,11)
proof (cases rule: garbageCollectBlobs_runs)
  case (ran nm d' q')
  from gcLoop_spares [OF assms(1,10,8,2,3,5) view_file_blobs_file [OF assms(9)] ran(1) assms(7)] ran(2)
  show ?thesis by (simp add: spares_def)
qed simp

definition gcBucket :: memdb where
  "gcBucket =
     [(''/@garbageCollectBlobs'', RJson (marshal_marker \<lparr>jm_Node = ''n1'', jm_Started = 0, jm_Type = ''job''\<rparr>)),
      (''/@nodes'', RJson (marshal_reg (nodeRegistry_zero\<lparr>reg_Nodes := Some [(''n3'', 5)]\<rparr>))),
      (''/n3'', RJson (marshal_node nodeB)),
      (''doc'', RJson (marshal_fileMeta (aFile\<lparr>fm_OID := ''ab''\<rparr>))),
      (''/ab'', RJson (marshal_blob (aBlob\<lparr>bo_OID := ''ab''\<rparr>))),
      (''/cd'', RJson (marshal_blob (aBlob\<lparr>bo_OID := ''cd''\<rparr>)))]"

definition gcEnv :: env where
  "gcEnv = anEnv\<lparr>e_conf := DefaultConfig\<lparr>cf_GCEnabled := True, cf_GCLimit := 3\<rparr>\<rparr>"

lemma gcBucket_backups:
  "loadExistingHashes listHs gz (\<lambda>ms. ms) tt sm gcEnv (memBucket memView) fe (aWorld gcBucket) = Some (Ret (Inr [], aWorld gcBucket))"
proof -
  have "map_of gcBucket backupKey = None" by code_simp
  then have "getBackups tt (memBucket memView) gcBucket = Ret (Inl ENotFound)" by (simp add: getBackups_def memBucket_def)
  then show ?thesis
    by (simp add: loadExistingHashes_def aWorld_def backups_zero_def collect_Cons) (simp add: listHs_def)
qed

lemma gcBucket_run:
  "case garbageCollectBlobs 3 listHs gz (\<lambda>ms. ms) tt sm gcEnv (memBucket memView) fe (\<lambda>n. hour) (\<lambda>n d. d) (aWorld gcBucket) of
     Some (Ret (None, w')) \<Rightarrow> map it_oid (w_q w') = [''cd''] | _ \<Rightarrow> False"
proof -
  have "(case findNodeMap gcEnv (memBucket memView) gcBucket of
      Inr nm \<Rightarrow> (case gcLoop 3 listHs gcEnv (memBucket memView) (\<lambda>n. hour) (\<lambda>n d. d) nm [] 0 (gcStart, gcBucket, []) of
        Some (Ret (None, d, q)) \<Rightarrow> map it_oid q = [''cd''] | _ \<Rightarrow> False) | Inl _ \<Rightarrow> False)"
    by code_simp
  moreover have "cf_GCEnabled (e_conf gcEnv)" by (simp add: gcEnv_def)
  moreover have "w_db (aWorld gcBucket) = gcBucket" "w_q (aWorld gcBucket) = []" by (simp_all add: aWorld_def)
  ultimately show ?thesis
    unfolding garbageCollectBlobs_def gcBucket_backups by (auto split: sum.splits option.splits go.splits prod.splits)
qed

theorem gc_spares_files_witness:
  "\<exists>er w'. garbageCollectBlobs 3 listHs (\<lambda>c er. Inr ([], None)) (\<lambda>ms. ms) (\<lambda>_. []) sum0 gcEnv (memBucket memView) aFetchEnv
       (\<lambda>n. hour) (\<lambda>n d. d) (aWorld gcBucket) = Some (Ret (er, w')) \<and>
     map_of (w_db w') ''/ab'' = map_of gcBucket ''/ab'' \<and> (\<exists>ts. w_q w' = ts \<and> (\<forall>t \<in> set ts. it_oid t \<noteq> ''ab''))"
proof -
  let ?gz = "\<lambda>c er. Inr ([], None)"
  obtain er w' where r: "garbageCollectBlobs 3 listHs ?gz (\<lambda>ms. ms) (\<lambda>_. []) sum0 gcEnv (memBucket memView) aFetchEnv
       (\<lambda>n. hour) (\<lambda>n d. d) (aWorld gcBucket) = Some (Ret (er, w'))"
    using gcBucket_run [of ?gz "\<lambda>_. []" sum0 aFetchEnv] by (auto split: option.splits go.splits prod.splits)
  have on: "cf_GCEnabled (e_conf gcEnv)" by (simp add: gcEnv_def)
  have oth: "map_of ((\<lambda>n d. d) n d) ''doc'' = map_of d ''doc'' \<and>
      map_of ((\<lambda>n d. d) n d) (''/'' @ ''ab'') = map_of d (''/'' @ ''ab'')" for n :: nat and d :: memdb
    by simp
  have doc: "map_of (w_db (aWorld gcBucket)) ''doc'' = Some (RJson (marshal_fileMeta (aFile\<lparr>fm_OID := ''ab''\<rparr>)))"
    by (simp add: aWorld_def gcBucket_def)
  have k: "\<not> hasPrefix ''doc'' ''/''" and h: "validHash ''ab''" by code_simp+
  have i: "''ab'' \<in> set (fm_OID (aFile\<lparr>fm_OID := ''ab''\<rparr>) # map pm_OID (fm_Previous (aFile\<lparr>fm_OID := ''ab''\<rparr>)))" by simp
  from r gc_spares_files [where st = map_of, OF memBucket_ok collation_less memView_file_blobs_ok on oth gcBucket_backups doc k i h r]
  show ?thesis by (simp add: aWorld_def)
qed


definition gcView :: "string \<Rightarrow> (string \<times> json) list \<Rightarrow> memdb \<Rightarrow> gerr + viewRes" where
  "gcView v ps d = Inr \<lparr>vRows = pageDown (<) 4 (case map_of ps ''startkey'' of Some (JArr [JStr k]) \<Rightarrow> [k] | _ \<Rightarrow> [])
     (map (\<lambda>k. emittedRow (''/'' @ k) ([k, ''blob'', ''n3''], JNull)) [''f1'', ''ef'', ''cd'', ''ab'', ''12'']), vErrors = []\<rparr>"

definition gcDocs :: "string \<Rightarrow> gerr option \<Rightarrow> gerr + (json list \<times> gerr option)" where
  "gcDocs c er = Inr ([streamEntry \<lparr>nf_name = ''doc'', nf_meta = aFile\<lparr>fm_OID := replicate 40 (CHR ''a''),
     fm_Previous := [prev_of (aFile\<lparr>fm_OID := ''cd''\<rparr>)]\<rparr>, nf_err = None\<rparr>], er)"

definition gcWorld :: "memdb world" where
  "gcWorld = (aWorld ((backupKey, RJson (marshal_backups (twoBackups\<lparr>bk_Backups := [aBackup]\<rparr>))) # gcBucket))\<lparr>w_fs := aDisk\<rparr>"

lemma gcWorld_hashes:
  "loadAll listHs gcDocs sum0 gcEnv (memBucket gcView) aFetchEnv [aBackup] gcWorld
     = Ret ([MHashes (the (hexDecode ''cd'') # [the (hexDecode (replicate 40 (CHR ''a'')))]), MVisit 2], gcWorld)"
proof -
  have o1: "openLocalBlob gcEnv ''6162'' aDisk = Ret (Inr ''z'')" by code_simp
  have h: "hashSize gcEnv = Some 20" by code_simp
  let ?fm = "aFile\<lparr>fm_OID := replicate 40 (CHR ''a''), fm_Previous := [prev_of (aFile\<lparr>fm_OID := ''cd''\<rparr>)]\<rparr>"
  have j: "entryOids (streamEntry \<lparr>nf_name = ''doc'', nf_meta = ?fm, nf_err = None\<rparr>) = Some (replicate 40 (CHR ''a''), [''cd''])"
    by (simp add: entryOids_streamEntry prev_of_def)
  have d: "(case (hexDecode (replicate 40 (CHR ''a'')), hexDecode ''cd'') of (Some x, Some y) \<Rightarrow> length x = 20 | _ \<Rightarrow> False)"
    by code_simp
  then obtain x y where xy: "hexDecode (replicate 40 (CHR ''a'')) = Some x" "hexDecode ''cd'' = Some y" "length x = 20"
    by (auto split: option.splits)
  have "loadEntries listHs 20 [streamEntry \<lparr>nf_name = ''doc'', nf_meta = ?fm, nf_err = None\<rparr>] None [] 0 = (Inr [y, x], 2)"
    using xy by (simp add: j) (simp add: listHs_def)
  moreover have "hs_empty listHs = []" by (simp add: listHs_def)
  ultimately show ?thesis
    using xy by (simp add: aBackup_def loadBackupHashes_def copyBlob_def gcWorld_def o1 h gcDocs_def)
qed

lemma gcWorld_backups: "getBackups (\<lambda>_. []) (memBucket gcView) (w_db gcWorld) = Ret (Inr (twoBackups\<lparr>bk_Backups := [aBackup]\<rparr>))"
proof -
  have "wf_backups (twoBackups\<lparr>bk_Backups := [aBackup]\<rparr>)" using twoBackups_wf by (simp add: wf_backups_def twoBackups_def)
  from backups_roundtrip [OF this] show ?thesis by (simp add: getBackups_def gcWorld_def aWorld_def memBucket_def)
qed

lemma gcWorld_run:
  "\<exists>er w'. garbageCollectBlobs 3 listHs gcDocs (\<lambda>ms. ms) (\<lambda>_. []) sum0 gcEnv (memBucket gcView) aFetchEnv (\<lambda>n. hour) (\<lambda>n d. d)
     gcWorld = Some (Ret (er, w'))"
proof -
  define v where "v = RJson (marshal_backups (twoBackups\<lparr>bk_Backups := [aBackup]\<rparr>))"
  have db: "w_db gcWorld = (backupKey, v) # gcBucket" "w_q gcWorld = []" by (simp_all add: gcWorld_def aWorld_def v_def)
  let ?S = "[the (hexDecode ''cd''), the (hexDecode (replicate 40 (CHR ''a'')))]"
  have S: "loadExistingHashes listHs gcDocs (\<lambda>ms. ms) (\<lambda>_. []) sum0 gcEnv (memBucket gcView) aFetchEnv gcWorld
      = Some (Ret (Inr ?S, gcWorld))"
    using gcWorld_hashes by (simp add: loadExistingHashes_def gcWorld_backups collect_Cons) (simp add: listHs_def)
  have "(case findNodeMap gcEnv (memBucket gcView) ((backupKey, v) # gcBucket) of
      Inr nm \<Rightarrow> (case gcLoop 3 listHs gcEnv (memBucket gcView) (\<lambda>n. hour) (\<lambda>n d. d) nm ?S 0 (gcStart, (backupKey, v) # gcBucket, []) of
        Some (Ret (None, d, q)) \<Rightarrow> map it_oid q = [''ab''] | _ \<Rightarrow> False) | Inl _ \<Rightarrow> False)"
    by code_simp
  moreover have "cf_GCEnabled (e_conf gcEnv)" by (simp add: gcEnv_def)
  ultimately show ?thesis
    unfolding garbageCollectBlobs_def S by (auto simp: db split: sum.splits option.splits go.splits prod.splits)
qed


text \<open>
  C16: a collection ends. When the view only ever has rows of finitely many blobs and pages are not empty,
  the walk ends after at most one page per blob and one more, whatever other nodes do meanwhile: the
  start key of the pages goes down.
\<close>

theorem gc_terminates:
  assumes "collation_ok lt" and "finite K" and "pages_within cb lt K (cf_GCLimit (e_conf e))" and "1 \<le> cf_GCLimit (e_conf e)"
    and "sched_ok sched" and "card K < fuel"
  shows "\<exists>r. garbageCollectBlobs fuel hs gunzip sched tt sm e cb fe clk oth w = Some r"
proof -
  obtain r where r: "loadExistingHashes hs gunzip sched tt sm e cb fe w = Some r"
    using loadExistingHashes_returns [OF assms(5)] by blast
  have "card {x \<in> K. lt x (gc_startKey gcStart)} \<le> card K" using assms(2) by (intro card_mono) auto
  then have "card {x \<in> K. lt x (gc_startKey gcStart)} < fuel" using assms(6) by simp
  then have "\<exists>r. gcLoop fuel hs e cb clk oth nm S 0 (gcStart, d, q) = Some r" for nm S d q
    by (rule gcLoop_ends [OF assms(1-4)])
  with r show ?thesis
    unfolding garbageCollectBlobs_def by (fastforce split: go.split sum.split)
qed

theorem gc_terminates_witness:
  "\<exists>r. garbageCollectBlobs 6 listHs gcDocs (\<lambda>ms. ms) (\<lambda>_. []) sum0 gcEnv (memBucket gcView) aFetchEnv (\<lambda>n. hour) (\<lambda>n d. d) gcWorld = Some r"
proof -
  let ?K = "{''f1'', ''ef'', ''cd'', ''ab'', ''12''} :: string set"
  have lim: "cf_GCLimit (e_conf gcEnv) = 3" by (simp add: gcEnv_def)
  have p: "pages_within (memBucket gcView) (<) ?K (cf_GCLimit (e_conf gcEnv))"
    unfolding pages_within_def lim
  proof (intro allI impI)
    fix d sk res
    let ?L = "map (\<lambda>k. emittedRow (''/'' @ k) ([k, ''blob'', ''n3''], JNull)) [''f1'', ''ef'', ''cd'', ''ab'', ''12'']"
    assume "cbView (memBucket gcView) ''file_blobs'' (gcParams 3 sk) d = Inr res"
    moreover have "i64 (3 + 1) = 4" by (simp add: i64_def)
    ultimately have "vRows res = pageDown (<) (i64 (3 + 1)) [sk] ?L"
      by (auto simp: memBucket_def gcView_def gcParams_def)
    then show "\<exists>L. vRows res = pageDown (<) (i64 (3 + 1)) [sk] L \<and> (\<forall>r \<in> set L. threeKey r \<and> hd (theKey r) \<in> ?K)"
      by (intro exI [of _ ?L]) (simp add: threeKey_def)
  qed
  have c: "finite ?K" "card ?K < 6" by simp_all
  have one: "1 \<le> cf_GCLimit (e_conf gcEnv)" by (simp add: lim)
  show ?thesis by (rule gc_terminates [OF collation_less c(1) p one sched_ok_id c(2)])
qed

text \<open>
  With a limit of zero a page is never short of it: over a bucket without blobs the walk goes on for ever,
  renewing the lock of the job as it goes.
\<close>

lemma marker_roundtrip: "unmarshal fields_marker (Some (RJson (marshal_marker jm))) = Some jm"
  by (simp add: marshal_marker_def fields_marker_def fld_def toLower_def lowerChar_def)

lemma gc_limit_zero_spins:
  assumes "cf_GCLimit (e_conf e) = 0" and "jm_Node jm = e_serverId e"
  shows "map_of d ''/@garbageCollectBlobs'' = Some (RJson (marshal_marker jm)) \<Longrightarrow>
     gcLoop fuel hs e (memBucket noView) clk (\<lambda>n d. d) nm S n (s, d, q) = None"
  using assms(2)
proof (induction fuel arbitrary: n s d jm)
  case (Suc fuel)
  let ?now = "clk (gc_reads (s\<lparr>gc_lastBlob := []\<rparr>))"
  let ?d = "memSet ''/@garbageCollectBlobs'' (RJson (marshal_marker (jm\<lparr>jm_Started := ?now\<rparr>))) d"
  have v: "cbView (memBucket noView) ''file_blobs'' ps d = Inr \<lparr>vRows = [], vErrors = []\<rparr>" for ps
    by (simp add: memBucket_def noView_def)
  have g: "cbGets (memBucket noView) ''/@garbageCollectBlobs'' d = Inr (RJson (marshal_marker jm), 0)"
    using Suc.prems(1) by (simp add: memBucket_def)
  have "\<exists>r. map_of globalPeriodicJobRecipes ''garbageCollectBlobs'' = Some r" by (simp add: globalPeriodicJobRecipes_def)
  then have "relockTask e (memBucket noView) ?now ''garbageCollectBlobs'' d = Ret (True, ?d)"
    using g Suc.prems(2) by (auto simp: relockTask_def relockAt_def marker_roundtrip) (simp_all add: memBucket_def)
  moreover have "gcLoop fuel hs e (memBucket noView) clk (\<lambda>n d. d) nm S (Suc n) (s', ?d, q) = None" for s'
    using Suc.prems by (intro Suc.IH [of _ "jm\<lparr>jm_Started := ?now\<rparr>"]) (simp_all add: map_of_memSet)
  ultimately show ?case using assms(1) v by (simp add: Let_def)
qed simp

end
