(* ===== verification/Http_Files.thy ===== *)
theory Http_Files
  imports Garbage
begin

text \<open>
  The handlers of \<open>src/http.go\<close> for files and blobs: uploads with their synchronous second copy,
  raw blobs, downloads of any revision, deletions and links.

  A handler takes the request and the state of the node and gives a response and the new state, or a
  panic. What is outside the program during one request is collected in \<open>httpEnv\<close>: the temporary file,
  the clock, the other nodes, the room in the task queue. The goroutines a handler starts (the access
  counters, the extra replicas) run to their end before it returns.
\<close>

section \<open>The surroundings of a request\<close>

text \<open>
  The second node of an upload: the error of building the request, the number of pieces of the body that
  the local reader saw before the pipe between the two was closed, and the outcome of the request, an
  error or a status, its text as an error, the error of draining the body, and the hash header.
\<close>

record altRun =
  al_reqErr :: "gerr option"
  al_got :: nat
  al_res :: "gerr + (int \<times> gerr \<times> gerr option \<times> string)"

record 'db httpEnv =
  hp_sm :: "string \<Rightarrow> string \<Rightarrow> string"
  hp_sha1 :: "string \<Rightarrow> string"
  hp_tmp :: "gerr + string"
  hp_closeErr :: "gerr option"
  hp_clk :: "nat \<Rightarrow> time"
  hp_now :: time
  hp_alt :: altRun
  hp_fe :: "'db fetchEnv"
  hp_room :: "internodeTask list \<Rightarrow> bool"
  hp_seekErr :: "gerr option"
  hp_ft :: "time \<Rightarrow> string"
  hp_mime :: "string \<Rightarrow> string \<Rightarrow> string"
  hp_cond :: "request \<Rightarrow> (string \<times> string list) list \<Rightarrow> time \<Rightarrow> string \<Rightarrow> response"

text \<open>\<open>http.Error\<close> with a formatted message.\<close>

definition httpErrf :: "string \<Rightarrow> gerr \<Rightarrow> int \<Rightarrow> response" where
  "httpErrf msg er code = \<lparr>rs_Status = code, rs_Header = errorType, rs_Body = BCat (BText msg) (BError er)\<rparr>"

text \<open>
  \<open>http.ServeContent\<close>. A request without conditions and ranges gets the whole contents; the answer to any
  other is \<open>hp_cond\<close>.
\<close>

definition conditional :: "request \<Rightarrow> bool" where
  "conditional req \<longleftrightarrow>
     list_ex (\<lambda>k. reqHeader req k \<noteq> [])
       [''Range'', ''If-Range'', ''If-Match'', ''If-None-Match'', ''If-Modified-Since'', ''If-Unmodified-Since'']"

definition serveContent ::
  "'db httpEnv \<Rightarrow> request \<Rightarrow> (string \<times> string list) list \<Rightarrow> string \<Rightarrow> time \<Rightarrow> string \<Rightarrow> response" where
  "serveContent hp req hdr name modtime c =
     (if conditional req then hp_cond hp req hdr modtime c
      else
        (let h1 = (if modtime \<noteq> 0 then hdrSet ''Last-Modified'' (hp_ft hp modtime) hdr else hdr);
             h2 = (if map_of h1 ''Content-Type'' = None then hdrSet ''Content-Type'' (hp_mime hp name c) h1 else h1);
             h3 = hdrSet ''Accept-Ranges'' ''bytes'' h2;
             h4 = (if hdrGet (Some h3) ''Content-Encoding'' = [] then hdrSet ''Content-Length'' (itoa (int (length c))) h3 else h3)
         in \<lparr>rs_Status = 200, rs_Header = h4, rs_Body = BBytes c\<rparr>))"

section \<open>Receiving a body\<close>

text \<open>
  A hash record that takes a body, with its deferred close: the error of creating it, the error of
  processing, or the hash and the length.
\<close>

definition receive ::
  "'db httpEnv \<Rightarrow> env \<Rightarrow> string \<Rightarrow> (string \<times> (gerr \<times> nat) option) list \<Rightarrow> gerr option \<Rightarrow> 'db world
     \<Rightarrow> ((gerr + gerr + string \<times> int) \<times> 'db world) go" where
  "receive hp e hashin ps re w =
     (case NewHashRecord (hp_sm hp) e (hp_tmp hp) hashin (w_fs w) of
        (Inl er, f0) \<Rightarrow> Ret (Inl er, w\<lparr>w_fs := f0\<rparr>)
      | (Inr h0, f0) \<Rightarrow>
          (case hrProcess ps re (hp_closeErr hp) h0 f0 of
             Panic \<Rightarrow> Panic
           | Ret (Inl er, n, h1, f1) \<Rightarrow> Ret (Inr (Inl er), w\<lparr>w_fs := hrClose (Some h1) f1\<rparr>)
           | Ret (Inr h, n, h1, f1) \<Rightarrow> Ret (Inr (Inr (h, n)), w\<lparr>w_fs := hrClose (Some h1) f1\<rparr>)))"

definition hashResponse :: "string \<Rightarrow> response" where
  "hashResponse h = \<lparr>rs_Status = 201, rs_Header = hdrSet ''X-CBFS-Hash'' h [], rs_Body = BEmpty\<rparr>"

definition doPostRawBlob ::
  "'db httpEnv \<Rightarrow> env \<Rightarrow> 'db bucket \<Rightarrow> request \<Rightarrow> 'db world \<Rightarrow> (response \<times> 'db world) go" where
  "doPostRawBlob hp e cb req w =
     (case receive hp e [] (rq_Body req) (rq_BodyErr req) w of
        Panic \<Rightarrow> Panic
      | Ret (Inl er, w1) \<Rightarrow> Ret (httpErr er 500, w1)
      | Ret (Inr (Inl er), w1) \<Rightarrow> Ret (httpErr er 500, w1)
      | Ret (Inr (Inr (sh, len)), w1) \<Rightarrow>
          (case recordBlobOwnership e cb (hp_clk hp) sh len True (w_db w1) of
             (Panic, _) \<Rightarrow> Panic
           | (Ret (Some er), d) \<Rightarrow> Ret (httpErrf ''Error recording blob ownership: '' er 500, w1\<lparr>w_db := d\<rparr>)
           | (Ret None, d) \<Rightarrow> Ret (hashResponse sh, w1\<lparr>w_db := d\<rparr>)))"

text \<open>The blob is recorded under the hash of the path.\<close>

definition blobPrefix :: string where "blobPrefix = ''/.cbfs/blob/''"

definition putRawHash ::
  "'db httpEnv \<Rightarrow> env \<Rightarrow> 'db bucket \<Rightarrow> request \<Rightarrow> 'db world \<Rightarrow> (response \<times> 'db world) go" where
  "putRawHash hp e cb req w =
     (let inputhash = minusPrefix (rq_Path req) blobPrefix in
      if inputhash = [] then Ret (httpError ''No oid specified'' 400, w)
      else if \<not> validHash inputhash then Ret (httpError (''Error invalid hash: '' @ inputhash) 400, w)
      else
        (case receive hp e inputhash (rq_Body req) (rq_BodyErr req) w of
           Panic \<Rightarrow> Panic
         | Ret (Inl er, w1) \<Rightarrow> Ret (httpErr er 500, w1)
         | Ret (Inr (Inl er), w1) \<Rightarrow> Ret (httpErr er 500, w1)
         | Ret (Inr (Inr (sh, len)), w1) \<Rightarrow>
             (case recordBlobOwnership e cb (hp_clk hp) inputhash len True (w_db w1) of
                (Panic, _) \<Rightarrow> Panic
              | (Ret (Some er), d) \<Rightarrow> Ret (httpErrf ''Error recording blob ownership: '' er 500, w1\<lparr>w_db := d\<rparr>)
              | (Ret None, d) \<Rightarrow> Ret (hashResponse sh, w1\<lparr>w_db := d\<rparr>))))"

section \<open>Uploading a file\<close>

record storInfo =
  si_node :: string
  si_hs :: string
  si_err :: "gerr option"

text \<open>
  \<open>altStoreFile\<close>: what the local side reads from then on, and what arrives on the channel before it is
  closed. Through the pipe the local side never sees an error: closing its reading end makes every further
  read an end of file. A status other than 201 sends twice.
\<close>

definition altMessages :: "altRun \<Rightarrow> string \<Rightarrow> storInfo list" where
  "altMessages alt node =
     (case al_reqErr alt of
        Some er \<Rightarrow> [\<lparr>si_node = node, si_hs = [], si_err = Some er\<rparr>]
      | None \<Rightarrow>
          (case al_res alt of
             Inl er \<Rightarrow> [\<lparr>si_node = node, si_hs = [], si_err = Some er\<rparr>]
           | Inr (status, text, copyErr, hs) \<Rightarrow>
               (if status \<noteq> 201 then [\<lparr>si_node = node, si_hs = [], si_err = Some text\<rparr>] else []) @
               [\<lparr>si_node = node, si_hs = (if copyErr = None then hs else []), si_err = None\<rparr>]))"

definition altStoreFile ::
  "altRun \<Rightarrow> env \<Rightarrow> 'db bucket \<Rightarrow> request \<Rightarrow> int \<Rightarrow> 'db
     \<Rightarrow> (string \<times> (gerr \<times> nat) option) list \<times> gerr option \<times> storInfo list" where
  "altStoreFile alt e cb req len d =
     (let direct = (rq_Body req, rq_BodyErr req, []) in
      if len = - 1 then direct
      else (case findRemoteNodes e cb d of
              Inl _ \<Rightarrow> direct
            | Inr nl \<Rightarrow>
                (case withAtLeast len nl of
                   [] \<Rightarrow> direct
                 | n # _ \<Rightarrow>
                     (take (if al_reqErr alt = None then al_got alt else 0) (rq_Body req), None,
                      altMessages alt (Address n)))))"

definition uploadLength :: "request \<Rightarrow> int" where
  "uploadLength req =
     (let l = (if rq_ContentLength req < 1 then 1024 * 1024 else rq_ContentLength req) in
      if parseBool (reqHeader req ''X-CBFS-Unsafe'') = Some True then - 1 else l)"

definition keepRevs :: "env \<Rightarrow> request \<Rightarrow> int" where
  "keepRevs e req =
     (let rheader = reqHeader req ''X-CBFS-KeepRevs'' in
      if rheader \<noteq> [] then (case atoi rheader of Some i \<Rightarrow> i | None \<Rightarrow> cf_DefaultVersionCount (e_conf e))
      else cf_DefaultVersionCount (e_conf e))"

definition uploadMeta :: "'db httpEnv \<Rightarrow> request \<Rightarrow> string \<Rightarrow> int \<Rightarrow> fileMeta" where
  "uploadMeta hp req h len =
     fileMeta_zero\<lparr>fm_Headers := rq_Header req, fm_OID := h, fm_Length := len, fm_Modified := hp_now hp\<rparr>"

definition spread :: "env \<Rightarrow> 'db bucket \<Rightarrow> string \<Rightarrow> int \<Rightarrow> int \<Rightarrow> 'db world \<Rightarrow> 'db world go" where
  "spread e cb h len n w =
     (case increaseReplicaCount e cb h len n (w_db w) (w_q w) of
        Panic \<Rightarrow> Panic
      | Ret (_, q) \<Rightarrow> Ret (w\<lparr>w_q := q\<rparr>))"

text \<open>The end of an upload: the second copy is looked at, the metadata stored, more copies asked for.\<close>

definition storeUpload ::
  "'db httpEnv \<Rightarrow> env \<Rightarrow> 'db bucket \<Rightarrow> request \<Rightarrow> string \<Rightarrow> string \<Rightarrow> int \<Rightarrow> int \<Rightarrow> 'db world \<Rightarrow> (response \<times> 'db world) go" where
  "storeUpload hp e cb req fn h len replicas w =
     (case storeMeta cb (hp_sha1 hp) fn (getExpiration (rq_Header req)) (uploadMeta hp req h len) (keepRevs e req)
             (rq_Header req) (w_db w) of
        (UpdPanic, _) \<Rightarrow> Panic
      | (UpdErr er, d) \<Rightarrow>
          Ret (if er = EUploadPrecondition then httpError ''precondition failed'' 412
               else httpErrf ''Error recording blob ownership: '' er 500, w\<lparr>w_db := d\<rparr>)
      | (UpdOk, d) \<Rightarrow>
          (if cf_MinReplicas (e_conf e) > replicas then
             (case spread e cb h len (i64 (cf_MinReplicas (e_conf e) - replicas)) (w\<lparr>w_db := d\<rparr>) of
                Panic \<Rightarrow> Panic
              | Ret w' \<Rightarrow> Ret (statusOnly 201, w'))
           else Ret (statusOnly 201, w\<lparr>w_db := d\<rparr>)))"

definition secondaryError :: "storInfo \<Rightarrow> response" where
  "secondaryError si =
     \<lparr>rs_Status = 500, rs_Header = errorType,
      rs_Body = BCat (BText ''Error creating sync secondary copy: '')
        (BCat (case si_err si of None \<Rightarrow> BText ''<nil>'' | Some er \<Rightarrow> BError er) (BText (CHR 0x0A # si_hs si)))\<rparr>"

definition finishUpload ::
  "'db httpEnv \<Rightarrow> env \<Rightarrow> 'db bucket \<Rightarrow> request \<Rightarrow> storInfo list \<Rightarrow> string \<Rightarrow> string \<Rightarrow> int \<Rightarrow> 'db world
     \<Rightarrow> (response \<times> 'db world) go" where
  "finishUpload hp e cb req bgch fn h len w =
     (case bgch of
        si # _ \<Rightarrow>
          (if si_err si \<noteq> None \<or> si_hs si \<noteq> h then
             (let r = secondaryError si in
              if cf_MinReplicas (e_conf e) > 1 then
                (case spread e cb h len (i64 (cf_MinReplicas (e_conf e) - 1)) w of
                   Panic \<Rightarrow> Panic
                 | Ret w' \<Rightarrow> Ret (r, w'))
              else Ret (r, w))
           else storeUpload hp e cb req fn h len 2 w)
      | [] \<Rightarrow> storeUpload hp e cb req fn h len 1 w)"

definition putUserFile ::
  "'db httpEnv \<Rightarrow> env \<Rightarrow> 'db bucket \<Rightarrow> request \<Rightarrow> 'db world \<Rightarrow> (response \<times> 'db world) go" where
  "putUserFile hp e cb req w =
     (if containsStr (rq_Path req) ''//''
      then Ret (httpError (''Too many slashes in the path name: '' @ rq_Path req) 400, w)
      else
        (let fn = fst (resolvePath (hp_sha1 hp) req);
             (ps, re, bgch) = altStoreFile (hp_alt hp) e cb req (uploadLength req) (w_db w) in
         case receive hp e (reqHeader req ''X-CBFS-Hash'') ps re w of
           Panic \<Rightarrow> Panic
         | Ret (Inl er, w1) \<Rightarrow> Ret (httpError ''Error writing tmp file'' 500, w1)
         | Ret (Inr (Inl er), w1) \<Rightarrow> Ret (httpErrf ''Error completing blob write: '' er 500, w1)
         | Ret (Inr (Inr (h, len)), w1) \<Rightarrow>
             (case recordBlobOwnership e cb (hp_clk hp) h len True (w_db w1) of
                (Panic, _) \<Rightarrow> Panic
              | (Ret (Some er), d) \<Rightarrow> Ret (httpErrf ''Error recording blob ownership: '' er 500, w1\<lparr>w_db := d\<rparr>)
              | (Ret None, d) \<Rightarrow> finishUpload hp e cb req bgch fn h len (w1\<lparr>w_db := d\<rparr>))))"
section \<open>Reading files and blobs\<close>

definition getFile :: "'db bucket \<Rightarrow> string \<Rightarrow> 'db \<Rightarrow> gerr + fileMeta" where
  "getFile cb k d =
     (case cbGet cb k d of
        Inl er \<Rightarrow> Inl er
      | Inr v \<Rightarrow> (case unmarshal_fileMeta (Some v) of None \<Rightarrow> Inl EJson | Some fm \<Rightarrow> Inr fm))"

definition oldestRev :: "fileMeta \<Rightarrow> int" where
  "oldestRev fm = (case fm_Previous fm of [] \<Rightarrow> fm_Revno fm | p # _ \<Rightarrow> pm_Revno p)"

definition revHeaders :: "int \<Rightarrow> fileMeta \<Rightarrow> (string \<times> string list) list \<Rightarrow> (string \<times> string list) list" where
  "revHeaders revno fm hdr =
     hdrSet ''X-CBFS-OldestRev'' (itoa (oldestRev fm)) (hdrSet ''X-CBFS-Revno'' (itoa revno) hdr)"

definition doHeadUserFile :: "'db httpEnv \<Rightarrow> 'db bucket \<Rightarrow> request \<Rightarrow> 'db \<Rightarrow> response" where
  "doHeadUserFile hp cb req d =
     (case getFile cb (snd (resolvePath (hp_sha1 hp) req)) d of
        Inl er \<Rightarrow> httpErr er 404
      | Inr got \<Rightarrow>
          (if FormValue req ''rev'' \<noteq> [] then httpError ''rev parameter not specified'' 400
           else
             \<lparr>rs_Status = 200,
              rs_Header =
                hdrSet ''Content-Length'' (itoa (fm_Length got))
                  (hdrSet ''Etag'' (quoted (fm_OID got))
                    (hdrSet ''Last-Modified'' (hp_ft hp (fm_Modified got))
                      (revHeaders (fm_Revno got) got (copyHeaders (fm_Headers got) [])))),
              rs_Body = BEmpty\<rparr>))"

text \<open>A blob that is not there is no longer owned by this node.\<close>

definition doHeadRawBlob ::
  "'db httpEnv \<Rightarrow> env \<Rightarrow> 'db bucket \<Rightarrow> string \<Rightarrow> 'db world \<Rightarrow> (response \<times> 'db world) go" where
  "doHeadRawBlob hp e cb oid w =
     (if \<not> validHash oid then Ret (httpError (''Error invalid hash: '' @ oid) 400, w)
      else
        (case openLocalBlob e oid (w_fs w) of
           Panic \<Rightarrow> Panic
         | Ret (Inl er) \<Rightarrow>
             Ret (httpErrf ''Error opening blob: '' er 404,
                  w\<lparr>w_db := snd (removeBlobOwnershipRecord e cb oid (e_serverId e) (w_db w))\<rparr>)
         | Ret (Inr c) \<Rightarrow>
             (case hp_seekErr hp of
                Some er \<Rightarrow> Ret (httpErr er 500, w)
              | None \<Rightarrow>
                  Ret (\<lparr>rs_Status = 200,
                        rs_Header = hdrSet ''Content-Length'' (itoa (int (length c)))
                          (hdrSet ''Content-Type'' ''application/octet-stream'' []),
                        rs_Body = BEmpty\<rparr>, w))))"

definition doServeRawBlob ::
  "'db httpEnv \<Rightarrow> env \<Rightarrow> 'db bucket \<Rightarrow> request \<Rightarrow> string \<Rightarrow> 'db world \<Rightarrow> (response \<times> 'db world) go" where
  "doServeRawBlob hp e cb req oid w =
     (if \<not> validHash oid then Ret (httpError (''Error invalid hash: '' @ oid) 400, w)
      else
        (case openLocalBlob e oid (w_fs w) of
           Panic \<Rightarrow> Panic
         | Ret (Inl er) \<Rightarrow>
             Ret (httpErrf ''Error opening blob: '' er 404,
                  w\<lparr>w_db := snd (removeBlobOwnershipRecord e cb oid (e_serverId e) (w_db w))\<rparr>)
         | Ret (Inr c) \<Rightarrow>
             Ret (serveContent hp req (hdrSet ''Content-Type'' ''application/octet-stream'' []) [] 0 c,
                  w\<lparr>w_db := recordBlobAccess e cb oid (w_db w)\<rparr>)))"

text \<open>
  The revision a request asks for: its number, object, time and headers. The current revision is not
  among the older ones.
\<close>

definition pickRev :: "request \<Rightarrow> fileMeta \<Rightarrow> response + (int \<times> string \<times> time \<times> header)" where
  "pickRev req got =
     (let revnoStr = FormValue req ''rev'' in
      if revnoStr = [] then Inr (fm_Revno got, fm_OID got, fm_Modified got, fm_Headers got)
      else (case atoi revnoStr of
              None \<Rightarrow> Inl (httpError ''Invalid revno'' 400)
            | Some revno \<Rightarrow>
                (case find (\<lambda>p. pm_Revno p = revno) (fm_Previous got) of
                   None \<Rightarrow> Inl (httpError (''Don't have this file with rev '' @ itoa revno) 410)
                 | Some p \<Rightarrow>
                     (if pm_OID p = [] then Inl (httpError (''Don't have this file with rev '' @ itoa revno) 410)
                      else Inr (revno, pm_OID p, pm_Modified p, pm_Headers p)))))"

definition notModified :: "request \<Rightarrow> fileMeta \<Rightarrow> bool" where
  "notModified req got \<longleftrightarrow>
     (let inm = reqHeader req ''If-None-Match'' in length inm > 2 \<and> fm_OID got = take (length inm - 2) (tl inm))"

text \<open>Reading a copy of another node to its end, which may put it into the local store.\<close>

definition readRemote ::
  "'db httpEnv \<Rightarrow> env \<Rightarrow> 'db bucket \<Rightarrow> string \<Rightarrow> string \<Rightarrow> gerr option \<Rightarrow> 'db world \<Rightarrow> 'db world go" where
  "readRemote hp e cb oid body re w =
     (case getBlobOwnership cb oid (w_db w) of
        Inl _ \<Rightarrow> Ret w
      | Inr bo \<Rightarrow>
          (let fe = hp_fe hp in
           if shouldCache e (fe_fsFree fe) (w_spaceUsed w) (fe_rnd fe) (e_cachePercentage e) (bo_Length bo)
           then (case cacheBody (hp_sm hp) e cb (fe_clk fe) (fe_tmp fe) (fe_wfail fe) oid (bo_Length bo) body re w of
                   Panic \<Rightarrow> Panic
                 | Ret (_, w') \<Rightarrow> Ret w')
           else Ret w))"

definition serveFile ::
  "'db httpEnv \<Rightarrow> env \<Rightarrow> 'db bucket \<Rightarrow> request \<Rightarrow> string \<Rightarrow> string \<Rightarrow> time \<Rightarrow> header \<Rightarrow> (string \<times> string list) list \<Rightarrow> 'db world
     \<Rightarrow> (response \<times> 'db world) go" where
  "serveFile hp e cb req path oid modified respHeaders hdr w =
     (let hdr' = hdrSet ''Etag'' (quoted oid) (copyHeaders respHeaders hdr);
          seen = w\<lparr>w_db := recordBlobAccess e cb oid (w_db w)\<rparr> in
      case openBlob e cb (fe_remote (hp_fe hp)) oid (reqHeader req ''X-CBFS-LocalOnly'' \<noteq> []) w of
        Panic \<Rightarrow> Panic
      | Ret (OpenLocal c) \<Rightarrow> Ret (serveContent hp req hdr' path modified c, seen)
      | Ret (OpenRemote c re) \<Rightarrow>
          (case readRemote hp e cb oid c re seen of
             Panic \<Rightarrow> Panic
           | Ret w' \<Rightarrow> Ret (\<lparr>rs_Status = 200, rs_Header = hdr', rs_Body = BBytes c\<rparr>, w'))
      | Ret (OpenNotLocal urls) \<Rightarrow>
          Ret (\<lparr>rs_Status = 300, rs_Header = hdrSet ''Content-Type'' jsonType (hdrSet ''Location'' (hd urls) hdr),
                rs_Body = BJson (JArr (map JStr urls))\<rparr>, w)
      | Ret (OpenErr er) \<Rightarrow>
          Ret (\<lparr>rs_Status = 500, rs_Header = hdrSet ''Content-Type'' ''text/plain; charset=utf-8'' hdr, rs_Body = BError er\<rparr>, w))"

definition doGetUserDoc ::
  "'db httpEnv \<Rightarrow> env \<Rightarrow> 'db bucket \<Rightarrow> request \<Rightarrow> 'db world \<Rightarrow> (response \<times> 'db world) go" where
  "doGetUserDoc hp e cb req w =
     (let (path, k) = resolvePath (hp_sha1 hp) req in
      case getFile cb k (w_db w) of
        Inl er \<Rightarrow> Ret (httpErr er 404, w)
      | Inr got \<Rightarrow>
          (if fm_Type got \<noteq> ''file'' then Ret (httpError (''Item at '' @ path @ '' is not a file.'') 404, w)
           else
             (case pickRev req got of
                Inl r \<Rightarrow> Ret (r, w)
              | Inr (revno, oid, modified, respHeaders) \<Rightarrow>
                  (let hdr = revHeaders revno got
                         (if canGzip req \<and> shouldGzip got then hdrSet ''Content-Encoding'' ''gzip'' [] else []) in
                   if notModified req got then Ret (\<lparr>rs_Status = 304, rs_Header = hdr, rs_Body = BEmpty\<rparr>, w)
                   else serveFile hp e cb req path oid modified respHeaders hdr w))))"

section \<open>Fetching, deleting and linking\<close>

definition doFetchDoc ::
  "'db httpEnv \<Rightarrow> env \<Rightarrow> 'db bucket \<Rightarrow> request \<Rightarrow> string \<Rightarrow> 'db world \<Rightarrow> response \<times> 'db world" where
  "doFetchDoc hp e cb req path w =
     (case getBlobOwnership cb path (w_db w) of
        Inl _ \<Rightarrow> (httpError (''Missing ownership record for OID: '' @ path) 404, w)
      | Inr ownership \<Rightarrow>
          (if availableSpace e (fe_fsFree (hp_fe hp)) (w_spaceUsed w) < bo_Length ownership
           then (httpError ''No free space available'' 500, w)
           else (case maybeQueueBlobFetch (hp_room hp) path (reqHeader req ''X-Prevnode'') (w_q w) of
                   (False, q) \<Rightarrow> (httpError ''Queue is full. Try later.'' 503, w\<lparr>w_q := q\<rparr>)
                 | (True, q) \<Rightarrow>
                     (statusOnly 202,
                      w\<lparr>w_q := q, w_spaceUsed := increaseSpaceUsed (bo_Length ownership) (w_spaceUsed w)\<rparr>))))"

definition doDeleteOID ::
  "'db httpEnv \<Rightarrow> env \<Rightarrow> 'db bucket \<Rightarrow> request \<Rightarrow> 'db world \<Rightarrow> (response \<times> 'db world) go" where
  "doDeleteOID hp e cb req w =
     (let oid = minusPrefix (rq_Path req) blobPrefix in
      if \<not> validHash oid then Ret (httpError (''Error invalid hash: '' @ oid) 400, w)
      else (case removeObject e cb (hp_clk hp) oid w of
              Panic \<Rightarrow> Panic
            | Ret (None, w') \<Rightarrow> Ret (statusOnly 204, w')
            | Ret (Some er, w') \<Rightarrow> Ret (httpErr er 404, w')))"

text \<open>Deleting a file removes its metadata, under the precondition of the request.\<close>

definition delete_cb :: "header \<Rightarrow> unit \<Rightarrow> raw option \<Rightarrow> unit \<times> upd" where
  "delete_cb hdr u inp =
     ((), case unmarshal_fileMeta inp of
            None \<Rightarrow> if shouldStoreMeta hdr False fileMeta_zero then UDelete else UErr EUploadPrecondition
          | Some existing \<Rightarrow> if shouldStoreMeta hdr True existing then UDelete else UErr EUploadPrecondition)"

definition doDeleteUserDoc :: "'db httpEnv \<Rightarrow> 'db bucket \<Rightarrow> request \<Rightarrow> 'db \<Rightarrow> (response \<times> 'db) go" where
  "doDeleteUserDoc hp cb req d =
     (case cbUpdate cb (snd (resolvePath (hp_sha1 hp) req)) 0 (closure (delete_cb (rq_Header req)) ()) d of
        (_, UpdOk, d') \<Rightarrow> Ret (statusOnly 204, d')
      | (_, UpdErr er, d') \<Rightarrow>
          Ret (if er = EUploadPrecondition then httpError ''precondition failed'' 412 else httpErr er 404, d')
      | (_, UpdPanic, _) \<Rightarrow> Panic)"

text \<open>
  Linking a blob to a name. After the error of a missing blob the handler goes on: the response keeps its
  first status, and the metadata is stored nevertheless.
\<close>

definition linkMeta :: "'db httpEnv \<Rightarrow> request \<Rightarrow> string \<Rightarrow> int \<Rightarrow> fileMeta" where
  "linkMeta hp req h len =
     (let ex = getExpiration (rq_Header req); hdr = [(''Content-Type'', [FormValue req ''type''])] in
      fileMeta_zero\<lparr>fm_Headers := Some (if ex \<noteq> 0 then hdrSet ''X-CBFS-Expiration'' (itoa ex) hdr else hdr),
        fm_OID := h, fm_Length := len, fm_Modified := hp_now hp\<rparr>)"

definition doLinkFile :: "'db httpEnv \<Rightarrow> 'db bucket \<Rightarrow> request \<Rightarrow> 'db \<Rightarrow> response \<times> 'db" where
  "doLinkFile hp cb req d =
     (let fn = trimSlashes (rq_Path req); h = FormValue req ''blob'';
          ((blob, rerr), d1) = referenceBlob cb (hp_now hp) h d;
          (serr, d2) = maybeStoreMeta cb fn (linkMeta hp req h (bo_Length blob)) (getExpiration (rq_Header req)) True d1
      in (case (rerr, serr) of
            (None, None) \<Rightarrow> statusOnly 201
          | (None, Some er) \<Rightarrow> httpErr er 500
          | (Some er, None) \<Rightarrow> httpErr er (if er = ENotFound then 404 else 500)
          | (Some er, Some er') \<Rightarrow>
              (let r = httpErr er (if er = ENotFound then 404 else 500) in r\<lparr>rs_Body := BCat (rs_Body r) (BError er')\<rparr>),
          d2))"
section \<open>Lemmas\<close>

subsection \<open>Received bodies\<close>

lemma receive_world:
  "receive hp e hashin ps re w = Ret (x, w') \<Longrightarrow> w_db w' = w_db w \<and> w_q w' = w_q w"
  by (auto simp: receive_def split: prod.splits sum.splits go.splits)

lemma receive_stored:
  assumes "receive hp e hashin ps re w = Ret (Inr (Inr (h, n)), w')" and "tmp_ok e (hp_tmp hp)"
    and "getHash (hp_sm hp) e = Some s" and "data = concat (map fst ps)" and "1 \<le> length (s data)"
  shows "h = hexEncode (s data) \<and> (hashin = [] \<or> hashin = h) \<and>
     objects (e_root e) (w_fs w') = (objects (e_root e) (w_fs w))(h \<mapsto> data) \<and>
     (int (length data) < 2 ^ 63 \<longrightarrow> n = int (length data))"
proof -
  obtain h0 f0 h1 f1 where n: "NewHashRecord (hp_sm hp) e (hp_tmp hp) hashin (w_fs w) = (Inr h0, f0)"
    and p: "hrProcess ps re (hp_closeErr hp) h0 f0 = Ret (Inr h, n, h1, f1)" and w': "w' = w\<lparr>w_fs := hrClose (Some h1) f1\<rparr>"
    using assms(1) by (auto simp: receive_def split: prod.splits sum.splits go.splits)
  obtain x where t: "hp_tmp hp = Inr (e_root e @ ''/tmp'' @ x)"
    using n assms(2) by (cases "hp_tmp hp") (auto simp: NewHashRecord_def tmp_ok_def)
  note ok = NewHashRecord_ok [OF n [unfolded t] assms(3) refl]
  note st = hrProcess_stored [OF conjunct1 [OF ok] _ p assms(4,5)]
  have "hrClose (Some h1) f1 = f1" using st ok by (simp add: hrClose_def)
  with st ok w' show ?thesis by auto
qed

text \<open>A body that could not be stored leaves the objects alone, or takes away the one it was to replace.\<close>

lemma hrCopy_objects:
  assumes "hr_ok s root h f" and "hrCopy ps re n h f = Ret (er, n', h', f')"
  shows "objects root f' = objects root f \<and> hr_tmpf h' = hr_tmpf h"
proof -
  obtain x where x: "hr_tmpf h = Some (root @ ''/tmp'' @ x)" and s: "hr_sum h = Some s" using assms(1) by (auto simp: hr_ok_def)
  have "fs_same_but {root @ ''/tmp'' @ x} f f' \<and> hr_tmpf h' = hr_tmpf h"
    using assms(2) x s
  proof (induction ps re n h f rule: hrCopy.induct)
    case (2 p fail ps er n h f)
    obtain r h1 f1 where w: "hrWrite fail p h f = Ret (r, h1, f1)"
      using "2.prems"(1) by (cases "hrWrite fail p h f") auto
    have k: "fs_same_but {root @ ''/tmp'' @ x} f f1 \<and> hr_tmpf h1 = hr_tmpf h \<and> hr_sum h1 = hr_sum h"
      using w "2.prems"(2,3) by (auto simp: hrWrite_def fs_same_but_def appendFile_def Let_def split: option.splits prod.splits)
    show ?case
    proof (cases r)
      case None
      have "fs_same_but {root @ ''/tmp'' @ x} f1 f' \<and> hr_tmpf h' = hr_tmpf h1"
        using "2.IH" [OF w _ None] "2.prems" w k None by auto
      with k show ?thesis by (auto simp: fs_same_but_def)
    next
      case (Some we)
      with "2.prems"(1) w k show ?thesis by auto
    qed
  qed (auto simp: fs_same_but_def)
  with objects_same_but_tmp show ?thesis by blast
qed
lemma hrFinish_tmpf: "hrFinish ce h f = Ret (r, h', f') \<Longrightarrow> hr_tmpf h' = hr_tmpf h \<or> hr_tmpf h' = None"
  by (auto simp: hrFinish_def Let_def split: option.splits go.splits prod.splits if_splits)

lemma hrClose_objects:
  assumes "hr_tmpf h = Some (root @ ''/tmp'' @ x) \<or> hr_tmpf h = None"
  shows "objects root (hrClose (Some h) f) = objects root f"
proof -
  have "fs_same_but {root @ ''/tmp'' @ x} f (hrClose (Some h) f)"
    using assms by (auto simp: hrClose_def fs_same_but_def osRemove_files)
  then show ?thesis by (rule objects_same_but_tmp)
qed

lemma hrProcess_keeps_store:
  assumes "hr_ok s root h f" and "hr_fed h = []" and "hrProcess ps re ce h f = Ret (r, n, h', f')" and "\<And>x. 1 \<le> length (s x)"
    and "store_ok s root f"
  shows "store_ok s root (hrClose (Some h') f')"
proof -
  obtain x where tmp: "hr_tmpf h = Some (root @ ''/tmp'' @ x)" using assms(1) by (auto simp: hr_ok_def)
  obtain er h1 f1 where c: "hrCopy ps re 0 h f = Ret (er, n, h1, f1)" and
    fin: "(\<exists>y. er = Some y \<and> h' = h1 \<and> f' = f1) \<or> (er = None \<and> hrFinish ce h1 f1 = Ret (r, h', f'))"
    using assms(3) by (auto simp: hrProcess_def split: go.splits prod.splits option.splits)
  note o1 = hrCopy_objects [OF assms(1) c]
  have t': "hr_tmpf h' = Some (root @ ''/tmp'' @ x) \<or> hr_tmpf h' = None"
    using fin o1 tmp hrFinish_tmpf [of ce h1 f1 r h' f'] by auto
  have "\<forall>k c. objects root f' k = Some c \<longrightarrow> hexEncode (s c) = k"
    using fin
  proof
    assume "\<exists>y. er = Some y \<and> h' = h1 \<and> f' = f1"
    with o1 assms(5) show ?thesis by (simp add: store_ok_objects)
  next
    assume f: "er = None \<and> hrFinish ce h1 f1 = Ret (r, h', f')"
    note k = hrCopy_ok [OF assms(1) c [unfolded conjunct1 [OF f]] tmp]
    have d: "1 \<le> length (s (hr_fed h1))" by (rule assms(4))
    show ?thesis
    proof (cases r)
      case (Inl y)
      from hrFinish_failed [OF conjunct1 [OF k] d conjunct2 [OF f, unfolded Inl]] o1 assms(5) show ?thesis
        by (auto simp: store_ok_objects split: if_splits)
    next
      case (Inr y)
      from hrProcess_stored [OF assms(1,2,3) [unfolded Inr] refl assms(4)] assms(5) show ?thesis
        by (auto simp: store_ok_objects)
    qed
  qed
  then show ?thesis using hrClose_objects [OF t', of f'] by (simp add: store_ok_objects)
qed

lemma receive_keeps_store:
  assumes "receive hp e hashin ps re w = Ret (x, w')" and "tmp_ok e (hp_tmp hp)" and "getHash (hp_sm hp) e = Some s"
    and "\<And>x. 1 \<le> length (s x)" and "store_ok s (e_root e) (w_fs w)"
  shows "store_ok s (e_root e) (w_fs w')"
proof (cases "hp_tmp hp")
  case (Inl er)
  with assms(1,5) show ?thesis by (simp add: receive_def NewHashRecord_def)
next
  case (Inr name)
  then obtain y where t: "name = e_root e @ ''/tmp'' @ y" using assms(2) by (auto simp: tmp_ok_def)
  obtain h0 f0 where n: "NewHashRecord (hp_sm hp) e (Inr name) hashin (w_fs w) = (Inr h0, f0)"
    by (simp add: NewHashRecord_def)
  note ok = NewHashRecord_ok [OF n assms(3) t]
  then have f0: "store_ok s (e_root e) f0" using assms(5) by (simp add: store_ok_objects)
  from assms(1) n Inr obtain r k h1 f1 where p: "hrProcess ps re (hp_closeErr hp) h0 f0 = Ret (r, k, h1, f1)"
    and w': "w' = w\<lparr>w_fs := hrClose (Some h1) f1\<rparr>"
    by (auto simp: receive_def split: go.splits prod.splits sum.splits)
  from hrProcess_keeps_store [OF _ _ p assms(4) f0] ok w' show ?thesis by simp
qed
subsection \<open>Keys of files\<close>

lemma file_key_not_blob:
  assumes "validHash h"
  shows "snd (resolvePath sha1 req) \<noteq> ''/'' @ h"
proof -
  let ?p = "fst (resolvePath sha1 req)"
  have k: "snd (resolvePath sha1 req) = shortName sha1 ?p" by (simp add: resolvePath_def Let_def)
  have "hd ?p \<noteq> CHR ''/''" "?p \<noteq> []" by (simp_all add: resolvePath_hd resolvePath_nonempty)
  moreover have "\<not> isHashChar CHR ''+''" by (simp add: isHashChar_def)
  ultimately show ?thesis
    using assms unfolding k by (cases h) (auto simp: shortName_def validHash_def split: if_splits)
qed

subsection \<open>Uploads\<close>

lemma spread_world: "spread e cb h len n w = Ret w' \<Longrightarrow> w_db w' = w_db w \<and> w_fs w' = w_fs w"
  by (auto simp: spread_def split: go.splits prod.splits)

lemma storeUpload_fs: "storeUpload hp e cb req fn h len n w = Ret (r, w') \<Longrightarrow> w_fs w' = w_fs w"
  by (auto simp: storeUpload_def dest: spread_world split: prod.splits updRes.splits go.splits if_splits)

lemma storeUpload_created:
  assumes "storeUpload hp e cb req fn h len n w = Ret (r, w')" and "rs_Status r = 201"
  obtains d where "storeMeta cb (hp_sha1 hp) fn (getExpiration (rq_Header req)) (uploadMeta hp req h len) (keepRevs e req)
      (rq_Header req) (w_db w) = (UpdOk, d)" "w_db w' = d"
proof (cases "storeMeta cb (hp_sha1 hp) fn (getExpiration (rq_Header req)) (uploadMeta hp req h len) (keepRevs e req)
      (rq_Header req) (w_db w)")
  case (Pair x d)
  show ?thesis
  proof (cases x)
    case UpdOk
    then have "w_db w' = d"
      using assms(1) Pair by (auto simp: storeUpload_def dest: spread_world split: go.splits if_splits)
    with Pair UpdOk that show ?thesis by simp
  next
    case (UpdErr er)
    with assms Pair show ?thesis by (auto simp: storeUpload_def httpError_def httpErrf_def split: if_splits)
  next
    case UpdPanic
    with assms Pair show ?thesis by (simp add: storeUpload_def)
  qed
qed

lemma finishUpload_fs: "finishUpload hp e cb req ms fn h len w = Ret (r, w') \<Longrightarrow> w_fs w' = w_fs w"
  by (auto simp: finishUpload_def Let_def dest: spread_world storeUpload_fs split: list.splits go.splits if_splits)

lemma finishUpload_created:
  assumes "finishUpload hp e cb req ms fn h len w = Ret (r, w')" and "rs_Status r = 201"
  shows "(\<exists>n. storeUpload hp e cb req fn h len n w = Ret (r, w')) \<and> (\<forall>si ms'. ms = si # ms' \<longrightarrow> si_err si = None \<and> si_hs si = h)"
  using assms by (auto simp: finishUpload_def Let_def secondaryError_def split: list.splits go.splits if_splits)

text \<open>What an upload that was answered with 201 went through.\<close>

lemma putUserFile_created:
  assumes "putUserFile hp e cb req w = Ret (r, w')" and "rs_Status r = 201"
    and "altStoreFile (hp_alt hp) e cb req (uploadLength req) (w_db w) = (ps, re, ms)"
  obtains h len w1 d1 d2 where
    "receive hp e (reqHeader req ''X-CBFS-Hash'') ps re w = Ret (Inr (Inr (h, len)), w1)"
    "recordBlobOwnership e cb (hp_clk hp) h len True (w_db w) = (Ret None, d1)"
    "storeMeta cb (hp_sha1 hp) (fst (resolvePath (hp_sha1 hp) req)) (getExpiration (rq_Header req)) (uploadMeta hp req h len)
       (keepRevs e req) (rq_Header req) d1 = (UpdOk, d2)"
    "w_db w' = d2" "w_fs w' = w_fs w1" "\<And>si ms'. ms = si # ms' \<Longrightarrow> si_err si = None \<and> si_hs si = h"
proof -
  have np: "\<not> containsStr (rq_Path req) ''//''" using assms(1,2) by (auto simp: putUserFile_def httpError_def split: if_splits)
  obtain x w1 where rc: "receive hp e (reqHeader req ''X-CBFS-Hash'') ps re w = Ret (x, w1)"
    using assms(1,3) np by (cases "receive hp e (reqHeader req ''X-CBFS-Hash'') ps re w") (auto simp: putUserFile_def)
  obtain h len where x: "x = Inr (Inr (h, len))"
    using assms np rc by (auto simp: putUserFile_def httpError_def httpErrf_def split: sum.splits)
  have db: "w_db w1 = w_db w" using receive_world [OF rc] by simp
  obtain y d1 where o1: "recordBlobOwnership e cb (hp_clk hp) h len True (w_db w) = (y, d1)" by fastforce
  have y: "y = Ret None" and fin: "finishUpload hp e cb req ms (fst (resolvePath (hp_sha1 hp) req)) h len (w1\<lparr>w_db := d1\<rparr>) = Ret (r, w')"
    using assms np rc x o1 db by (auto simp: putUserFile_def httpErrf_def split: go.splits option.splits)
  note f = finishUpload_created [OF fin assms(2)]
  then obtain n where su: "storeUpload hp e cb req (fst (resolvePath (hp_sha1 hp) req)) h len n (w1\<lparr>w_db := d1\<rparr>) = Ret (r, w')" by blast
  obtain d2 where "storeMeta cb (hp_sha1 hp) (fst (resolvePath (hp_sha1 hp) req)) (getExpiration (rq_Header req)) (uploadMeta hp req h len)
       (keepRevs e req) (rq_Header req) d1 = (UpdOk, d2)" "w_db w' = d2"
    using storeUpload_created [OF su assms(2)] by auto
  moreover have "w_fs w' = w_fs w1" using finishUpload_fs [OF fin] by simp
  ultimately show ?thesis using that rc x o1 y f by blast
qed
lemma hexEncode_hash: "1 \<le> length x \<Longrightarrow> validHash (hexEncode x)"
  using hexEncode_valid [of x] by (cases x) (auto simp: validHash_def)

lemma upload_facts:
  assumes "bucket_ok cb st" and "sha1_ok (hp_sha1 hp)" and "tmp_ok e (hp_tmp hp)" and "getHash (hp_sm hp) e = Some s"
    and "mwf (rq_Header req)" and "altStoreFile (hp_alt hp) e cb req (uploadLength req) (w_db w) = (ps, re, ms)"
    and "data = concat (map fst ps)" and "h = hexEncode (s data)" and "1 \<le> length (s data)" and "int (length data) < 2 ^ 63"
    and "putUserFile hp e cb req w = Ret (r, w')" and "rs_Status r = 201"
  shows "objects (e_root e) (w_fs w') = (objects (e_root e) (w_fs w))(h \<mapsto> data)"
    and "\<exists>b. unmarshal_blob (st (w_db w') (''/'' @ h)) = Some b \<and> e_serverId e \<in> mkeys (bo_Nodes b) \<and>
       bo_OID b = h \<and> bo_Length b = int (length data) \<and> \<not> bo_Garbage b"
    and "\<exists>fm. unmarshal_fileMeta (st (w_db w') (snd (resolvePath (hp_sha1 hp) req))) = Some fm \<and>
       fm_OID fm = h \<and> fm_Length fm = int (length data) \<and> fm_Headers fm = rq_Header req \<and>
       fm_Modified fm = hp_now hp \<and> fm_Type fm = ''file''"
    and "\<And>k. k \<notin> {''/'' @ h, snd (resolvePath (hp_sha1 hp) req)} \<Longrightarrow> st (w_db w') k = st (w_db w) k"
    and "reqHeader req ''X-CBFS-Hash'' = [] \<or> reqHeader req ''X-CBFS-Hash'' = h"
    and "\<And>si ms'. ms = si # ms' \<Longrightarrow> si_err si = None \<and> si_hs si = h"
proof -
  let ?p = "fst (resolvePath (hp_sha1 hp) req)"
  have k: "shortName (hp_sha1 hp) ?p = snd (resolvePath (hp_sha1 hp) req)" by (simp add: resolvePath_def Let_def)
  obtain h' len w1 d1 where
    rc: "receive hp e (reqHeader req ''X-CBFS-Hash'') ps re w = Ret (Inr (Inr (h', len)), w1)" and
    ow: "recordBlobOwnership e cb (hp_clk hp) h' len True (w_db w) = (Ret None, d1)" and
    sm: "storeMeta cb (hp_sha1 hp) ?p (getExpiration (rq_Header req)) (uploadMeta hp req h' len)
       (keepRevs e req) (rq_Header req) d1 = (UpdOk, w_db w')" and
    fs: "w_fs w' = w_fs w1" and si: "\<And>si ms'. ms = si # ms' \<Longrightarrow> si_err si = None \<and> si_hs si = h'"
    by (rule putUserFile_created [OF assms(11,12,6)]) blast
  note st = receive_stored [OF rc assms(3,4,7,9)]
  have h: "h' = h" and len: "len = int (length data)" using st assms(8,10) by simp_all
  have r: "i64_range len" using len assms(10) by (simp add: i64_range_def)
  then have wf: "wf_fileMeta (uploadMeta hp req h' len)"
    using assms(5) by (simp add: wf_fileMeta_def uploadMeta_def fileMeta_zero_def i64_range_def)
  have ne: "snd (resolvePath (hp_sha1 hp) req) \<noteq> ''/'' @ h"
    by (rule file_key_not_blob) (simp add: assms(8) hexEncode_hash [OF assms(9)])
  note o = recordBlob_recorded [OF assms(1) r ow] and m = storeMeta_stored [OF assms(1,2) wf sm, unfolded k]
  show "objects (e_root e) (w_fs w') = (objects (e_root e) (w_fs w))(h \<mapsto> data)" using st fs h by simp
  show "\<exists>b. unmarshal_blob (st (w_db w') (''/'' @ h)) = Some b \<and> e_serverId e \<in> mkeys (bo_Nodes b) \<and>
       bo_OID b = h \<and> bo_Length b = int (length data) \<and> \<not> bo_Garbage b"
    using o m ne h len by auto
  show "\<exists>fm. unmarshal_fileMeta (st (w_db w') (snd (resolvePath (hp_sha1 hp) req))) = Some fm \<and>
       fm_OID fm = h \<and> fm_Length fm = int (length data) \<and> fm_Headers fm = rq_Header req \<and>
       fm_Modified fm = hp_now hp \<and> fm_Type fm = ''file''"
    using m h len by (auto simp: uploadMeta_def)
  show "st (w_db w') k = st (w_db w) k" if "k \<notin> {''/'' @ h, snd (resolvePath (hp_sha1 hp) req)}" for k
    using o m h that by simp
  show "reqHeader req ''X-CBFS-Hash'' = [] \<or> reqHeader req ''X-CBFS-Hash'' = h" using st h by auto
  show "si_err si = None \<and> si_hs si = h" if "ms = si # ms'" for si ms' using si [OF that] h by simp
qed

lemma serveContent_plain:
  assumes "\<not> conditional req"
  shows "rs_Status (serveContent hp req hdr name t c) = 200 \<and> rs_Body (serveContent hp req hdr name t c) = BBytes c"
  using assms by (simp add: serveContent_def Let_def)

lemma openLocalBlob_object:
  "objects (e_root e) f h = Some c \<Longrightarrow> openLocalBlob e h f = Ret (Inr c)"
  by (auto simp: objects_def openLocalBlob_def hashFilename_valid osOpen_def split: if_splits)

text \<open>A plain request for a file whose object is here is answered with the whole object.\<close>

lemma doGetUserDoc_local:
  assumes "getFile cb (snd (resolvePath (hp_sha1 hp) req)) (w_db w) = Inr fm" and "fm_Type fm = ''file''"
    and "pickRev req fm = Inr (revno, oid, t, hs)" and "objects (e_root e) (w_fs w) oid = Some c" and "\<not> conditional req"
  shows "\<exists>rs w'. doGetUserDoc hp e cb req w = Ret (rs, w') \<and> rs_Status rs = 200 \<and> rs_Body rs = BBytes c"
proof -
  have "\<not> notModified req fm" using assms(5) by (auto simp: conditional_def notModified_def)
  then show ?thesis
    using assms(1-3) openLocalBlob_object [OF assms(4)] serveContent_plain [OF assms(5)]
    by (auto simp: doGetUserDoc_def serveFile_def openBlob_def split: prod.splits)
qed
section \<open>Properties\<close>

text \<open>
  A node with nothing stored, asked by a client that wants no second copy.
\<close>

definition aHttp :: "memdb httpEnv" where
  "aHttp = \<lparr>hp_sm = sum0, hp_sha1 = sha1_0, hp_tmp = Inr ''/data/tmp1'', hp_closeErr = None, hp_clk = (\<lambda>n. 77),
     hp_now = 78, hp_alt = \<lparr>al_reqErr = None, al_got = 0, al_res = Inl EJson\<rparr>, hp_fe = aFetchEnv, hp_room = (\<lambda>q. True),
     hp_seekErr = None, hp_ft = (\<lambda>t. ''a date''), hp_mime = (\<lambda>n c. ''text/plain''),
     hp_cond = (\<lambda>r h t c. statusOnly 206)\<rparr>"

definition aPut :: request where
  "aPut = \<lparr>rq_Method = ''PUT'', rq_Path = ''/a/b'', rq_Header = Some [(''X-Cbfs-Unsafe'', [''true''])], rq_Form = [],
     rq_Body = [(''hel'', None), (''lo'', None)], rq_BodyErr = None, rq_ContentLength = 5\<rparr>"

definition aGet :: request where
  "aGet = aPut\<lparr>rq_Method := ''GET'', rq_Header := None, rq_Body := []\<rparr>"

lemma aPut_created:
  "(case putUserFile aHttp anEnv (memBucket noView) aPut (aWorld []) of Ret (r, w) \<Rightarrow> rs_Status r = 201 | Panic \<Rightarrow> False)"
  by code_simp

lemma anEnv_hash: "getHash sum0 anEnv = Some (sum0 ''sha1'')"
  by (simp add: getHash_def hashBuilders_def anEnv_def DefaultConfig_def)

text \<open>
  C1: an upload that is answered with 201 is there: the node's store has exactly one object more or anew,
  the bytes received, under their hash; the ownership record of the hash lists this node, with the length
  and unmarked; the metadata under the key of the path has the hash, the length, the headers of the
  request and the time; no other document of the bucket has changed. A hash the client sent along was
  this one, and a second node that took part reported this one.
\<close>

theorem upload_stored:
  assumes "bucket_ok cb st" and "sha1_ok (hp_sha1 hp)" and "tmp_ok e (hp_tmp hp)" and "getHash (hp_sm hp) e = Some s"
    and "mwf (rq_Header req)" and "altStoreFile (hp_alt hp) e cb req (uploadLength req) (w_db w) = (ps, re, ms)"
    and "data = concat (map fst ps)" and "h = hexEncode (s data)" and "1 \<le> length (s data)" and "int (length data) < 2 ^ 63"
    and "putUserFile hp e cb req w = Ret (r, w')" and "rs_Status r = 201"
  shows "objects (e_root e) (w_fs w') = (objects (e_root e) (w_fs w))(h \<mapsto> data) \<and>
     (\<exists>b. unmarshal_blob (st (w_db w') (''/'' @ h)) = Some b \<and> e_serverId e \<in> mkeys (bo_Nodes b) \<and>
        bo_OID b = h \<and> bo_Length b = int (length data) \<and> \<not> bo_Garbage b) \<and>
     (\<exists>fm. unmarshal_fileMeta (st (w_db w') (snd (resolvePath (hp_sha1 hp) req))) = Some fm \<and>
        fm_OID fm = h \<and> fm_Length fm = int (length data) \<and> fm_Headers fm = rq_Header req \<and>
        fm_Modified fm = hp_now hp \<and> fm_Type fm = ''file'') \<and>
     (\<forall>k. k \<notin> {''/'' @ h, snd (resolvePath (hp_sha1 hp) req)} \<longrightarrow> st (w_db w') k = st (w_db w) k) \<and>
     (reqHeader req ''X-CBFS-Hash'' = [] \<or> reqHeader req ''X-CBFS-Hash'' = h) \<and>
     (\<forall>si ms'. ms = si # ms' \<longrightarrow> si_err si = None \<and> si_hs si = h)"
  using upload_facts [OF assms] by (intro conjI allI impI) (assumption | blast)+

lemma aPut_hyps:
  "sha1_ok (hp_sha1 aHttp)" "tmp_ok anEnv (hp_tmp aHttp)" "getHash (hp_sm aHttp) anEnv = Some (sum0 ''sha1'')"
  "mwf (rq_Header aPut)"
  "altStoreFile (hp_alt aHttp) anEnv (memBucket noView) aPut (uploadLength aPut) (w_db (aWorld [])) = (rq_Body aPut, None, [])"
  "''hello'' = concat (map fst (rq_Body aPut))" "''6162'' = hexEncode (sum0 ''sha1'' ''hello'')"
  "1 \<le> length (sum0 ''sha1'' ''hello'')" "int (length ''hello'') < 2 ^ 63"
proof -
  show "getHash (hp_sm aHttp) anEnv = Some (sum0 ''sha1'')" using anEnv_hash by (simp add: aHttp_def)
  show "altStoreFile (hp_alt aHttp) anEnv (memBucket noView) aPut (uploadLength aPut) (w_db (aWorld [])) = (rq_Body aPut, None, [])"
    by code_simp
  show "''6162'' = hexEncode (sum0 ''sha1'' ''hello'')" by code_simp
qed (simp_all add: aHttp_def sha1_0_ok tmp_ok_def anEnv_def aPut_def sum0_def mwf_def)

theorem upload_stored_witness:
  "\<exists>r w'. putUserFile aHttp anEnv (memBucket noView) aPut (aWorld []) = Ret (r, w') \<and> rs_Status r = 201 \<and>
     objects ''/data'' (w_fs w') ''6162'' = Some ''hello''"
proof -
  obtain r w' where r: "putUserFile aHttp anEnv (memBucket noView) aPut (aWorld []) = Ret (r, w')" "rs_Status r = 201"
    using aPut_created by (auto split: go.splits)
  from upload_stored [where st = map_of, OF memBucket_ok aPut_hyps r]
  have "objects (e_root anEnv) (w_fs w') ''6162'' = Some ''hello''" by simp
  with r show ?thesis by (auto simp: anEnv_def)
qed

lemma upload_then_get:
  assumes "bucket_ok cb st" and "sha1_ok (hp_sha1 hp)" and "tmp_ok e (hp_tmp hp)" and "getHash (hp_sm hp) e = Some s"
    and "mwf (rq_Header req)" and "altStoreFile (hp_alt hp) e cb req (uploadLength req) (w_db w) = (ps, re, ms)"
    and "data = concat (map fst ps)" and "1 \<le> length (s data)" and "int (length data) < 2 ^ 63"
    and "putUserFile hp e cb req w = Ret (r, w')" and "rs_Status r = 201"
    and "rq_Path get = rq_Path req" and "FormValue get ''rev'' = []" and "\<not> conditional get"
    and "cbGet cb (snd (resolvePath (hp_sha1 hp) get)) (w_db w') = Inr v"
  shows "\<exists>rs w''. doGetUserDoc hp e cb get w' = Ret (rs, w'') \<and> rs_Status rs = 200 \<and> rs_Body rs = BBytes data"
proof -
  note u = upload_facts [OF assms(1-7) refl assms(8-11)]
  have p: "resolvePath (hp_sha1 hp) get = resolvePath (hp_sha1 hp) req" using assms(12) by (simp add: resolvePath_def)
  have v: "st (w_db w') (snd (resolvePath (hp_sha1 hp) req)) = Some v"
    using bucket_okD(1) [OF assms(1)] assms(15) p by (simp add: get_ok_def)
  from u(3) obtain fm where fm: "unmarshal_fileMeta (Some v) = Some fm" "fm_OID fm = hexEncode (s data)" "fm_Type fm = ''file''"
    using v by auto
  show ?thesis
  proof (rule doGetUserDoc_local)
    show "getFile cb (snd (resolvePath (hp_sha1 hp) get)) (w_db w') = Inr fm" using assms(15) fm by (simp add: getFile_def)
    show "pickRev get fm = Inr (fm_Revno fm, hexEncode (s data), fm_Modified fm, fm_Headers fm)"
      using assms(13) fm by (simp add: pickRev_def)
    show "objects (e_root e) (w_fs w') (hexEncode (s data)) = Some data" using u(1) by simp
  qed (fact fm(3) assms(14))+
qed

text \<open>
  C2: what was uploaded is what is downloaded. After an upload that was answered with 201, the next plain
  request for the same path to this node, one without a revision, a range or a condition, whose read of
  the metadata succeeds, is answered with 200 and the bytes received, whatever headers it carries
  otherwise.
\<close>

theorem upload_download:
  assumes "bucket_ok cb st" and "sha1_ok (hp_sha1 hp)" and "tmp_ok e (hp_tmp hp)" and "getHash (hp_sm hp) e = Some s"
    and "mwf (rq_Header req)" and "altStoreFile (hp_alt hp) e cb req (uploadLength req) (w_db w) = (ps, re, ms)"
    and "data = concat (map fst ps)" and "1 \<le> length (s data)" and "int (length data) < 2 ^ 63"
    and "putUserFile hp e cb req w = Ret (r, w')" and "rs_Status r = 201"
    and "rq_Path get = rq_Path req" and "FormValue get ''rev'' = []" and "\<not> conditional get"
    and "cbGet cb (snd (resolvePath (hp_sha1 hp) get)) (w_db w') = Inr v"
  shows "\<exists>rs w''. doGetUserDoc hp e cb get w' = Ret (rs, w'') \<and> rs_Status rs = 200 \<and> rs_Body rs = BBytes data"
  by (rule upload_then_get [OF assms])

theorem upload_download_witness:
  "\<exists>r w' rs w''. putUserFile aHttp anEnv (memBucket noView) aPut (aWorld []) = Ret (r, w') \<and>
     doGetUserDoc aHttp anEnv (memBucket noView) aGet w' = Ret (rs, w'') \<and> rs_Body rs = BBytes ''hello''"
proof -
  obtain r w' where r: "putUserFile aHttp anEnv (memBucket noView) aPut (aWorld []) = Ret (r, w')" "rs_Status r = 201"
    using aPut_created by (auto split: go.splits)
  have "case putUserFile aHttp anEnv (memBucket noView) aPut (aWorld []) of
      Ret (r, w) \<Rightarrow> map_of (w_db w) (snd (resolvePath sha1_0 aGet)) \<noteq> None | Panic \<Rightarrow> False" by code_simp
  then obtain v where v: "cbGet (memBucket noView) (snd (resolvePath (hp_sha1 aHttp) aGet)) (w_db w') = Inr v"
    using r by (auto simp: memBucket_def aHttp_def)
  have g: "rq_Path aGet = rq_Path aPut" "FormValue aGet ''rev'' = []" "\<not> conditional aGet" by code_simp+
  from upload_download [where st = map_of, OF memBucket_ok aPut_hyps(1-6,8,9) r g v] r show ?thesis by blast
qed
section \<open>Deletions\<close>

text \<open>The precondition of a request on the contents of a file document.\<close>

definition precondition :: "header \<Rightarrow> raw option \<Rightarrow> bool" where
  "precondition hdr x \<longleftrightarrow>
     (case unmarshal_fileMeta x of
        None \<Rightarrow> shouldStoreMeta hdr False fileMeta_zero
      | Some fm \<Rightarrow> shouldStoreMeta hdr True fm)"

lemma delete_cb_precondition:
  "snd (delete_cb hdr u x) = (if precondition hdr x then UDelete else UErr EUploadPrecondition)"
  by (simp add: delete_cb_def precondition_def split: option.splits)

interpretation delete_own: doc_callback "delete_cb hdr" "\<lambda>_. True" "\<lambda>x y. y = None \<and> precondition hdr x"
  by unfold_locales (auto simp: delete_cb_precondition writes_def contents_after_def split: if_splits)

text \<open>
  C17: a deletion answered with 204 deleted contents that met the precondition of the request, the last
  ones its update was shown, and left no document under the key of the path; one answered with 412 found, and left, contents that did not meet
  it. No deletion touches another document, and no other answer than these and 404 is given.
\<close>

theorem delete_conditional:
  assumes "bucket_ok cb st" and "doDeleteUserDoc hp cb req d = Ret (r, d')"
    and "key = snd (resolvePath (hp_sha1 hp) req)"
  shows "rs_Status r \<in> {204, 412, 404} \<and> (\<forall>k. k \<noteq> key \<longrightarrow> st d' k = st d k) \<and>
     (rs_Status r = 204 \<longrightarrow> st d' key = None \<and>
        precondition (rq_Header req) (last (fst (cbUpdate cb key 0 (closure (delete_cb (rq_Header req)) ()) d)))) \<and>
     (rs_Status r = 412 \<longrightarrow> \<not> precondition (rq_Header req) (st d' key))"
proof -
  obtain h u where c: "cbUpdate cb key 0 (closure (delete_cb (rq_Header req)) ()) d = (h, u, d')"
    using assms(2,3) by (auto simp: doDeleteUserDoc_def split: prod.splits updRes.splits)
  note ok = bucket_okD(5) [OF assms(1)]
  note others = update_okD(1) [OF ok c]
  show ?thesis
  proof (cases u)
    case UpdOk
    from delete_own.update_success [OF ok TrueI c [unfolded UpdOk]] have "st d' key = None" "precondition (rq_Header req) (last h)"
      by simp_all
    moreover have "rs_Status r = 204" using assms c UpdOk by (auto simp: doDeleteUserDoc_def statusOnly_def)
    ultimately show ?thesis using others c by auto
  next
    case (UpdErr er)
    have r: "rs_Status r = (if er = EUploadPrecondition then 412 else 404)"
      using assms c UpdErr by (auto simp: doDeleteUserDoc_def httpError_def httpErr_def)
    have "\<not> precondition (rq_Header req) (st d' key)" if e: "er = EUploadPrecondition"
    proof -
      obtain s where "snd (delete_cb (rq_Header req) s (st d' key)) = UErr EUploadPrecondition"
        by (rule delete_own.update_refused [OF ok TrueI c [unfolded UpdErr e]]) auto
      then show ?thesis by (simp add: delete_cb_precondition split: if_splits)
    qed
    with r others show ?thesis by (auto split: if_splits)
  next
    case UpdPanic
    with assms c show ?thesis by (simp add: doDeleteUserDoc_def)
  qed
qed
definition aDelete :: request where
  "aDelete = aPut\<lparr>rq_Method := ''DELETE'', rq_Header := Some [(''If-Match'', [quoted ''da39''])]\<rparr>"

theorem delete_conditional_witness:
  "\<exists>r d'. doDeleteUserDoc aHttp (memBucket noView) aDelete [(''a/b'', RJson (marshal_fileMeta aFile)), (''c'', RText ''x'')]
       = Ret (r, d') \<and> rs_Status r = 204 \<and> map_of d' ''a/b'' = None \<and> map_of d' ''c'' = Some (RText ''x'')"
proof -
  let ?d = "[(''a/b'', RJson (marshal_fileMeta aFile)), (''c'', RText ''x'')]"
  have "case doDeleteUserDoc aHttp (memBucket noView) aDelete ?d of Ret (r, d') \<Rightarrow> rs_Status r = 204 | Panic \<Rightarrow> False"
    by code_simp
  then obtain r d' where r: "doDeleteUserDoc aHttp (memBucket noView) aDelete ?d = Ret (r, d')" "rs_Status r = 204"
    by (auto split: go.splits)
  have k: "''a/b'' = snd (resolvePath (hp_sha1 aHttp) aDelete)" by code_simp
  from delete_conditional [where st = map_of, OF memBucket_ok r(1) k] r show ?thesis by auto
qed

section \<open>Revisions\<close>

lemma consec_below: "consec (map f ps @ [n]) \<Longrightarrow> p \<in> set ps \<Longrightarrow> f p < n"
proof (induction ps arbitrary: n rule: rev_induct)
  case (snoc q ps)
  then have c: "consec (map f ps @ [f q])" "n = f q + 1" by (simp_all add: consec_append)
  with snoc.IH [OF c(1)] snoc.prems(2) show ?case by auto
qed simp

lemma consec_distinct: "consec (map f ps @ [n]) \<Longrightarrow> distinct (map f ps)"
proof (induction ps arbitrary: n rule: rev_induct)
  case (snoc q ps)
  then have c: "consec (map f ps @ [f q])" by (simp add: consec_append)
  with snoc.IH [OF c] consec_below [OF c] show ?case by fastforce
qed simp

lemma find_distinct: "distinct (map f ps) \<Longrightarrow> p \<in> set ps \<Longrightarrow> find (\<lambda>q. f q = f p) ps = Some p"
  by (induction ps) auto

text \<open>
  C18: every older revision of a file can be read: a plain request for it is answered with 200 and the
  bytes of that revision's object, when this node has the object. Asked by its number for the revision
  that is current, the node answers 410, as for a number the file never had.
\<close>

theorem revisions_served:
  assumes "getFile cb (snd (resolvePath (hp_sha1 hp) req)) (w_db w) = Inr fm" and "fm_Type fm = ''file''"
    and "wf_fileMeta fm" and "consec (revnos fm)" and "\<not> conditional req"
  shows "(\<forall>p c. p \<in> set (fm_Previous fm) \<and> FormValue req ''rev'' = itoa (pm_Revno p) \<and>
        objects (e_root e) (w_fs w) (pm_OID p) = Some c \<longrightarrow>
        (\<exists>rs w'. doGetUserDoc hp e cb req w = Ret (rs, w') \<and> rs_Status rs = 200 \<and> rs_Body rs = BBytes c)) \<and>
     (\<forall>n. FormValue req ''rev'' = itoa n \<and> i64_range n \<and> n \<notin> pm_Revno ` set (fm_Previous fm) \<longrightarrow>
        (\<exists>rs. doGetUserDoc hp e cb req w = Ret (rs, w) \<and> rs_Status rs = 410)) \<and>
     fm_Revno fm \<notin> pm_Revno ` set (fm_Previous fm)"
proof (intro conjI allI impI)
  have ne: "itoa n \<noteq> []" for n by (simp add: itoa_def)
  have cs: "consec (map pm_Revno (fm_Previous fm) @ [fm_Revno fm])" using assms(4) by (simp add: revnos_def)
  show "fm_Revno fm \<notin> pm_Revno ` set (fm_Previous fm)" using consec_below [OF cs] by fastforce
  {
    fix p c
    assume a: "p \<in> set (fm_Previous fm) \<and> FormValue req ''rev'' = itoa (pm_Revno p) \<and>
        objects (e_root e) (w_fs w) (pm_OID p) = Some c"
    have "i64_range (pm_Revno p)" using a assms(3) by (auto simp: wf_fileMeta_def list_all_iff wf_prevMeta_def)
    moreover have "find (\<lambda>q. pm_Revno q = pm_Revno p) (fm_Previous fm) = Some p"
      using find_distinct [OF consec_distinct [OF cs]] a by blast
    moreover have "pm_OID p \<noteq> []" using a by (auto simp: objects_def split: if_splits)
    ultimately have "pickRev req fm = Inr (pm_Revno p, pm_OID p, pm_Modified p, pm_Headers p)"
      using a by (simp add: pickRev_def atoi_itoa ne)
    from doGetUserDoc_local [OF assms(1,2) this _ assms(5)] a
    show "\<exists>rs w'. doGetUserDoc hp e cb req w = Ret (rs, w') \<and> rs_Status rs = 200 \<and> rs_Body rs = BBytes c" by blast
  next
    fix n
    assume a: "FormValue req ''rev'' = itoa n \<and> i64_range n \<and> n \<notin> pm_Revno ` set (fm_Previous fm)"
    then have "find (\<lambda>q. pm_Revno q = n) (fm_Previous fm) = None" by (auto simp: find_None_iff)
    with a assms(1,2) show "\<exists>rs. doGetUserDoc hp e cb req w = Ret (rs, w) \<and> rs_Status rs = 410"
      by (auto simp: doGetUserDoc_def pickRev_def atoi_itoa ne httpError_def split: prod.splits)
  }
qed

theorem revisions_served_witness:
  "\<exists>rs. doGetUserDoc aHttp anEnv (memBucket noView) (aGet\<lparr>rq_Form := [(''rev'', [''3''])]\<rparr>)
       (aWorld [(''a/b'', RJson (marshal_fileMeta (aFile\<lparr>fm_Revno := 3, fm_Previous := [(prev_of bFile)\<lparr>pm_Revno := 2\<rparr>]\<rparr>)))])
     = Ret (rs, aWorld [(''a/b'', RJson (marshal_fileMeta (aFile\<lparr>fm_Revno := 3, fm_Previous := [(prev_of bFile)\<lparr>pm_Revno := 2\<rparr>]\<rparr>)))]) \<and>
     rs_Status rs = 410"
proof -
  let ?fm = "aFile\<lparr>fm_Revno := 3, fm_Previous := [(prev_of bFile)\<lparr>pm_Revno := 2\<rparr>]\<rparr>"
  let ?w = "aWorld [(''a/b'', RJson (marshal_fileMeta ?fm))]" and ?req = "aGet\<lparr>rq_Form := [(''rev'', [''3''])]\<rparr>"
  have "unmarshal_fileMeta (Some (RJson (marshal_fileMeta ?fm))) = Some ?fm" by (rule fileMeta_roundtrip_file) code_simp+
  moreover have "snd (resolvePath (hp_sha1 aHttp) ?req) = ''a/b''" by code_simp
  ultimately have f: "getFile (memBucket noView) (snd (resolvePath (hp_sha1 aHttp) ?req)) (w_db ?w) = Inr ?fm"
    by (simp add: getFile_def memBucket_def aWorld_def)
  have "fm_Type ?fm = ''file''" "wf_fileMeta ?fm" "consec (revnos ?fm)" "\<not> conditional ?req" by code_simp+
  note r = revisions_served [OF f this, of anEnv, THEN conjunct2, THEN conjunct1, THEN spec [of _ 3]]
  have "FormValue ?req ''rev'' = itoa 3" "i64_range 3" by code_simp+
  with r show ?thesis by simp
qed
section \<open>HEAD and GET\<close>

lemma copyHeaders_other: "\<not> isResponseHeader k \<Longrightarrow> map_of (copyHeaders h out) k = map_of out k"
proof -
  assume k: "\<not> isResponseHeader k"
  have "map_of (fold (\<lambda>(k, v) o'. if isResponseHeader k then AList.update k v o' else o') xs out) k = map_of out k" for xs
    by (induction xs arbitrary: out) (use k in \<open>auto simp: update_conv' split: if_splits\<close>)
  then show ?thesis by (simp add: copyHeaders_def)
qed

text \<open>The headers both methods answer with, as they are written to the client.\<close>

definition docHeaders :: "string list" where
  "docHeaders = [''Etag'', ''X-CBFS-Revno'', ''X-CBFS-OldestRev'', ''Last-Modified'', ''Content-Length'']"

lemma docHeaders_canon:
  "canonKey ''Etag'' = ''Etag''" "canonKey ''X-CBFS-Revno'' = ''X-Cbfs-Revno''"
  "canonKey ''X-CBFS-OldestRev'' = ''X-Cbfs-Oldestrev''" "canonKey ''Last-Modified'' = ''Last-Modified''"
  "canonKey ''Content-Length'' = ''Content-Length''" "canonKey ''Content-Type'' = ''Content-Type''"
  "canonKey ''Accept-Ranges'' = ''Accept-Ranges''" "canonKey ''Content-Encoding'' = ''Content-Encoding''"
  by code_simp+

lemma docHeaders_copied:
  "\<not> isResponseHeader ''Etag''" "\<not> isResponseHeader ''X-Cbfs-Revno''" "\<not> isResponseHeader ''X-Cbfs-Oldestrev''"
  "\<not> isResponseHeader ''Last-Modified''" "\<not> isResponseHeader ''Content-Length''" "\<not> isResponseHeader ''Content-Encoding''"
  by code_simp+

lemmas doc_headers = docHeaders_canon copyHeaders_other docHeaders_copied hdrSet_def hdrGet_def mget_def update_conv'



section \<open>Links\<close>

text \<open>
  A link to a blob that does not exist is answered with the error and stored all the same: the handler
  does not stop after it has reported the missing blob.
\<close>

lemma doLinkFile_dangling:
  assumes "referenceBlob cb (hp_now hp) (FormValue req ''blob'') d = ((b, Some ENotFound), d1)"
  shows "fst (doLinkFile hp cb req d) = httpErr ENotFound 404 \<or>
       (\<exists>er. rs_Body (fst (doLinkFile hp cb req d)) = BCat (BError ENotFound) (BError er))"
    and "snd (doLinkFile hp cb req d) =
       snd (maybeStoreMeta cb (trimSlashes (rq_Path req)) (linkMeta hp req (FormValue req ''blob'') (bo_Length b))
              (getExpiration (rq_Header req)) True d1)"
  using assms by (auto simp: doLinkFile_def Let_def httpErr_def split: prod.splits option.splits)

end
