(* ===== verification/Http_Api.thy ===== *)
theory Http_Api
  imports Http_Files
begin

text \<open>
  The handlers of \<open>src/http_api.go\<close>, and the tar archives of \<open>src/tar.go\<close>: configuration, blob and task
  information, metadata of files, node lists, the two proxies, directory listings, induced tasks.
\<close>

section \<open>Configuration\<close>

text \<open>\<open>inp\<close> is the body of the request as the JSON decoder sees it; \<open>fmt.Fprintf\<close> after a bare status.\<close>

definition plainErrf :: "string \<Rightarrow> gerr \<Rightarrow> int \<Rightarrow> response" where
  "plainErrf msg er code = \<lparr>rs_Status = code, rs_Header = [], rs_Body = BCat (BText msg) (BError er)\<rparr>"

definition jsonResponse :: "json \<Rightarrow> response" where
  "jsonResponse j = \<lparr>rs_Status = 200, rs_Header = hdrSet ''Content-Type'' jsonType [], rs_Body = BJson j\<rparr>"

definition doGetConfig :: "(time \<Rightarrow> string) \<Rightarrow> env \<Rightarrow> 'db bucket \<Rightarrow> 'db \<Rightarrow> (response \<times> env) go" where
  "doGetConfig tt e cb d =
     (case updateConfig tt e cb d of
        Panic \<Rightarrow> Panic
      | Ret (_, e') \<Rightarrow> Ret (jsonResponse (marshal_config (e_conf e')), e'))"

definition putConfig ::
  "(time \<Rightarrow> string) \<Rightarrow> env \<Rightarrow> 'db bucket \<Rightarrow> raw \<Rightarrow> 'db \<Rightarrow> (response \<times> env \<times> 'db) go" where
  "putConfig tt e cb inp d =
     (case unmarshal_config tt inp of
        SetPanic \<Rightarrow> Panic
      | SetErr er \<Rightarrow> Ret (plainErrf ''Error reading config: '' er 500, e, d)
      | SetOk conf \<Rightarrow>
          (case StoreConfig cb conf d of
             (Some er, d') \<Rightarrow> Ret (plainErrf ''Error writing config: '' er 500, e, d')
           | (None, d') \<Rightarrow>
               (case updateConfig tt e cb d' of
                  Panic \<Rightarrow> Panic
                | Ret (_, e') \<Rightarrow> Ret (statusOnly 204, e', d'))))"

section \<open>Blobs and tasks\<close>

definition doBlobInfo :: "gerr option \<Rightarrow> 'db bucket \<Rightarrow> request \<Rightarrow> 'db \<Rightarrow> response go" where
  "doBlobInfo formErr cb req d =
     (case formErr of
        Some er \<Rightarrow> Ret (httpErr er 400)
      | None \<Rightarrow>
          (case getBlobs cb (case map_of (rq_Form req) ''blob'' of Some bs \<Rightarrow> bs | None \<Rightarrow> []) d of
             Panic \<Rightarrow> Panic
           | Ret (Some er, _) \<Rightarrow> Ret (httpErr er 500)
           | Ret (None, bs) \<Rightarrow>
               Ret (sendJson req (JObj (map (\<lambda>(k, v). (k, JObj [(''nodes'', encMap JTime (bo_Nodes v))])) bs)))))"

text \<open>The names of the objects, one per line; \<open>entries\<close> is what the walk over the root visits.\<close>

definition gzipHeader :: "request \<Rightarrow> (string \<times> string list) list" where
  "gzipHeader req = (if canGzip req then hdrSet ''Content-Encoding'' ''gzip'' [] else [])"

definition doList :: "env \<Rightarrow> walkEntry list \<Rightarrow> request \<Rightarrow> response go" where
  "doList e entries req =
     (case hashSize e of
        None \<Rightarrow> Panic
      | Some n \<Rightarrow>
          Ret \<lparr>rs_Status = 200, rs_Header = gzipHeader req,
               rs_Body = BBytes (concat (map (\<lambda>(name, _). name @ [CHR 0x0A]) (fst (walkInfos (n * 2) entries))))\<rparr>)"

text \<open>A job that excludes nothing has a nil list.\<close>

definition exclJson :: "(string \<times> recipe) list \<Rightarrow> json" where
  "exclJson rs = JObj (map (\<lambda>(k, r). (k, if rc_excl r = [] then JNull else JArr (map JStr (rc_excl r)))) rs)"

definition doListTaskInfo :: "request \<Rightarrow> response" where
  "doListTaskInfo req =
     sendJson req (JObj [(''global'', exclJson globalPeriodicJobRecipes), (''local'', exclJson localPeriodicJobRecipes)])"

text \<open>Local task names lose the name of their node.\<close>

definition trimTasks :: "taskList \<Rightarrow> (string, taskState) gomap" where
  "trimTasks l =
     (let npre = tl_Node l @ ''/'' in
      map_option (\<lambda>m. fold (\<lambda>(k, v) m'. if hasPrefix k npre then AList.update (drop (length npre) k) v (AList.delete k m') else m')
        m m) (tl_Tasks l))"

definition doListTasks :: "env \<Rightarrow> 'db bucket \<Rightarrow> 'db \<Rightarrow> response" where
  "doListTasks e cb d =
     (case listRunningTasks e cb d of
        Inl er \<Rightarrow> plainErrf ''Error listing tasks:  '' er 500
      | Inr tasks \<Rightarrow>
          jsonResponse (JObj (fold (\<lambda>(_, l) out. AList.update (tl_Node l) (encMap marshal_taskState (trimTasks l)) out) tasks [])))"

definition doInduceTask :: "string \<Rightarrow> inducers \<Rightarrow> response \<times> inducers" where
  "doInduceTask task ind =
     (case induceTask task ind of
        (None, ind') \<Rightarrow> (statusOnly 202, ind')
      | (Some er, ind') \<Rightarrow>
          (if er = ENoSuchTask then httpError (''No such task: '' @ quoted task) 404
           else if er = ETaskAlreadyQueued then statusOnly 202
           else httpErr er 500, ind'))"

section \<open>Metadata of files\<close>

definition doFileInfo :: "(string \<Rightarrow> string) \<Rightarrow> 'db bucket \<Rightarrow> request \<Rightarrow> string \<Rightarrow> 'db \<Rightarrow> response" where
  "doFileInfo sha1 cb req fn d =
     (case getFile cb (shortName sha1 fn) d of
        Inr fm \<Rightarrow> sendJson req (JObj [(''meta'', marshal_fileMeta fm), (''path'', JStr fn)])
      | Inl er \<Rightarrow> if er = ENotFound then httpError ''not found'' 404 else httpErr er 500)"

definition doGetMeta :: "(string \<Rightarrow> string) \<Rightarrow> 'db bucket \<Rightarrow> string \<Rightarrow> 'db \<Rightarrow> response" where
  "doGetMeta sha1 cb path d =
     (case getFile cb (shortName sha1 path) d of
        Inl er \<Rightarrow> httpErr er 404
      | Inr got \<Rightarrow> jsonResponse (case fm_Userdata got of None \<Rightarrow> JObj [] | Some u \<Rightarrow> u))"

text \<open>The document is read under the short key, and written under the path.\<close>

definition putMeta :: "(string \<Rightarrow> string) \<Rightarrow> 'db bucket \<Rightarrow> raw \<Rightarrow> string \<Rightarrow> 'db \<Rightarrow> response \<times> 'db" where
  "putMeta sha1 cb inp path d =
     (case cbGets cb (shortName sha1 path) d of
        Inl er \<Rightarrow> (httpErr er 404, d)
      | Inr (v, casid) \<Rightarrow>
          (case unmarshal_fileMeta (Some v) of
             None \<Rightarrow> (httpErr EJson 404, d)
           | Some got \<Rightarrow>
               (case inp of
                  RText _ \<Rightarrow> (httpErr EJson 400, d)
                | RJson r \<Rightarrow>
                    (case cbCas cb path casid 0 (RJson (marshal_fileMeta (got\<lparr>fm_Userdata := Some r\<rparr>))) d of
                       (None, d') \<Rightarrow> (statusOnly 201, d')
                     | (Some er, d') \<Rightarrow> (httpErr er 500, d')))))"

section \<open>Nodes\<close>

text \<open>Integer division of the language truncates towards zero.\<close>

definition millis :: "duration \<Rightarrow> int" where
  "millis a = sgn a * (\<bar>a\<bar> div 1000000)"

definition nodeJson :: "time \<Rightarrow> storageNode \<Rightarrow> json" where
  "nodeJson now n =
     (let age = timeSub now (sn_Time n); uptime = timeSub now (sn_Started n) in
      JObj ([(''size'', JNum (sn_storageSize n)), (''addr'', JStr (Address n)), (''starttime'', JTime (sn_Started n)),
             (''hbtime'', JTime (sn_Time n)), (''hbage_ms'', JNum (millis age)), (''hbage_str'', JStr (durString age)),
             (''used'', JNum (sn_Used n)), (''free'', JNum (sn_Free n)), (''addr_raw'', JStr (sn_Addr n)),
             (''bindaddr'', JStr (sn_BindAddr n)), (''framesbind'', JStr (sn_FrameBind n)), (''version'', JStr (sn_Version n))]
          @ (if sn_Started n \<noteq> 0
             then [(''uptime_ms'', JNum (millis uptime)), (''uptime_str'', JStr (durString uptime))] else [])))"

definition doListNodes :: "env \<Rightarrow> 'db bucket \<Rightarrow> time \<Rightarrow> request \<Rightarrow> 'db \<Rightarrow> response" where
  "doListNodes e cb now req d =
     (case findAllNodes e cb d of
        Inl er \<Rightarrow> plainErrf ''Error generating node list: '' er 500
      | Inr nl \<Rightarrow> sendJson req (JObj (fold (\<lambda>n m. AList.update (sn_name n) (nodeJson now n) m) nl [])))"

definition doGetFramesData :: "json \<Rightarrow> request \<Rightarrow> response" where
  "doGetFramesData infos req = sendJson req infos"

section \<open>Proxies\<close>

text \<open>
  The bucket's nodes by the base of their view interface, the one picked, and what the request to it gives.
\<close>

record viewProxy =
  vp_nodes :: "string list"
  vp_rnd :: "nat \<Rightarrow> nat"
  vp_parses :: "string \<Rightarrow> bool"
  vp_get :: "string \<Rightarrow> string \<Rightarrow> gerr + (int \<times> (string \<times> string list) list \<times> string)"

definition proxyViewRequest :: "viewProxy \<Rightarrow> request \<Rightarrow> string \<Rightarrow> response go" where
  "proxyViewRequest vp req path =
     (if vp_nodes vp = [] then Panic
      else
        (let base = vp_nodes vp ! vp_rnd vp (length (vp_nodes vp)) in
         if \<not> vp_parses vp base then Ret (statusOnly 502)
         else (case vp_get vp base (''/'' @ path) of
                 Inl _ \<Rightarrow> Ret (statusOnly 502)
               | Inr (status, hdr, body) \<Rightarrow>
                   (let h1 = fold (\<lambda>(k, vs). AList.update k vs) hdr [];
                        h2 = (if canGzip req
                              then AList.delete ''Content-Length'' (hdrSet ''Content-Encoding'' ''gzip'' h1) else h1)
                    in Ret \<lparr>rs_Status = status, rs_Header = h2, rs_Body = BBytes body\<rparr>))))"

definition rawBody :: "raw \<Rightarrow> body" where
  "rawBody v = (case v of RJson j \<Rightarrow> BJson j | RText s \<Rightarrow> BBytes s)"

definition proxyCRUDGet :: "(string \<Rightarrow> string) \<Rightarrow> 'db bucket \<Rightarrow> string \<Rightarrow> 'db \<Rightarrow> response" where
  "proxyCRUDGet sha1 cb path d =
     (case cbGet cb (shortName sha1 path) d of
        Inl er \<Rightarrow> plainErrf ''Error getting value: '' er 404
      | Inr v \<Rightarrow> \<lparr>rs_Status = 200, rs_Header = [], rs_Body = rawBody v\<rparr>)"

definition proxyCRUDPut :: "(string \<Rightarrow> string) \<Rightarrow> 'db bucket \<Rightarrow> request \<Rightarrow> raw \<Rightarrow> string \<Rightarrow> 'db \<Rightarrow> response \<times> 'db" where
  "proxyCRUDPut sha1 cb req inp path d =
     (case rq_BodyErr req of
        Some er \<Rightarrow> (plainErrf ''Error reading data: '' er 500, d)
      | None \<Rightarrow>
          (case cbSet cb (shortName sha1 path) 0 inp d of
             (Some er, d') \<Rightarrow> (plainErrf ''Error storing value: '' er 500, d')
           | (None, d') \<Rightarrow> (statusOnly 204, d')))"

definition proxyCRUDDelete :: "(string \<Rightarrow> string) \<Rightarrow> 'db bucket \<Rightarrow> string \<Rightarrow> 'db \<Rightarrow> response \<times> 'db" where
  "proxyCRUDDelete sha1 cb path d =
     (case cbDelete cb (shortName sha1 path) d of
        (Some er, d') \<Rightarrow> (plainErrf ''Error deleting value: '' er 500, d')
      | (None, d') \<Rightarrow> (statusOnly 204, d'))"

section \<open>Listings\<close>

text \<open>A stored body that is not JSON makes encoding fail after the status was sent.\<close>

fun rawAll :: "(string \<times> raw option) list \<Rightarrow> (string \<times> json) list option" where
  "rawAll [] = Some []"
| "rawAll ((k, v) # rs) =
     (case v of
        Some (RJson j) \<Rightarrow> map_option ((#) (k, j)) (rawAll rs)
      | None \<Rightarrow> map_option ((#) (k, JNull)) (rawAll rs)
      | Some (RText _) \<Rightarrow> None)"

definition listingBody :: "fileListing \<Rightarrow> body" where
  "listingBody fl =
     (case rawAll (fl_Files fl) of
        None \<Rightarrow> BEmpty
      | Some fs \<Rightarrow>
          BJson (JObj [(''files'', JObj fs),
            (''dirs'', JObj (map (\<lambda>(k, c, s, mn, mx).
               (k, JObj [(''descendants'', JNum c), (''size'', JNum s), (''smallest'', JNum mn), (''largest'', JNum mx)]))
               (fl_Dirs fl))),
            (''path'', JStr (fl_Path fl))]))"

definition doListDocs ::
  "(time \<Rightarrow> string) \<Rightarrow> (string \<Rightarrow> string) \<Rightarrow> 'db bucket \<Rightarrow> request \<Rightarrow> string \<Rightarrow> 'db \<Rightarrow> response go" where
  "doListDocs tt sha1 cb req path0 d =
     (let path = (if hasSuffix path0 ''/'' then butlast path0 else path0); depthString = FormValue req ''depth'' in
      case (if depthString = [] then Some 1 else atoi depthString) of
        None \<Rightarrow> Ret (plainErrf ''Error processing depth parameter: '' (EMsg ''invalid syntax'') 400)
      | Some depth \<Rightarrow>
          (case listFiles tt cb sha1 path (FormValue req ''includeMeta'' = ''true'') depth d of
             Panic \<Rightarrow> Panic
           | Ret (Inl er) \<Rightarrow> Ret (plainErrf ''Error generating file list: '' er 500)
           | Ret (Inr fl) \<Rightarrow>
               Ret (if fl_Dirs fl = [] \<and> fl_Files fl = [] then statusOnly 404
                    else \<lparr>rs_Status = 200, rs_Header = hdrSet ''Content-Type'' jsonType (gzipHeader req),
                          rs_Body = listingBody fl\<rparr>)))"

definition doPing :: response where
  "doPing = statusOnly 204"

section \<open>Tar archives\<close>

text \<open>
  The writer of the archive refuses more bytes of a member than its header announced, and once a member
  was shorter, every later header. \<open>wr n\<close> is the error of writing the header after n members.
\<close>

fun tarLoop ::
  "(string \<Rightarrow> string \<Rightarrow> string) \<Rightarrow> env \<Rightarrow> 'db bucket \<Rightarrow> 'db fetchEnv \<Rightarrow> (nat \<Rightarrow> gerr option) \<Rightarrow> bool \<Rightarrow> namedFile list
     \<Rightarrow> (string \<times> string) list \<Rightarrow> 'db world \<Rightarrow> ((string \<times> string) list \<times> bool \<times> 'db world) go" where
  "tarLoop sm e cb fe wr short [] out w = Ret (out, True, w)"
| "tarLoop sm e cb fe wr short (nf # nfs) out w =
     (if nf_err nf \<noteq> None \<or> short \<or> wr (length out) \<noteq> None then tarLoop sm e cb fe wr short nfs out w
      else (case copyBlob sm e cb fe (fm_OID (nf_meta nf)) w of
              Panic \<Rightarrow> Panic
            | Ret (c, er, w') \<Rightarrow>
                (let len = fm_Length (nf_meta nf); out' = out @ [(nf_name nf, take (nat len) c)] in
                 if er \<noteq> None \<or> int (length c) > len then Ret (out', False, w')
                 else tarLoop sm e cb fe wr (int (length c) < len) nfs out' w')))"

definition doTarDocs ::
  "(string \<Rightarrow> string \<Rightarrow> string) \<Rightarrow> env \<Rightarrow> 'db bucket \<Rightarrow> 'db fetchEnv \<Rightarrow> (nat \<Rightarrow> gerr option) \<Rightarrow> namedFile list
     \<Rightarrow> 'db world \<Rightarrow> ((string \<times> string) list \<times> bool \<times> 'db world) go" where
  "doTarDocs sm e cb fe wr files w = tarLoop sm e cb fe wr False files [] w"

end
