(* ===== verification/Http.thy ===== *)
theory Http
  imports Http_Api
begin

text \<open>
  The dispatcher of \<open>src/http.go\<close>: from the method and the path of a request to its handler. The state is
  that of the whole node, with its configuration, its task inducers and the requests it sent to others.
\<close>

section \<open>Paths of the interface\<close>

definition blobInfoPath :: string where "blobInfoPath = ''/.cbfs/blob/info/''"
definition nodePrefix :: string where "nodePrefix = ''/.cbfs/nodes/''"
definition metaPrefix :: string where "metaPrefix = ''/.cbfs/meta/''"
definition proxyPrefix :: string where "proxyPrefix = ''/.cbfs/viewproxy/''"
definition crudproxyPrefix :: string where "crudproxyPrefix = ''/.cbfs/crudproxy/''"
definition fetchPrefix :: string where "fetchPrefix = ''/.cbfs/fetch/''"
definition listPrefix :: string where "listPrefix = ''/.cbfs/list/''"
definition configPrefix :: string where "configPrefix = ''/.cbfs/config/''"
definition zipPrefix :: string where "zipPrefix = ''/.cbfs/zip/''"
definition tarPrefix :: string where "tarPrefix = ''/.cbfs/tar/''"
definition fsckPrefix :: string where "fsckPrefix = ''/.cbfs/fsck/''"
definition taskPrefix :: string where "taskPrefix = ''/.cbfs/tasks/''"
definition taskinfoPrefix :: string where "taskinfoPrefix = ''/.cbfs/tasks/info/''"
definition pingPrefix :: string where "pingPrefix = ''/.cbfs/ping/''"
definition fileInfoPrefix :: string where "fileInfoPrefix = ''/.cbfs/info/file/''"
definition framePrefix :: string where "framePrefix = ''/.cbfs/info/frames/''"
definition restorePrefix :: string where "restorePrefix = ''/.cbfs/backup/restore/''"
definition backupStrmPrefix :: string where "backupStrmPrefix = ''/.cbfs/backup/stream/''"
definition backupPrefix :: string where "backupPrefix = ''/.cbfs/backup/''"
definition quitPrefix :: string where "quitPrefix = ''/.cbfs/exit/''"
definition debugPrefix :: string where "debugPrefix = ''/.cbfs/debug/''"
definition apiPrefix :: string where "apiPrefix = ''/.cbfs/''"

lemmas prefix_defs = blobPrefix_def blobInfoPath_def nodePrefix_def metaPrefix_def proxyPrefix_def crudproxyPrefix_def
  fetchPrefix_def listPrefix_def configPrefix_def zipPrefix_def tarPrefix_def fsckPrefix_def taskPrefix_def taskinfoPrefix_def
  pingPrefix_def fileInfoPrefix_def framePrefix_def markBackupPrefix_def restorePrefix_def backupStrmPrefix_def backupPrefix_def
  quitPrefix_def debugPrefix_def apiPrefix_def

section \<open>The node and its surroundings\<close>

record 'db server =
  sv_env :: env
  sv_w :: "'db world"
  sv_ind :: inducers
  sv_sent :: "string list"

record 'db apiEnv =
  ae_cb :: "'db bucket"
  ae_hp :: "'db httpEnv"
  ae_be :: "'db backupEnv"
  ae_parse :: "request \<Rightarrow> raw"
  ae_formErr :: "gerr option"
  ae_walk :: "walkEntry list"
  ae_frames :: json
  ae_vp :: viewProxy
  ae_enableViewProxy :: bool
  ae_enableCRUDProxy :: bool
  ae_evs :: "string \<Rightarrow> 'db \<Rightarrow> streamEv list"
  ae_wr :: "nat \<Rightarrow> gerr option"
  ae_fuel :: nat
  ae_debug :: "request \<Rightarrow> response"

text \<open>Handlers that only read, that change the stored documents, and that change the node's own state.\<close>

definition reads :: "'db server \<Rightarrow> response \<Rightarrow> (response \<times> 'db server) go option" where
  "reads sv r = Some (Ret (r, sv))"

definition readsGo :: "'db server \<Rightarrow> response go \<Rightarrow> (response \<times> 'db server) go option" where
  "readsGo sv r = Some (case r of Panic \<Rightarrow> Panic | Ret x \<Rightarrow> Ret (x, sv))"

definition inDb :: "'db server \<Rightarrow> response \<times> 'db \<Rightarrow> (response \<times> 'db server) go option" where
  "inDb sv r = Some (Ret (fst r, sv\<lparr>sv_w := (sv_w sv)\<lparr>w_db := snd r\<rparr>\<rparr>))"

definition inWorld :: "'db server \<Rightarrow> (response \<times> 'db world) go \<Rightarrow> (response \<times> 'db server) go option" where
  "inWorld sv r = Some (case r of Panic \<Rightarrow> Panic | Ret (x, w) \<Rightarrow> Ret (x, sv\<lparr>sv_w := w\<rparr>))"

section \<open>The answers of the generators\<close>

definition bodies :: "body list \<Rightarrow> body" where
  "bodies bs = foldr BCat bs BEmpty"

definition exportResponse :: "json list \<Rightarrow> response" where
  "exportResponse js = \<lparr>rs_Status = 200, rs_Header = [], rs_Body = bodies (map BJson js)\<rparr>"

definition fsckJson :: "fsckStatus \<Rightarrow> body" where
  "fsckJson s =
     bodies [BJson (JObj ([(''path'', JStr (fk_Path s))] @
        (if fk_OID s \<noteq> [] then [(''oid'', JStr (fk_OID s))] else []) @
        (if fk_Reps s \<noteq> 0 then [(''reps'', JNum (fk_Reps s))] else []) @
        (if fk_EType s \<noteq> [] then [(''etype'', JStr (fk_EType s))] else []))),
      (case fk_Error s of None \<Rightarrow> BEmpty | Some er \<Rightarrow> BError er)]"

definition archiveHeader :: "string \<Rightarrow> string \<Rightarrow> string \<Rightarrow> (string \<times> string list) list" where
  "archiveHeader path ext ctype =
     hdrSet ''Content-Type'' ctype (hdrSet ''Content-Disposition'' (''attachment; filename='' @ quoted (archiveFilename path ext)) [])"

text \<open>The members of an archive with their contents; their packing is left out.\<close>

definition archiveResponse :: "(string \<times> string list) list \<Rightarrow> (string \<times> string) list \<Rightarrow> response" where
  "archiveResponse hdr ms =
     \<lparr>rs_Status = 200, rs_Header = hdr, rs_Body = bodies (map (\<lambda>(n, c). BCat (BText n) (BBytes c)) ms)\<rparr>"

definition overFiles ::
  "'db apiEnv \<Rightarrow> 'db server \<Rightarrow> string \<Rightarrow> (namedFile list \<Rightarrow> (response \<times> 'db server) go option) \<Rightarrow> (response \<times> 'db server) go option" where
  "overFiles ae sv path k =
     (case pathGenerator (ae_fuel ae) (ae_cb ae) (hp_sha1 (ae_hp ae)) path (w_db (sv_w sv)) of
        None \<Rightarrow> None
      | Some (files, _) \<Rightarrow> k files)"

section \<open>The dispatcher\<close>

definition doPut :: "'db apiEnv \<Rightarrow> request \<Rightarrow> 'db server \<Rightarrow> (response \<times> 'db server) go option" where
  "doPut ae req sv =
     (let p = rq_Path req; cb = ae_cb ae; hp = ae_hp ae; e = sv_env sv; w = sv_w sv; sha1 = hp_sha1 hp in
      if p = configPrefix then
        Some (case putConfig (be_tt (ae_be ae)) e cb (ae_parse ae req) (w_db w) of
                Panic \<Rightarrow> Panic
              | Ret (r, e', d) \<Rightarrow> Ret (r, sv\<lparr>sv_env := e', sv_w := w\<lparr>w_db := d\<rparr>\<rparr>))
      else if hasPrefix p blobPrefix then inWorld sv (putRawHash hp e cb req w)
      else if hasPrefix p metaPrefix then inDb sv (putMeta sha1 cb (ae_parse ae req) (minusPrefix p metaPrefix) (w_db w))
      else if ae_enableCRUDProxy ae \<and> hasPrefix p crudproxyPrefix then
        inDb sv (proxyCRUDPut sha1 cb req (ae_parse ae req) (minusPrefix p crudproxyPrefix) (w_db w))
      else if hasPrefix p apiPrefix then reads sv (httpError ''Can't PUT here'' 400)
      else inWorld sv (putUserFile hp e cb req w))"

definition doHead :: "'db apiEnv \<Rightarrow> request \<Rightarrow> 'db server \<Rightarrow> (response \<times> 'db server) go option" where
  "doHead ae req sv =
     (let p = rq_Path req; cb = ae_cb ae; hp = ae_hp ae; w = sv_w sv in
      if hasPrefix p blobPrefix then inWorld sv (doHeadRawBlob hp (sv_env sv) cb (minusPrefix p blobPrefix) w)
      else if hasPrefix p apiPrefix then reads sv (httpError ''Can't HEAD here'' 400)
      else reads sv (doHeadUserFile hp cb req (w_db w)))"

definition doGet :: "'db apiEnv \<Rightarrow> request \<Rightarrow> 'db server \<Rightarrow> (response \<times> 'db server) go option" where
  "doGet ae req sv =
     (let p = rq_Path req; cb = ae_cb ae; hp = ae_hp ae; e = sv_env sv; w = sv_w sv; d = w_db w; sha1 = hp_sha1 hp;
          tt = be_tt (ae_be ae); sm = hp_sm hp; fe = hp_fe hp in
      if p = pingPrefix then reads sv doPing
      else if p = framePrefix then reads sv (doGetFramesData (ae_frames ae) req)
      else if p = blobPrefix then readsGo sv (doList e (ae_walk ae) req)
      else if p = nodePrefix then reads sv (doListNodes e cb (hp_now hp) req d)
      else if p = taskinfoPrefix then reads sv (doListTaskInfo req)
      else if p = taskPrefix then reads sv (doListTasks e cb d)
      else if p = configPrefix then
        Some (case doGetConfig tt e cb d of Panic \<Rightarrow> Panic | Ret (r, e') \<Rightarrow> Ret (r, sv\<lparr>sv_env := e'\<rparr>))
      else if hasPrefix p backupStrmPrefix then
        reads sv (exportResponse (doExport (ae_wr ae) (ae_evs ae (minusPrefix p backupStrmPrefix) d)))
      else if p = backupPrefix then readsGo sv (doGetBackupInfo tt cb sha1 req d)
      else if hasPrefix p fileInfoPrefix then reads sv (doFileInfo sha1 cb req (minusPrefix p fileInfoPrefix) d)
      else if hasPrefix p fetchPrefix then inWorld sv (Ret (doFetchDoc hp e cb req (minusPrefix p fetchPrefix) w))
      else if hasPrefix p metaPrefix then reads sv (doGetMeta sha1 cb (minusPrefix p metaPrefix) d)
      else if hasPrefix p blobPrefix then inWorld sv (doServeRawBlob hp e cb req (minusPrefix p blobPrefix) w)
      else if ae_enableViewProxy ae \<and> hasPrefix p proxyPrefix then readsGo sv (proxyViewRequest (ae_vp ae) req (minusPrefix p proxyPrefix))
      else if ae_enableCRUDProxy ae \<and> hasPrefix p crudproxyPrefix then reads sv (proxyCRUDGet sha1 cb (minusPrefix p crudproxyPrefix) d)
      else if hasPrefix p listPrefix then readsGo sv (doListDocs tt sha1 cb req (minusPrefix p listPrefix) d)
      else if hasPrefix p zipPrefix then
        (let path = minusPrefix p zipPrefix in
         overFiles ae sv path (\<lambda>files. inWorld sv
           (case doZipDocs sm e cb fe (ae_wr ae) files w of
              Panic \<Rightarrow> Panic
            | Ret (ms, _, w') \<Rightarrow> Ret (archiveResponse (archiveHeader path ''zip'' ''application/zip'') ms, w'))))
      else if hasPrefix p tarPrefix then
        (let path = minusPrefix p tarPrefix in
         overFiles ae sv path (\<lambda>files. inWorld sv
           (case doTarDocs sm e cb fe (ae_wr ae) files w of
              Panic \<Rightarrow> Panic
            | Ret (ms, _, w') \<Rightarrow>
                Ret (archiveResponse (gzipHeader req @ archiveHeader path ''tar'' ''application/x-tar'') ms, w'))))
      else if hasPrefix p fsckPrefix then
        overFiles ae sv (minusPrefix p fsckPrefix) (\<lambda>files. readsGo sv
          (case dofsck cb req files d of
             Panic \<Rightarrow> Panic
           | Ret sts \<Rightarrow> Ret (\<lparr>rs_Status = 200, rs_Header = hdrSet ''Content-Type'' jsonType [], rs_Body = bodies (map fsckJson sts)\<rparr>)))
      else if hasPrefix p debugPrefix then reads sv (ae_debug ae req)
      else if hasPrefix p apiPrefix then reads sv (httpError ''Can't GET here'' 400)
      else inWorld sv (doGetUserDoc hp e cb req w))"

definition doDelete :: "'db apiEnv \<Rightarrow> request \<Rightarrow> 'db server \<Rightarrow> (response \<times> 'db server) go option" where
  "doDelete ae req sv =
     (let p = rq_Path req; cb = ae_cb ae; hp = ae_hp ae; w = sv_w sv in
      if hasPrefix p blobPrefix then inWorld sv (doDeleteOID hp (sv_env sv) cb req w)
      else if ae_enableCRUDProxy ae \<and> hasPrefix p crudproxyPrefix then
        inDb sv (proxyCRUDDelete (hp_sha1 hp) cb (minusPrefix p crudproxyPrefix) (w_db w))
      else if hasPrefix p apiPrefix then reads sv (httpError ''Can't DELETE here'' 400)
      else (case doDeleteUserDoc hp cb req (w_db w) of Panic \<Rightarrow> Some Panic | Ret r \<Rightarrow> inDb sv r))"

text \<open>The process ends a second after the answer.\<close>

definition doExit :: response where
  "doExit = statusOnly 202"

definition doPost :: "'db apiEnv \<Rightarrow> request \<Rightarrow> 'db server \<Rightarrow> (response \<times> 'db server) go option" where
  "doPost ae req sv =
     (let p = rq_Path req; cb = ae_cb ae; hp = ae_hp ae; be = ae_be ae; e = sv_env sv; w = sv_w sv; d = w_db w in
      if p = blobPrefix then inWorld sv (doPostRawBlob hp e cb req w)
      else if p = blobInfoPath then readsGo sv (doBlobInfo (ae_formErr ae) cb req d)
      else if hasPrefix p markBackupPrefix then
        Some (case doMarkBackup (be_tt be) (be_jt be) (be_crErr be) e cb (hp_sha1 hp) req w of
                Panic \<Rightarrow> Panic
              | Ret (r, sent, w') \<Rightarrow> Ret (r, sv\<lparr>sv_w := w', sv_sent := sv_sent sv @ sent\<rparr>))
      else if hasPrefix p restorePrefix then
        inDb sv (doRestoreDocument cb (hp_now hp) req (ae_parse ae req) (minusPrefix p restorePrefix) d)
      else if hasPrefix p taskPrefix then
        (case doInduceTask (minusPrefix p taskPrefix) (sv_ind sv) of
           (r, ind') \<Rightarrow> Some (Ret (r, sv\<lparr>sv_ind := ind'\<rparr>)))
      else if hasPrefix p backupPrefix then
        (case doBackupDocs (hp_sm hp) e cb be req w of None \<Rightarrow> None | Some r \<Rightarrow> inWorld sv r)
      else if hasPrefix p quitPrefix then reads sv doExit
      else if hasPrefix p apiPrefix then reads sv (httpError ''Can't POST here'' 400)
      else inDb sv (doLinkFile hp cb req d))"

definition httpHandler :: "'db apiEnv \<Rightarrow> request \<Rightarrow> 'db server \<Rightarrow> (response \<times> 'db server) go option" where
  "httpHandler ae req sv =
     (if rq_Method req = ''PUT'' then doPut ae req sv
      else if rq_Method req = ''POST'' then doPost ae req sv
      else if rq_Method req = ''GET'' then doGet ae req sv
      else if rq_Method req = ''HEAD'' then doHead ae req sv
      else if rq_Method req = ''DELETE'' then doDelete ae req sv
      else reads sv (statusOnly 405))"
section \<open>The store under requests\<close>

text \<open>
  What a request relies on to keep the store: the hash is the configured one, its digests are not empty,
  temporary files are made below the root, and cached copies can be written.
\<close>

definition store_env :: "(string \<Rightarrow> string) \<Rightarrow> 'db apiEnv \<Rightarrow> env \<Rightarrow> bool" where
  "store_env s ae e \<longleftrightarrow>
     getHash (hp_sm (ae_hp ae)) e = Some s \<and> (\<forall>x. 1 \<le> length (s x)) \<and>
     tmp_ok e (hp_tmp (ae_hp ae)) \<and> tmp_ok e (be_tmp (ae_be ae)) \<and>
     tmp_ok e (fe_tmp (hp_fe (ae_hp ae))) \<and> fe_wfail (hp_fe (ae_hp ae)) = None"

lemma objectPath_no_dot:
  assumes "validHash h"
  shows "objectPath root h \<noteq> root @ ''/.backup.json''"
  using assms by (cases h) (auto simp: objectPath_def validHash_def isHashChar_def)

lemma recordBackupObject_objects:
  assumes "recordBackupObject tt jt crErr e cb sha1 w = Ret (er, w')"
  shows "objects (e_root e) (w_fs w') = objects (e_root e) (w_fs w)"
  using assms objectPath_no_dot [of _ "e_root e"]
  by (auto simp: recordBackupObject_def objects_def fun_eq_iff split: go.splits sum.splits option.splits)

lemma linkBackup_objects:
  assumes "linkBackup e cb be fn h len w = Ret (er, w')"
  shows "objects (e_root e) (w_fs w') = objects (e_root e) (w_fs w)"
  using assms
  by (auto simp: linkBackup_def dest: recordBackupObject_objects split: prod.splits go.splits option.splits updRes.splits)

lemma doDeleteOID_store:
  assumes "doDeleteOID hp e cb req w = Ret (r, w')" and "store_ok s (e_root e) (w_fs w)"
  shows "store_ok s (e_root e) (w_fs w')"
proof (cases "w_fs w' = w_fs w")
  case False
  let ?oid = "minusPrefix (rq_Path req) blobPrefix"
  from False assms(1) have v: "validHash ?oid" by (auto simp: doDeleteOID_def Let_def split: if_splits)
  from False assms(1) obtain p where p: "hashFilename (e_root e) ?oid = Ret p" and f: "w_fs w' = snd (osRemove p (w_fs w))"
    by (auto simp: doDeleteOID_def removeObject_def Let_def split: if_splits go.splits prod.splits option.splits)
  from p have l: "2 \<le> length ?oid" by (auto simp: hashFilename_def split: if_splits)
  with p v have "p = objectPath (e_root e) ?oid" by (simp add: hashFilename_valid)
  with f objects_remove [OF v l, of "e_root e" "w_fs w"] assms(2) show ?thesis
    by (auto simp: store_ok_objects split: if_splits)
qed (use assms(2) in simp)

lemma putUserFile_fs:
  assumes "putUserFile hp e cb req w = Ret (r, w')"
  shows "w_fs w' = w_fs w \<or> (\<exists>hashin ps re x w1. receive hp e hashin ps re w = Ret (x, w1) \<and> w_fs w' = w_fs w1)"
proof (cases "containsStr (rq_Path req) ''//''")
  case False
  obtain ps re ms where a: "altStoreFile (hp_alt hp) e cb req (uploadLength req) (w_db w) = (ps, re, ms)"
    by (cases "altStoreFile (hp_alt hp) e cb req (uploadLength req) (w_db w)") auto
  obtain x w1 where rc: "receive hp e (reqHeader req ''X-CBFS-Hash'') ps re w = Ret (x, w1)"
    using assms False a by (cases "receive hp e (reqHeader req ''X-CBFS-Hash'') ps re w") (auto simp: putUserFile_def)
  have "w_fs w' = w_fs w1"
  proof (cases x)
    case (Inr y)
    then show ?thesis using assms False a rc
      by (auto simp: putUserFile_def dest: finishUpload_fs split: sum.splits go.splits option.splits prod.splits)
  qed (use assms False a rc in \<open>simp add: putUserFile_def\<close>)
  with rc show ?thesis by blast
qed (use assms in \<open>simp add: putUserFile_def\<close>)

lemma readRemote_store:
  assumes "readRemote hp e cb oid body re w = Ret w'" and "oid \<noteq> []" and "store_ok s (e_root e) (w_fs w)"
    and "getHash (hp_sm hp) e = Some s" and "\<And>x. 1 \<le> length (s x)" and "tmp_ok e (fe_tmp (hp_fe hp))" and "fe_wfail (hp_fe hp) = None"
  shows "store_ok s (e_root e) (w_fs w')"
proof -
  consider "w' = w" | l er where
    "cacheBody (hp_sm hp) e cb (fe_clk (hp_fe hp)) (fe_tmp (hp_fe hp)) None oid l body re w = Ret (er, w')"
    using assms(1,7) by (auto simp: readRemote_def Let_def split: sum.splits if_splits go.splits)
  then show ?thesis
  proof cases
    case 2
    from cacheBody_objects [OF 2 assms(6,4,5) assms(5,2)] assms(3) show ?thesis by blast
  qed (use assms(3) in simp)
qed

lemma doGetUserDoc_store:
  assumes "doGetUserDoc hp e cb req w = Ret (r, w')" and "store_ok s (e_root e) (w_fs w)"
    and "getHash (hp_sm hp) e = Some s" and "\<And>x. 1 \<le> length (s x)" and "tmp_ok e (fe_tmp (hp_fe hp))" and "fe_wfail (hp_fe hp) = None"
  shows "store_ok s (e_root e) (w_fs w')"
proof -
  consider "w_fs w' = w_fs w" | path oid m hs hdr where "serveFile hp e cb req path oid m hs hdr w = Ret (r, w')"
    using assms(1) by (auto simp: doGetUserDoc_def Let_def split: prod.splits sum.splits if_splits)
  then show ?thesis
  proof cases
    case 2
    then have oid: "oid \<noteq> []"
      by (auto simp: serveFile_def openBlob_def openLocalBlob_def hashFilename_def Let_def)
    have "w_fs w' = w_fs w \<or> (\<exists>c re. readRemote hp e cb oid c re (w\<lparr>w_db := recordBlobAccess e cb oid (w_db w)\<rparr>) = Ret w')"
      using 2 by (auto simp: serveFile_def Let_def split: go.splits openRes.splits)
    then show ?thesis
    proof
      assume "\<exists>c re. readRemote hp e cb oid c re (w\<lparr>w_db := recordBlobAccess e cb oid (w_db w)\<rparr>) = Ret w'"
      then obtain c re where "readRemote hp e cb oid c re (w\<lparr>w_db := recordBlobAccess e cb oid (w_db w)\<rparr>) = Ret w'" by blast
      from readRemote_store [OF this oid _ assms(3-6)] assms(2) show ?thesis by simp
    qed (use assms(2) in simp)
  qed (use assms(2) in simp)
qed

lemma copyBlob_store:
  assumes "copyBlob sm e cb fe oid w = Ret (c, er, w')" and "store_ok s (e_root e) (w_fs w)"
    and "getHash sm e = Some s" and "\<And>x. 1 \<le> length (s x)" and "tmp_ok e (fe_tmp fe)" and "fe_wfail fe = None"
  shows "store_ok s (e_root e) (w_fs w')"
proof -
  have oid: "oid \<noteq> []" using assms(1) by (auto simp: copyBlob_def openLocalBlob_def hashFilename_def)
  consider "w' = w" | er' st' b where "getBlobFromRemote sm e cb fe oid (e_cachePercentage e) w = Ret (er', st', b, w')"
    using assms(1) by (auto simp: copyBlob_def split: go.splits sum.splits)
  then show ?thesis
  proof cases
    case 2
    from getBlobFromRemote_objects [OF 2 assms(5,6,3,4) oid] assms(2) show ?thesis by blast
  qed (use assms(2) in simp)
qed
lemma zipLoop_store:
  assumes "zipLoop sm e cb fe wr files out w = Ret (ms, ok, w')" and "store_ok s (e_root e) (w_fs w)"
    and "getHash sm e = Some s" and "\<And>x. 1 \<le> length (s x)" and "tmp_ok e (fe_tmp fe)" and "fe_wfail fe = None"
  shows "store_ok s (e_root e) (w_fs w')"
  using assms(1,2)
proof (induction files arbitrary: out w)
  case (Cons nf nfs)
  show ?case
  proof (cases "nf_err nf \<noteq> None \<or> wr (length out) \<noteq> None")
    case True
    with Cons show ?thesis by (auto split: if_splits)
  next
    case False
    with Cons.prems obtain c er w1 where c: "copyBlob sm e cb fe (fm_OID (nf_meta nf)) w = Ret (c, er, w1)"
      by (auto split: go.splits)
    from copyBlob_store [OF c Cons.prems(2) assms(3-6)] Cons False c show ?thesis by (auto split: option.splits)
  qed
qed simp

lemma tarLoop_store:
  assumes "tarLoop sm e cb fe wr short files out w = Ret (ms, ok, w')" and "store_ok s (e_root e) (w_fs w)"
    and "getHash sm e = Some s" and "\<And>x. 1 \<le> length (s x)" and "tmp_ok e (fe_tmp fe)" and "fe_wfail fe = None"
  shows "store_ok s (e_root e) (w_fs w')"
  using assms(1,2)
proof (induction files arbitrary: short out w)
  case (Cons nf nfs)
  show ?case
  proof (cases "nf_err nf \<noteq> None \<or> short \<or> wr (length out) \<noteq> None")
    case True
    with Cons show ?thesis by auto
  next
    case False
    with Cons.prems obtain c er w1 where c: "copyBlob sm e cb fe (fm_OID (nf_meta nf)) w = Ret (c, er, w1)"
      by (auto split: go.splits)
    from copyBlob_store [OF c Cons.prems(2) assms(3-6)] Cons False c show ?thesis by (auto simp: Let_def split: if_splits)
  qed
qed simp

lemma backupToCBFS_store:
  assumes "backupToCBFS sm e cb be fn w = Some (Ret (er, w'))" and "store_ok s (e_root e) (w_fs w)"
    and "getHash sm e = Some s" and "\<And>x. 1 \<le> length (s x)" and "tmp_ok e (be_tmp be)"
  shows "store_ok s (e_root e) (w_fs w')"
proof (cases "be_tmp be")
  case (Inl x)
  with assms(1,2) show ?thesis by (simp add: backupToCBFS_def NewHashRecord_def)
next
  case (Inr name)
  then obtain y where t: "name = e_root e @ ''/tmp'' @ y" using assms(5) by (auto simp: tmp_ok_def)
  obtain h0 f0 where n: "NewHashRecord sm e (Inr name) [] (w_fs w) = (Inr h0, f0)" by (simp add: NewHashRecord_def)
  note ok = NewHashRecord_ok [OF n assms(3) t]
  then have f0: "store_ok s (e_root e) f0" using assms(2) by (simp add: store_ok_objects)
  from assms(1) n Inr obtain ps rerr r k h1 f1 where p: "hrProcess ps rerr (be_fcloseErr be) h0 f0 = Ret (r, k, h1, f1)"
    and w': "objects (e_root e) (w_fs w') = objects (e_root e) (hrClose (Some h1) f1)"
    by (auto simp: backupToCBFS_def dest: linkBackup_objects split: option.splits prod.splits go.splits sum.splits)
  from hrProcess_keeps_store [OF _ _ p assms(4) f0] ok w' show ?thesis by (simp add: store_ok_objects)
qed

lemma doBackupDocs_store:
  assumes "doBackupDocs sm e cb be req w = Some (Ret (r, w'))" and "store_ok s (e_root e) (w_fs w)"
    and "getHash sm e = Some s" and "\<And>x. 1 \<le> length (s x)" and "tmp_ok e (be_tmp be)"
  shows "store_ok s (e_root e) (w_fs w')"
proof -
  consider "w' = w" | er fn where "backupToCBFS sm e cb be fn w = Some (Ret (er, w'))"
    using assms(1) by (auto simp: doBackupDocs_def Let_def split: if_splits option.splits go.splits)
  then show ?thesis
  proof cases
    case 2
    from backupToCBFS_store [OF 2 assms(2-5)] show ?thesis .
  qed (use assms(2) in simp)
qed
text \<open>An answer that leaves the root and the store as they must be.\<close>

definition keeps :: "(string \<Rightarrow> string) \<Rightarrow> 'db server \<Rightarrow> (response \<times> 'db server) go option \<Rightarrow> bool" where
  "keeps s sv x \<longleftrightarrow>
     (\<forall>r sv'. x = Some (Ret (r, sv')) \<longrightarrow> e_root (sv_env sv') = e_root (sv_env sv) \<and>
        (store_ok s (e_root (sv_env sv)) (w_fs (sv_w sv)) \<longrightarrow> store_ok s (e_root (sv_env sv)) (w_fs (sv_w sv'))))"

lemma keeps_if: "keeps s sv x \<Longrightarrow> keeps s sv y \<Longrightarrow> keeps s sv (if P then x else y)"
  by simp

lemma keeps_reads: "keeps s sv (reads sv r)" "keeps s sv (readsGo sv x)" "keeps s sv (inDb sv y)"
  by (auto simp: keeps_def reads_def readsGo_def inDb_def split: go.splits)

lemma keeps_inWorld:
  assumes "\<And>r w'. x = Ret (r, w') \<Longrightarrow> store_ok s (e_root (sv_env sv)) (w_fs (sv_w sv)) \<Longrightarrow> store_ok s (e_root (sv_env sv)) (w_fs w')"
  shows "keeps s sv (inWorld sv x)"
  using assms by (auto simp: keeps_def inWorld_def split: go.splits)

lemma keeps_overFiles: "(\<And>files. keeps s sv (k files)) \<Longrightarrow> keeps s sv (overFiles ae sv path k)"
  by (auto simp: overFiles_def keeps_def split: option.splits)

lemma updateConfig_root: "updateConfig tt e cb d = Ret (er, e') \<Longrightarrow> e_root e' = e_root e"
  by (auto simp: updateConfig_def split: setRes.splits)

lemmas keeps_intros = keeps_if keeps_reads keeps_inWorld keeps_overFiles

lemma doPut_keeps: "store_env s ae (sv_env sv) \<Longrightarrow> keeps s sv (doPut ae req sv)"
proof -
  assume en: "store_env s ae (sv_env sv)"
  let ?e = "sv_env sv" and ?hp = "ae_hp ae" and ?w = "sv_w sv"
  have rc: "store_ok s (e_root ?e) (w_fs ?w) \<Longrightarrow> receive ?hp ?e h ps re ?w = Ret (x, w') \<Longrightarrow> store_ok s (e_root ?e) (w_fs w')" for h ps re x w'
    using en receive_keeps_store [of ?hp ?e h ps re ?w x w' s] by (simp add: store_env_def)
  have raw: "putRawHash ?hp ?e (ae_cb ae) req ?w = Ret (r, w') \<Longrightarrow> store_ok s (e_root ?e) (w_fs ?w) \<Longrightarrow> store_ok s (e_root ?e) (w_fs w')" for r w'
    by (auto simp: putRawHash_def Let_def dest: rc split: if_splits go.splits sum.splits prod.splits option.splits)
  have user: "putUserFile ?hp ?e (ae_cb ae) req ?w = Ret (r, w') \<Longrightarrow> store_ok s (e_root ?e) (w_fs ?w) \<Longrightarrow> store_ok s (e_root ?e) (w_fs w')" for r w'
    using putUserFile_fs [of ?hp ?e "ae_cb ae" req ?w r w'] rc by auto
  have conf: "keeps s sv (Some (case putConfig tt ?e cb inp d of Panic \<Rightarrow> Panic
      | Ret (r, e', d') \<Rightarrow> Ret (r, sv\<lparr>sv_env := e', sv_w := ?w\<lparr>w_db := d'\<rparr>\<rparr>)))" for tt cb inp d
    by (auto simp: keeps_def putConfig_def dest: updateConfig_root split: setRes.splits prod.splits option.splits go.splits)
  show ?thesis
    unfolding doPut_def Let_def by (intro keeps_intros conf) (fact raw user)+
qed

lemma doHead_keeps: "keeps s sv (doHead ae req sv)"
  unfolding doHead_def Let_def
  by (intro keeps_intros) (auto simp: doHeadRawBlob_def split: if_splits go.splits sum.splits option.splits)

lemma doDelete_keeps: "keeps s sv (doDelete ae req sv)"
proof -
  have "keeps s sv (case x of Panic \<Rightarrow> Some Panic | Ret r \<Rightarrow> inDb sv r)" for x
    by (cases x) (auto simp: keeps_def inDb_def)
  then show ?thesis
    unfolding doDelete_def Let_def by (intro keeps_intros) (rule doDeleteOID_store, assumption+)
qed

lemma doPost_keeps: "store_env s ae (sv_env sv) \<Longrightarrow> keeps s sv (doPost ae req sv)"
proof -
  assume en: "store_env s ae (sv_env sv)"
  let ?e = "sv_env sv" and ?hp = "ae_hp ae" and ?w = "sv_w sv"
  have raw: "doPostRawBlob ?hp ?e (ae_cb ae) req ?w = Ret (r, w') \<Longrightarrow> store_ok s (e_root ?e) (w_fs ?w) \<Longrightarrow> store_ok s (e_root ?e) (w_fs w')" for r w'
    using en receive_keeps_store [of ?hp ?e "[]" "rq_Body req" "rq_BodyErr req" ?w]
    by (fastforce simp: doPostRawBlob_def store_env_def split: go.splits sum.splits prod.splits option.splits)
  have mark: "keeps s sv (Some (case doMarkBackup tt jt ce ?e cb sha1 req ?w of Panic \<Rightarrow> Panic
      | Ret (r, sent, w') \<Rightarrow> Ret (r, sv\<lparr>sv_w := w', sv_sent := sv_sent sv @ sent\<rparr>)))" for tt jt ce cb sha1
    by (auto simp: keeps_def doMarkBackup_def Let_def store_ok_objects dest: recordBackupObject_objects split: go.splits option.splits)
  have ind: "keeps s sv (case doInduceTask t (sv_ind sv) of (r, ind') \<Rightarrow> Some (Ret (r, sv\<lparr>sv_ind := ind'\<rparr>)))" for t
    by (auto simp: keeps_def split: prod.splits)
  have bk: "keeps s sv (case doBackupDocs (hp_sm ?hp) ?e cb (ae_be ae) req ?w of None \<Rightarrow> None | Some r \<Rightarrow> inWorld sv r)" for cb
  proof (cases "doBackupDocs (hp_sm ?hp) ?e cb (ae_be ae) req ?w")
    case (Some x)
    have "keeps s sv (inWorld sv x)"
      using en doBackupDocs_store [of "hp_sm ?hp" ?e cb "ae_be ae" req ?w _ _ s] Some
      by (intro keeps_inWorld) (auto simp: store_env_def)
    with Some show ?thesis by simp
  qed (simp add: keeps_def)
  show ?thesis
    unfolding doPost_def Let_def by (intro keeps_intros mark ind bk) (fact raw)
qed
lemma doGet_keeps: "store_env s ae (sv_env sv) \<Longrightarrow> keeps s sv (doGet ae req sv)"
proof -
  assume en: "store_env s ae (sv_env sv)"
  let ?e = "sv_env sv" and ?hp = "ae_hp ae" and ?w = "sv_w sv"
  note h = en [unfolded store_env_def]
  have conf: "keeps s sv (Some (case doGetConfig tt ?e cb d of Panic \<Rightarrow> Panic | Ret (r, e') \<Rightarrow> Ret (r, sv\<lparr>sv_env := e'\<rparr>)))" for tt cb d
    by (auto simp: keeps_def doGetConfig_def dest: updateConfig_root split: go.splits)
  have fetch: "Ret (doFetchDoc ?hp ?e cb req p ?w) = Ret (r, w') \<Longrightarrow> store_ok s (e_root ?e) (w_fs ?w) \<Longrightarrow> store_ok s (e_root ?e) (w_fs w')" for cb p r w'
    by (auto simp: doFetchDoc_def split: sum.splits if_splits prod.splits bool.splits)
  have raw: "doServeRawBlob ?hp ?e cb req p ?w = Ret (r, w') \<Longrightarrow> store_ok s (e_root ?e) (w_fs ?w) \<Longrightarrow> store_ok s (e_root ?e) (w_fs w')" for cb p r w'
    by (auto simp: doServeRawBlob_def split: if_splits go.splits sum.splits)
  have user: "doGetUserDoc ?hp ?e cb req ?w = Ret (r, w') \<Longrightarrow> store_ok s (e_root ?e) (w_fs ?w) \<Longrightarrow> store_ok s (e_root ?e) (w_fs w')" for cb r w'
    using h doGetUserDoc_store [of ?hp ?e cb req ?w r w' s] by simp
  have zip: "keeps s sv (inWorld sv (case doZipDocs (hp_sm ?hp) ?e cb (hp_fe ?hp) wr files ?w of Panic \<Rightarrow> Panic
      | Ret (ms, _, w') \<Rightarrow> Ret (archiveResponse hd ms, w')))" for cb wr files hd
    using h zipLoop_store [of "hp_sm ?hp" ?e cb "hp_fe ?hp" wr files "[]" ?w]
    by (intro keeps_inWorld) (auto simp: doZipDocs_def split: go.splits)
  have tar: "keeps s sv (inWorld sv (case doTarDocs (hp_sm ?hp) ?e cb (hp_fe ?hp) wr files ?w of Panic \<Rightarrow> Panic
      | Ret (ms, _, w') \<Rightarrow> Ret (archiveResponse hd ms, w')))" for cb wr files hd
    using h tarLoop_store [of "hp_sm ?hp" ?e cb "hp_fe ?hp" wr False files "[]" ?w]
    by (intro keeps_inWorld) (auto simp: doTarDocs_def split: go.splits)
  show ?thesis
    unfolding doGet_def Let_def
    by (intro keeps_if keeps_reads keeps_overFiles conf zip tar) (rule keeps_inWorld, (erule fetch raw user, assumption))+
qed

lemma httpHandler_keeps: "store_env s ae (sv_env sv) \<Longrightarrow> keeps s sv (httpHandler ae req sv)"
  unfolding httpHandler_def
  by (intro keeps_if keeps_reads doPut_keeps doPost_keeps doGet_keeps doHead_keeps doDelete_keeps)

text \<open>
  A node that serves requests one after another, in surroundings that change from one to the next.
\<close>

inductive served :: "(string \<Rightarrow> string) \<Rightarrow> 'db server \<Rightarrow> 'db server \<Rightarrow> bool" for s sv0 where
  start: "served s sv0 sv0"
| request: "served s sv0 sv \<Longrightarrow> store_env s ae (sv_env sv) \<Longrightarrow> httpHandler ae req sv = Some (Ret (r, sv')) \<Longrightarrow> served s sv0 sv'"

section \<open>Properties\<close>

text \<open>
  C3: no sequence of requests breaks the store. Whatever requests a node answers, in whatever order and
  with whatever contents, as long as the configured hash stays the same, every object of a store that
  was content-addressed at the start is still named by the hash of its bytes.
\<close>

theorem requests_keep_store:
  assumes "served s sv0 sv" and "store_ok s (e_root (sv_env sv0)) (w_fs (sv_w sv0))"
  shows "e_root (sv_env sv) = e_root (sv_env sv0) \<and> store_ok s (e_root (sv_env sv0)) (w_fs (sv_w sv))"
  using assms(1)
proof induction
  case (request sv ae req r sv')
  from httpHandler_keeps [OF request.hyps(2), of req] request.hyps(3) request.IH show ?case
    by (auto simp: keeps_def)
qed (use assms(2) in simp)
definition aBackupEnv :: "memdb backupEnv" where
  "aBackupEnv = \<lparr>be_tt = (\<lambda>t. ''t''), be_jt = (\<lambda>j. ''j''), be_gzip = (\<lambda>js. ''z''), be_evs = [], be_wr = (\<lambda>n. None),
     be_closeErr = None, be_tmp = Inr ''/data/tmp2'', be_wfail = None, be_fcloseErr = None, be_crErr = None, be_clk = (\<lambda>n. 77),
     be_now = 78, be_sha1 = sha1_0\<rparr>"

definition anApi :: "memdb apiEnv" where
  "anApi = \<lparr>ae_cb = memBucket noView, ae_hp = aHttp, ae_be = aBackupEnv, ae_parse = (\<lambda>r. RText []), ae_formErr = None,
     ae_walk = [], ae_frames = JArr [],
     ae_vp = \<lparr>vp_nodes = [], vp_rnd = (\<lambda>n. 0), vp_parses = (\<lambda>u. True), vp_get = (\<lambda>b p. Inl EJson)\<rparr>,
     ae_enableViewProxy = False, ae_enableCRUDProxy = False, ae_evs = (\<lambda>p d. []), ae_wr = (\<lambda>n. None), ae_fuel = 1,
     ae_debug = (\<lambda>r. statusOnly 200)\<rparr>"

definition aServer :: "memdb server" where
  "aServer = \<lparr>sv_env = anEnv, sv_w = aWorld [], sv_ind = [], sv_sent = []\<rparr>"

theorem requests_keep_store_witness:
  "\<exists>r sv. httpHandler anApi aPut aServer = Some (Ret (r, sv)) \<and> rs_Status r = 201 \<and>
     store_ok (sum0 ''sha1'') ''/data'' (w_fs (sv_w sv))"
proof -
  have "case httpHandler anApi aPut aServer of Some (Ret (r, sv)) \<Rightarrow> rs_Status r = 201 | _ \<Rightarrow> False" by code_simp
  then obtain r sv where r: "httpHandler anApi aPut aServer = Some (Ret (r, sv))" "rs_Status r = 201"
    by (auto split: option.splits go.splits)
  have "store_env (sum0 ''sha1'') anApi (sv_env aServer)"
    using anEnv_hash
    by (auto simp: store_env_def anApi_def aServer_def aHttp_def sum0_def aBackupEnv_def aFetchEnv_def tmp_ok_def anEnv_def
        intro: exI [of _ "''1''"] exI [of _ "''2''"])
  from served.request [OF served.start this r(1)] have s: "served (sum0 ''sha1'') aServer sv" .
  have "store_ok (sum0 ''sha1'') (e_root (sv_env aServer)) (w_fs (sv_w aServer))"
    by (simp add: aServer_def aWorld_def store_ok_def)
  from requests_keep_store [OF s this] r show ?thesis by (auto simp: aServer_def anEnv_def)
qed

text \<open>The paths of the interface; every one begins with the prefix of the interface.\<close>

definition apiPaths :: "string list" where
  "apiPaths =
     [blobPrefix, blobInfoPath, nodePrefix, metaPrefix, proxyPrefix, crudproxyPrefix, fetchPrefix, listPrefix, configPrefix,
      zipPrefix, tarPrefix, fsckPrefix, taskPrefix, taskinfoPrefix, pingPrefix, fileInfoPrefix, framePrefix, markBackupPrefix,
      restorePrefix, backupStrmPrefix, backupPrefix, quitPrefix, debugPrefix]"

lemma api_paths:
  assumes "\<not> hasPrefix p apiPrefix"
    and "x \<in> set apiPaths"
  shows "\<not> hasPrefix p x \<and> p \<noteq> x"
proof -
  have "hasPrefix x apiPrefix" using assms(2) by (auto simp: apiPaths_def prefix_defs hasPrefix_def)
  then obtain y where "x = apiPrefix @ y" by (auto simp: hasPrefix_iff)
  with assms(1) show ?thesis by (auto simp: hasPrefix_iff)
qed

lemma user_path_routed:
  assumes "\<not> hasPrefix (rq_Path req) apiPrefix"
  shows "httpHandler ae req sv =
     (if rq_Method req = ''PUT'' then inWorld sv (putUserFile (ae_hp ae) (sv_env sv) (ae_cb ae) req (sv_w sv))
      else if rq_Method req = ''POST'' then inDb sv (doLinkFile (ae_hp ae) (ae_cb ae) req (w_db (sv_w sv)))
      else if rq_Method req = ''GET'' then inWorld sv (doGetUserDoc (ae_hp ae) (sv_env sv) (ae_cb ae) req (sv_w sv))
      else if rq_Method req = ''HEAD'' then reads sv (doHeadUserFile (ae_hp ae) (ae_cb ae) req (w_db (sv_w sv)))
      else if rq_Method req = ''DELETE''
      then (case doDeleteUserDoc (ae_hp ae) (ae_cb ae) req (w_db (sv_w sv)) of Panic \<Rightarrow> Some Panic | Ret r \<Rightarrow> inDb sv r)
      else Some (Ret (statusOnly 405, sv)))"
  by (simp add: httpHandler_def doPut_def doPost_def doGet_def doHead_def doDelete_def reads_def api_paths [OF assms] assms apiPaths_def)

text \<open>
  C20: the names of files and the paths of the interface do not meet. A request whose path is not below
  the prefix of the interface reaches exactly the handler for files of its method, and any other method
  is refused; below the prefix, a request the interface does not know is refused with 400, and the node
  is as before.
\<close>

theorem paths_routed:
  "(\<not> hasPrefix (rq_Path req) apiPrefix \<longrightarrow>
      httpHandler ae req sv =
        (if rq_Method req = ''PUT'' then inWorld sv (putUserFile (ae_hp ae) (sv_env sv) (ae_cb ae) req (sv_w sv))
         else if rq_Method req = ''POST'' then inDb sv (doLinkFile (ae_hp ae) (ae_cb ae) req (w_db (sv_w sv)))
         else if rq_Method req = ''GET'' then inWorld sv (doGetUserDoc (ae_hp ae) (sv_env sv) (ae_cb ae) req (sv_w sv))
         else if rq_Method req = ''HEAD'' then reads sv (doHeadUserFile (ae_hp ae) (ae_cb ae) req (w_db (sv_w sv)))
         else if rq_Method req = ''DELETE''
         then (case doDeleteUserDoc (ae_hp ae) (ae_cb ae) req (w_db (sv_w sv)) of Panic \<Rightarrow> Some Panic | Ret r \<Rightarrow> inDb sv r)
         else Some (Ret (statusOnly 405, sv)))) \<and>
   (hasPrefix (rq_Path req) apiPrefix \<and> rq_Method req \<in> {''PUT'', ''POST'', ''GET'', ''HEAD'', ''DELETE''} \<and>
      (\<forall>x \<in> set apiPaths. \<not> hasPrefix (rq_Path req) x) \<longrightarrow>
      (\<exists>r. httpHandler ae req sv = Some (Ret (r, sv)) \<and> rs_Status r = 400))"
proof (intro conjI impI)
  assume p: "\<not> hasPrefix (rq_Path req) apiPrefix"
  from user_path_routed [OF this] show "httpHandler ae req sv =
        (if rq_Method req = ''PUT'' then inWorld sv (putUserFile (ae_hp ae) (sv_env sv) (ae_cb ae) req (sv_w sv))
         else if rq_Method req = ''POST'' then inDb sv (doLinkFile (ae_hp ae) (ae_cb ae) req (w_db (sv_w sv)))
         else if rq_Method req = ''GET'' then inWorld sv (doGetUserDoc (ae_hp ae) (sv_env sv) (ae_cb ae) req (sv_w sv))
         else if rq_Method req = ''HEAD'' then reads sv (doHeadUserFile (ae_hp ae) (ae_cb ae) req (w_db (sv_w sv)))
         else if rq_Method req = ''DELETE''
         then (case doDeleteUserDoc (ae_hp ae) (ae_cb ae) req (w_db (sv_w sv)) of Panic \<Rightarrow> Some Panic | Ret r \<Rightarrow> inDb sv r)
         else Some (Ret (statusOnly 405, sv)))" .
next
  assume a: "hasPrefix (rq_Path req) apiPrefix \<and> rq_Method req \<in> {''PUT'', ''POST'', ''GET'', ''HEAD'', ''DELETE''} \<and>
      (\<forall>x \<in> set apiPaths. \<not> hasPrefix (rq_Path req) x)"
  have eq: "\<not> hasPrefix (rq_Path req) x \<Longrightarrow> rq_Path req \<noteq> x" for x by (auto simp: hasPrefix_iff)
  from a show "\<exists>r. httpHandler ae req sv = Some (Ret (r, sv)) \<and> rs_Status r = 400"
    by (auto simp: httpHandler_def doPut_def doPost_def doGet_def doHead_def doDelete_def reads_def httpError_def eq apiPaths_def)
qed

theorem paths_routed_witness:
  "httpHandler anApi aGet aServer = inWorld aServer (doGetUserDoc aHttp anEnv (memBucket noView) aGet (aWorld []))"
proof -
  have "\<not> hasPrefix (rq_Path aGet) apiPrefix" "rq_Method aGet = ''GET''" by code_simp+
  with paths_routed [of aGet anApi aServer] show ?thesis by (simp add: anApi_def aServer_def)
qed

end
