(* ===== verification/Multi_Reader.thy ===== *)
theory Multi_Reader
  imports Nodes "HOL-Library.Sublist"
begin

text \<open>
  The readers of \<open>src/ioutil.go\<close>: a body that two consumers read at once, the request to the second node
  of an upload and the local store, and the maker of random data.

  The two consumers share a synchronous pipe of the language's \<open>io\<close> package: a write waits until it was
  read or the pipe is closed. The state holds the results the source has still to give, the write in
  progress, and what each consumer has been given; a step is one action of either consumer, or a closing
  by the request or by the timer. Every interleaving is a sequence of steps. The lemmas show that the
  store is never behind the second node, that both get the whole body when nobody closes the pipe, and
  that the two consumers never wait for each other for ever.
\<close>

section \<open>The state\<close>

datatype ioerr = EOF | ErrClosedPipe | IoErr gerr

text \<open>
  \<open>cp_r\<close> is what the source's \<open>Read\<close> gives, call by call; \<open>cp_write\<close> the bytes of the write in progress
  that were read, those that were not, and the error the source gave along with them; \<open>cp_out\<close> and
  \<open>cp_end\<close> what \<open>Read\<close> gave to the request so far, \<open>ad_out\<close> and \<open>ad_end\<close> what the adaptor gave to the store.
\<close>

record closingPipe =
  cp_r :: "(string \<times> ioerr option) list"
  cp_rerr :: "ioerr option"
  cp_werr :: "ioerr option"
  cp_err :: "ioerr option"
  cp_write :: "(string \<times> string \<times> ioerr option) option"
  cp_out :: string
  cp_end :: "ioerr option"
  ad_out :: string
  ad_end :: "ioerr option"

definition newMultiReader :: "(string \<times> ioerr option) list \<Rightarrow> closingPipe" where
  "newMultiReader r =
     \<lparr>cp_r = r, cp_rerr = None, cp_werr = None, cp_err = None, cp_write = None, cp_out = [], cp_end = None,
      ad_out = [], ad_end = None\<rparr>"

section \<open>The pipe\<close>

text \<open>The first error an end is closed with stays.\<close>

definition closeR :: "ioerr \<Rightarrow> closingPipe \<Rightarrow> closingPipe" where
  "closeR er s = (if cp_rerr s = None then s\<lparr>cp_rerr := Some er\<rparr> else s)"

definition closeW :: "ioerr \<Rightarrow> closingPipe \<Rightarrow> closingPipe" where
  "closeW er s = (if cp_werr s = None then s\<lparr>cp_werr := Some er\<rparr> else s)"

definition CloseWithError :: "ioerr \<Rightarrow> closingPipe \<Rightarrow> closingPipe" where
  "CloseWithError er s = closeW er (closeR er (s\<lparr>cp_err := Some er\<rparr>))"

definition cpClose :: "closingPipe \<Rightarrow> closingPipe" where
  "cpClose s = CloseWithError EOF s"

definition pipeClosed :: "closingPipe \<Rightarrow> bool" where
  "pipeClosed s \<longleftrightarrow> cp_rerr s \<noteq> None \<or> cp_werr s \<noteq> None"

definition writeCloseError :: "closingPipe \<Rightarrow> ioerr" where
  "writeCloseError s =
     (case cp_werr s of
        None \<Rightarrow> (case cp_rerr s of Some er \<Rightarrow> er | None \<Rightarrow> ErrClosedPipe)
      | Some _ \<Rightarrow> ErrClosedPipe)"

definition readCloseError :: "closingPipe \<Rightarrow> ioerr" where
  "readCloseError s =
     (case cp_rerr s of
        None \<Rightarrow> (case cp_werr s of Some er \<Rightarrow> er | None \<Rightarrow> ErrClosedPipe)
      | Some _ \<Rightarrow> ErrClosedPipe)"

section \<open>The two readers\<close>

text \<open>\<open>Read\<close> after a successful write, and after a failed one.\<close>

definition readDone :: "string \<Rightarrow> ioerr option \<Rightarrow> closingPipe \<Rightarrow> closingPipe" where
  "readDone x er s =
     (let s' = (case er of None \<Rightarrow> s | Some e \<Rightarrow> CloseWithError e s)
      in s'\<lparr>cp_write := None, cp_out := cp_out s @ x, cp_end := er\<rparr>)"

definition readFailed :: "string \<Rightarrow> closingPipe \<Rightarrow> closingPipe" where
  "readFailed x s = s\<lparr>cp_write := None, cp_out := cp_out s @ x, cp_end := Some (writeCloseError s)\<rparr>"

definition startRead :: "closingPipe \<Rightarrow> closingPipe" where
  "startRead s =
     (case cp_r s of
        [] \<Rightarrow> s
      | (x, er) # rs \<Rightarrow>
          (let s1 = s\<lparr>cp_r := rs\<rparr> in
           if x = [] then readDone [] er s1
           else if pipeClosed s1 then readFailed [] s1
           else s1\<lparr>cp_write := Some ([], x, er)\<rparr>))"

definition finishRead :: "closingPipe \<Rightarrow> closingPipe" where
  "finishRead s =
     (case cp_write s of
        None \<Rightarrow> s
      | Some (y, z, er) \<Rightarrow> if z = [] then readDone y er s else readFailed y s)"

text \<open>The adaptor, with a buffer of \<open>k\<close> bytes.\<close>

definition adaptErr :: "ioerr \<Rightarrow> ioerr" where
  "adaptErr er = (if er = ErrClosedPipe then EOF else er)"

definition adaptorRead :: "nat \<Rightarrow> closingPipe \<Rightarrow> closingPipe" where
  "adaptorRead k s =
     (if pipeClosed s then s\<lparr>ad_end := Some (adaptErr (readCloseError s))\<rparr>
      else (case cp_write s of
              None \<Rightarrow> s
            | Some (y, z, er) \<Rightarrow> s\<lparr>cp_write := Some (y @ take k z, drop k z, er), ad_out := ad_out s @ take k z\<rparr>))"

section \<open>Steps\<close>

text \<open>The moves of the two consumers: neither reads on after an error.\<close>

inductive mrMove :: "closingPipe \<Rightarrow> closingPipe \<Rightarrow> bool" where
  start: "cp_write s = None \<Longrightarrow> cp_end s = None \<Longrightarrow> cp_r s \<noteq> [] \<Longrightarrow> mrMove s (startRead s)"
| finish: "cp_write s = Some (y, z, er) \<Longrightarrow> z = [] \<or> pipeClosed s \<Longrightarrow> mrMove s (finishRead s)"
| local: "ad_end s = None \<Longrightarrow> 0 < k \<Longrightarrow> pipeClosed s \<or> (\<exists>y z er. cp_write s = Some (y, z, er) \<and> z \<noteq> []) \<Longrightarrow>
    mrMove s (adaptorRead k s)"

text \<open>
  Closing, by the request or by the timer of a write, closes the reading end first; between the two a
  consumer may move.
\<close>

inductive mrStep :: "closingPipe \<Rightarrow> closingPipe \<Rightarrow> bool" where
  move: "mrMove s t \<Longrightarrow> mrStep s t"
| close_reader: "mrStep s (closeR er (s\<lparr>cp_err := Some er\<rparr>))"
| close_writer: "cp_rerr s \<noteq> None \<Longrightarrow> mrStep s (closeW er s)"

abbreviation mrReach :: "(string \<times> ioerr option) list \<Rightarrow> closingPipe \<Rightarrow> bool" where
  "mrReach src s \<equiv> mrStep\<^sup>*\<^sup>* (newMultiReader src) s"

lemmas mr_defs = newMultiReader_def closeR_def closeW_def CloseWithError_def pipeClosed_def readDone_def readFailed_def
  startRead_def finishRead_def adaptorRead_def adaptErr_def readCloseError_def Let_def

section \<open>Invariant\<close>

definition bytes :: "(string \<times> ioerr option) list \<Rightarrow> string" where
  "bytes src = concat (map fst src)"

text \<open>
  What the store was given is what the request was given and the part of the write in progress that was
  read; the rest of the body is still to come, unless a write was broken off; the writing end is not
  closed before the reading end.
\<close>

definition mr_inv :: "string \<Rightarrow> closingPipe \<Rightarrow> bool" where
  "mr_inv body s \<longleftrightarrow>
     ad_out s = cp_out s @ (case cp_write s of None \<Rightarrow> [] | Some (y, z, er) \<Rightarrow> y) \<and>
     (cp_end s = None \<longrightarrow> ad_out s @ (case cp_write s of None \<Rightarrow> [] | Some (y, z, er) \<Rightarrow> z) @ bytes (cp_r s) = body) \<and>
     (cp_end s \<noteq> None \<longrightarrow> cp_write s = None \<and> prefix (ad_out s) body) \<and>
     (cp_werr s \<noteq> None \<longrightarrow> cp_rerr s \<noteq> None) \<and>
     (ad_end s = None \<or> ad_end s = Some EOF)"

lemma mr_inv_start: "mr_inv (bytes src) (newMultiReader src)"
  by (simp add: mr_inv_def newMultiReader_def)

lemma mr_inv_move: "mrMove s t \<Longrightarrow> mr_inv body s \<Longrightarrow> mr_inv body t"
proof (induction rule: mrMove.induct)
  case (start s)
  then show ?case
    by (cases "cp_r s") (auto simp: mr_inv_def mr_defs bytes_def split: option.splits if_splits)
next
  case (finish s y z er)
  then show ?case by (auto simp: mr_inv_def mr_defs split: option.splits if_splits)
next
  case (local s k)
  then show ?case by (auto simp: mr_inv_def mr_defs split: option.splits if_splits)
qed

lemma mr_inv_step: "mrStep s t \<Longrightarrow> mr_inv body s \<Longrightarrow> mr_inv body t"
proof (induction rule: mrStep.induct)
  case (move s t)
  then show ?case by (rule mr_inv_move)
qed (auto simp: mr_inv_def closeR_def closeW_def split: option.splits)

lemma mr_inv_reach: "mrReach src s \<Longrightarrow> mr_inv (bytes src) s"
  by (induction rule: rtranclp_induct) (auto simp: mr_inv_start intro: mr_inv_step)
section \<open>Progress\<close>

text \<open>What the source still has to give to a reader that is never interrupted: its last result carries the error.\<close>

fun ends :: "ioerr \<Rightarrow> (string \<times> ioerr option) list \<Rightarrow> bool" where
  "ends er [] = False"
| "ends er ((x, e) # rs) = (if rs = [] then e = Some er else e = None \<and> ends er rs)"

definition todo :: "closingPipe \<Rightarrow> (string \<times> ioerr option) list" where
  "todo s = (case cp_write s of None \<Rightarrow> cp_r s | Some (y, z, e) \<Rightarrow> (z, e) # cp_r s)"

text \<open>Nobody but the source ends the reading: the pipe is closed exactly when the source has ended.\<close>

definition undisturbed :: "ioerr \<Rightarrow> string \<Rightarrow> closingPipe \<Rightarrow> bool" where
  "undisturbed er body s \<longleftrightarrow>
     (cp_end s = None \<longrightarrow> \<not> pipeClosed s \<and> ends er (todo s) \<and> ad_end s = None) \<and>
     (cp_end s \<noteq> None \<longrightarrow> cp_end s = Some er \<and> pipeClosed s \<and> cp_out s = body)"

lemma undisturbed_start: "ends er src \<Longrightarrow> undisturbed er (bytes src) (newMultiReader src)"
  by (simp add: undisturbed_def newMultiReader_def todo_def pipeClosed_def)

lemma undisturbed_move:
  assumes "mrMove s t" and "mr_inv body s" and "undisturbed er body s"
  shows "undisturbed er body t"
  using assms
proof (induction rule: mrMove.induct)
  case (start s)
  then show ?case
    by (cases "cp_r s")
      (auto simp: mr_inv_def undisturbed_def todo_def mr_defs bytes_def split: option.splits if_splits)
next
  case (finish s y z e)
  then show ?case
    by (auto simp: mr_inv_def undisturbed_def todo_def mr_defs bytes_def split: option.splits if_splits)
next
  case (local s k)
  then show ?case
    by (auto simp: mr_inv_def undisturbed_def todo_def mr_defs split: option.splits if_splits)
qed

definition left :: "closingPipe \<Rightarrow> nat" where
  "left s =
     2 * length (cp_r s) + length (bytes (cp_r s)) + (case cp_write s of None \<Rightarrow> 0 | Some (y, z, e) \<Rightarrow> Suc (length z)) +
     (if ad_end s = None then 1 else 0)"

lemma move_left: "mrMove s t \<Longrightarrow> left t < left s"
proof (induction rule: mrMove.induct)
  case (start s)
  then show ?case
    by (cases "cp_r s") (auto simp: left_def mr_defs bytes_def split: option.splits if_splits)
next
  case (finish s y z e)
  then show ?case by (auto simp: left_def mr_defs split: option.splits if_splits)
next
  case (local s k)
  then show ?case by (auto simp: left_def mr_defs split: option.splits if_splits)
qed

lemma mr_moves:
  assumes "mrMove\<^sup>*\<^sup>* (newMultiReader src) s" and "ends er src"
  shows "mr_inv (bytes src) s \<and> undisturbed er (bytes src) s"
  using assms(1)
proof (induction rule: rtranclp_induct)
  case base
  from assms(2) show ?case by (simp add: mr_inv_start undisturbed_start)
next
  case (step s t)
  then show ?case using mr_inv_move undisturbed_move by blast
qed

text \<open>Where neither consumer can move, both are done.\<close>

lemma stuck_done:
  assumes "mr_inv body s" and "undisturbed er body s" and "\<nexists>t. mrMove s t"
  shows "cp_out s = body \<and> ad_out s = body \<and> cp_end s = Some er \<and> ad_end s = Some EOF"
proof -
  have c: "cp_end s \<noteq> None"
  proof
    assume n: "cp_end s = None"
    with assms(2) have u: "\<not> pipeClosed s" "ends er (todo s)" "ad_end s = None" by (simp_all add: undisturbed_def)
    show False
    proof (cases "cp_write s")
      case None
      with u(2) have "cp_r s \<noteq> []" by (auto simp: todo_def)
      with mrMove.start [OF None n] assms(3) show False by blast
    next
      case (Some w)
      obtain y z e where w: "w = (y, z, e)" by (cases w)
      show False
      proof (cases "z = []")
        case True
        with mrMove.finish [OF Some [unfolded w]] assms(3) show False by blast
      next
        case False
        with mrMove.local [OF u(3), of 1] Some w assms(3) show False by auto
      qed
    qed
  qed
  with assms(1,2) have "cp_write s = None" and p: "pipeClosed s" and d: "cp_end s = Some er" "cp_out s = body"
    by (auto simp: mr_inv_def undisturbed_def)
  then have "ad_out s = body" using assms(1) by (simp add: mr_inv_def)
  moreover have "ad_end s \<noteq> None" using mrMove.local [of s 1] p assms(3) by auto
  ultimately show ?thesis using d assms(1) by (auto simp: mr_inv_def)
qed

section \<open>The specification\<close>

text \<open>
  What the store sees is a plain copy of the body, piece by piece, until it is stopped; after that
  nothing more arrives.
\<close>

record copier =
  co_rest :: string
  co_done :: string
  co_stopped :: bool

inductive coStep :: "copier \<Rightarrow> copier \<Rightarrow> bool" where
  deliver: "\<not> co_stopped c \<Longrightarrow> co_rest c = x @ r \<Longrightarrow> coStep c (c\<lparr>co_rest := r, co_done := co_done c @ x\<rparr>)"
| stop: "coStep c (c\<lparr>co_stopped := True\<rparr>)"

definition absCopier :: "string \<Rightarrow> closingPipe \<Rightarrow> copier" where
  "absCopier body s =
     \<lparr>co_rest = drop (length (ad_out s)) body, co_done = ad_out s, co_stopped = (cp_rerr s \<noteq> None)\<rparr>"
lemma move_cases:
  assumes "mrMove s t" and "mr_inv body s"
  shows "(cp_rerr s \<noteq> None \<longrightarrow> cp_rerr t \<noteq> None) \<and>
     (ad_out t = ad_out s \<or> (\<exists>x. ad_out t = ad_out s @ x) \<and> cp_rerr s = None \<and> cp_rerr t = None)"
  using assms
proof (induction rule: mrMove.induct)
  case (start s)
  then show ?case by (cases "cp_r s") (auto simp: mr_defs split: option.splits if_splits)
next
  case (finish s y z er)
  then show ?case by (auto simp: mr_defs split: option.splits if_splits)
next
  case (local s k)
  then show ?case by (auto simp: mr_defs split: option.splits if_splits)
qed

lemma step_cases:
  assumes "mrStep s t" and "mr_inv body s"
  shows "(cp_rerr s \<noteq> None \<longrightarrow> cp_rerr t \<noteq> None) \<and>
     (ad_out t = ad_out s \<or> (\<exists>x. ad_out t = ad_out s @ x) \<and> cp_rerr s = None \<and> cp_rerr t = None)"
  using assms
proof (induction rule: mrStep.induct)
  case (move s t)
  from move_cases [OF this] show ?case .
qed (auto simp: closeR_def closeW_def)

lemma mr_inv_prefix: "mr_inv body s \<Longrightarrow> prefix (ad_out s) body"
  by (cases "cp_end s") (auto simp: mr_inv_def)

lemma step_refines:
  assumes "mrStep s t" and "mr_inv body s"
  shows "absCopier body t = absCopier body s \<or> coStep (absCopier body s) (absCopier body t)"
proof -
  note c = step_cases [OF assms]
  have p: "prefix (ad_out t) body" by (rule mr_inv_prefix [OF mr_inv_step [OF assms]])
  show ?thesis
  proof (cases "ad_out t = ad_out s")
    case True
    show ?thesis
    proof (cases "cp_rerr s \<noteq> None \<or> cp_rerr t = None")
      case True
      with c \<open>ad_out t = ad_out s\<close> show ?thesis by (auto simp: absCopier_def)
    next
      case False
      with True have "absCopier body t = (absCopier body s)\<lparr>co_stopped := True\<rparr>" by (simp add: absCopier_def)
      then show ?thesis by (simp add: coStep.stop)
    qed
  next
    case False
    with c obtain x where x: "ad_out t = ad_out s @ x" and n: "cp_rerr s = None" "cp_rerr t = None" by auto
    from p x obtain r where r: "body = ad_out s @ x @ r" by (auto simp: prefix_def)
    have "coStep (absCopier body s) ((absCopier body s)\<lparr>co_rest := r, co_done := co_done (absCopier body s) @ x\<rparr>)"
      by (rule coStep.deliver) (simp_all add: absCopier_def n r)
    moreover have "absCopier body t = (absCopier body s)\<lparr>co_rest := r, co_done := co_done (absCopier body s) @ x\<rparr>"
      by (simp add: absCopier_def n x r)
    ultimately show ?thesis by simp
  qed
qed

section \<open>Properties\<close>

text \<open>
  C21: the store is never behind the second node. In every interleaving of the two consumers, with the
  pipe closed by the request or its timer at any moment, the bytes the request was given are a prefix of
  those the store was given, and these a prefix of the body; the only error the store ever sees is the
  end of the file. So a second node that has the whole body leaves the store with the whole body.
\<close>

theorem multi_reader_agrees:
  assumes "mrReach src s"
  shows "prefix (cp_out s) (ad_out s) \<and> prefix (ad_out s) (bytes src) \<and> (ad_end s = None \<or> ad_end s = Some EOF) \<and>
     (cp_out s = bytes src \<longrightarrow> ad_out s = bytes src)"
proof -
  note i = mr_inv_reach [OF assms]
  have "prefix (cp_out s) (ad_out s)" using i by (simp add: mr_inv_def)
  with i mr_inv_prefix [OF i] show ?thesis by (auto simp: mr_inv_def prefix_order.eq_iff)
qed

definition aSource :: "(string \<times> ioerr option) list" where
  "aSource = [(''hel'', None), (''lo'', Some EOF)]"

theorem multi_reader_agrees_witness:
  "\<exists>s. mrReach aSource s \<and> ad_out s = ''he'' \<and> prefix (cp_out s) ''he'' \<and> ad_end s = Some EOF"
proof -
  let ?s0 = "newMultiReader aSource"
  let ?s1 = "startRead ?s0"
  let ?s2 = "adaptorRead 2 ?s1"
  let ?s3 = "closeR (IoErr EJson) (?s2\<lparr>cp_err := Some (IoErr EJson)\<rparr>)"
  let ?s4 = "adaptorRead 9 ?s3"
  have m1: "mrMove ?s0 ?s1" by (rule mrMove.start) code_simp+
  have m2: "mrMove ?s1 ?s2"
  proof (rule mrMove.local)
    have "cp_write ?s1 = Some ([], ''hel'', None)" by code_simp
    then show "pipeClosed ?s1 \<or> (\<exists>y z er. cp_write ?s1 = Some (y, z, er) \<and> z \<noteq> [])" by simp
  qed code_simp+
  have m4: "mrMove ?s3 ?s4"
  proof (rule mrMove.local)
    have "pipeClosed ?s3" by code_simp
    then show "pipeClosed ?s3 \<or> (\<exists>y z er. cp_write ?s3 = Some (y, z, er) \<and> z \<noteq> [])" by simp
  qed code_simp+
  note mrStep.move [OF m1] mrStep.move [OF m2] mrStep.close_reader [of ?s2 "IoErr EJson"] mrStep.move [OF m4]
  note r = rtranclp_trans [OF rtranclp_trans [OF r_into_rtranclp [of mrStep, OF this(1)] r_into_rtranclp [of mrStep, OF this(2)]]
      rtranclp_trans [OF r_into_rtranclp [of mrStep, OF this(3)] r_into_rtranclp [of mrStep, OF this(4)]]]
  have "ad_out ?s4 = ''he''" "ad_end ?s4 = Some EOF" by code_simp+
  with r multi_reader_agrees [OF r] show ?thesis by metis
qed

text \<open>
  C22: a copy that nobody breaks off is complete. As long as neither the request nor its timer closes the
  pipe, the two consumers cannot go on for ever, every move brings them nearer to the end, and they
  never wait for each other: where no move is left, both were given the whole body, the request the
  error of the source, and the store an end of file.
\<close>

theorem multi_reader_finishes:
  assumes "ends er src" and "mrMove\<^sup>*\<^sup>* (newMultiReader src) s"
  shows "(\<forall>t. mrMove s t \<longrightarrow> left t < left s) \<and>
     ((\<nexists>t. mrMove s t) \<longrightarrow> cp_out s = bytes src \<and> ad_out s = bytes src \<and> cp_end s = Some er \<and> ad_end s = Some EOF)"
  using move_left mr_moves [OF assms(2,1)] stuck_done [of "bytes src" s er] by blast

theorem multi_reader_finishes_witness:
  "mrMove (newMultiReader aSource) (startRead (newMultiReader aSource)) \<and>
   left (startRead (newMultiReader aSource)) < left (newMultiReader aSource)"
proof -
  have m: "mrMove (newMultiReader aSource) (startRead (newMultiReader aSource))" by (rule mrMove.start) code_simp+
  have "ends EOF aSource" by code_simp
  from multi_reader_finishes [OF this rtranclp.rtrancl_refl] m show ?thesis by blast
qed



section \<open>Random data\<close>

text \<open>
  \<open>randomDataMaker.Read\<close>: eight bytes of each number of the source, the lowest first, until the buffer of
  \<open>n\<close> bytes is full; an empty buffer is indexed out of range.
\<close>

definition eightBytes :: "int \<Rightarrow> string" where
  "eightBytes v = map (\<lambda>i. char_of (nat (drop_bit (8 * i) v mod 256))) [0..<8]"

fun fillRandom :: "(nat \<Rightarrow> int) \<Rightarrow> nat \<Rightarrow> nat \<Rightarrow> string" where
  "fillRandom src j n = (if n \<le> 8 then take n (eightBytes (src j)) else eightBytes (src j) @ fillRandom src (Suc j) (n - 8))"

definition randomRead :: "(nat \<Rightarrow> int) \<Rightarrow> nat \<Rightarrow> string go" where
  "randomRead src n = (if n = 0 then Panic else Ret (fillRandom src 0 n))"

declare fillRandom.simps [simp del]

lemma fillRandom_length: "length (fillRandom src j n) = n"
proof (induction src j n rule: fillRandom.induct)
  case (1 src j n)
  then show ?case by (subst fillRandom.simps) (simp add: eightBytes_def)
qed

lemma randomRead_fills: "0 < n \<Longrightarrow> \<exists>b. randomRead src n = Ret b \<and> length b = n"
  by (simp add: randomRead_def fillRandom_length)

end
