(* ===== verification/Client.thy ===== *)
theory Client
  imports Http_Types
begin

text \<open>
  The client library of \<open>src/client\<close>: finding nodes, storing, fetching, listing and removing files, and the
  seekable file handle with its ranged reads.

  The servers are a parameter \<open>web\<close>: it maps a request and the state of the world to an error or a
  response and the new state. A response's body is read to its end or to an error. Random choices are a
  parameter \<open>rnd\<close>, the number drawn below a bound. The lemmas show that reading a handle gives the file, that
  its position stays inside the file, and which nodes a client chooses.
\<close>

section \<open>Requests to servers\<close>

record webReq =
  wq_Method :: string
  wq_Url :: string
  wq_Header :: "(string \<times> string list) list"
  wq_Body :: string
  wq_Json :: "json option"

record webRes =
  wr_Status :: int
  wr_Header :: "(string \<times> string list) list"
  wr_Body :: body
  wr_Err :: "gerr option"

type_synonym 'w web = "webReq \<Rightarrow> 'w \<Rightarrow> (gerr + webRes) \<times> 'w"

text \<open>
  The errors of the client: of the transport, of a status it did not expect, of decoding, and its own.
\<close>

datatype cerr = CWeb gerr | CStatus int | CJson | CMissing | CNotFound | CNoNodes | CEOF | CMsg string | CConf gerr

definition httpGet :: "string \<Rightarrow> webReq" where
  "httpGet u = \<lparr>wq_Method = ''GET'', wq_Url = u, wq_Header = [], wq_Body = [], wq_Json = None\<rparr>"

fun bodyBytes :: "body \<Rightarrow> string" where
  "bodyBytes (BBytes b) = b"
| "bodyBytes (BText s) = s"
| "bodyBytes (BCat a b) = bodyBytes a @ bodyBytes b"
| "bodyBytes _ = []"

definition bodyJson :: "webRes \<Rightarrow> json option" where
  "bodyJson r = (if wr_Err r \<noteq> None then None else (case wr_Body r of BJson j \<Rightarrow> Some j | _ \<Rightarrow> None))"

section \<open>Nodes\<close>

record clientNode =
  cn_Addr :: string
  cn_AddrRaw :: string
  cn_Started :: time
  cn_HBTime :: time
  cn_BindAddr :: string
  cn_FrameBind :: string
  cn_HBAgeStr :: string
  cn_Used :: int
  cn_Free :: int
  cn_Size :: int
  cn_UptimeStr :: string
  cn_Version :: string

definition clientNode_zero :: clientNode where
  "clientNode_zero = \<lparr>cn_Addr = [], cn_AddrRaw = [], cn_Started = 0, cn_HBTime = 0, cn_BindAddr = [], cn_FrameBind = [],
     cn_HBAgeStr = [], cn_Used = 0, cn_Free = 0, cn_Size = 0, cn_UptimeStr = [], cn_Version = []\<rparr>"

text \<open>
  Decoding goes on after a member of the wrong type, with the field left as it was, and reports the error
  at the end: the node and whether all was well.
\<close>

definition orZero :: "'a \<Rightarrow> 'a option \<Rightarrow> 'a" where
  "orZero z x = (case x of Some y \<Rightarrow> y | None \<Rightarrow> z)"

definition decNode :: "json \<Rightarrow> clientNode \<times> bool" where
  "decNode j =
     (case j of
        JObj ms \<Rightarrow>
          (let s = (\<lambda>n. fld n decStr [] ms); i = (\<lambda>n. fld n decInt 0 ms); t = (\<lambda>n. fld n decTime 0 ms) in
           (\<lparr>cn_Addr = orZero [] (s ''Addr''), cn_AddrRaw = orZero [] (s ''addr_raw''), cn_Started = orZero 0 (t ''starttime''),
             cn_HBTime = orZero 0 (t ''hbtime''), cn_BindAddr = orZero [] (s ''BindAddr''), cn_FrameBind = orZero [] (s ''FrameBind''),
             cn_HBAgeStr = orZero [] (s ''hbage_str''), cn_Used = orZero 0 (i ''Used''), cn_Free = orZero 0 (i ''Free''),
             cn_Size = orZero 0 (i ''Size''), cn_UptimeStr = orZero [] (s ''uptime_str''), cn_Version = orZero [] (s ''Version'')\<rparr>,
            list_all (\<lambda>n. s n \<noteq> None) [''Addr'', ''addr_raw'', ''BindAddr'', ''FrameBind'', ''hbage_str'', ''uptime_str'', ''Version''] \<and>
            list_all (\<lambda>n. i n \<noteq> None) [''Used'', ''Free'', ''Size''] \<and> list_all (\<lambda>n. t n \<noteq> None) [''starttime'', ''hbtime'']))
      | JNull \<Rightarrow> (clientNode_zero, True)
      | _ \<Rightarrow> (clientNode_zero, False))"

definition decNodes :: "json \<Rightarrow> (string \<times> clientNode) list \<times> bool" where
  "decNodes j =
     (case j of
        JObj ms \<Rightarrow> (fold (\<lambda>(k, v) m. AList.update k (fst (decNode v)) m) ms [], list_all (\<lambda>(k, v). snd (decNode v)) ms)
      | JNull \<Rightarrow> ([], True)
      | _ \<Rightarrow> ([], False))"

text \<open>A client: the URL of a server with path \<open>/\<close>, and the nodes it has asked for, \<open>None\<close> before it did.\<close>

record client =
  cl_u :: string
  cl_nodes :: "(string, clientNode) gomap"

definition URLFor :: "client \<Rightarrow> string \<Rightarrow> string" where
  "URLFor c fn = cl_u c @ trimSlashes fn"

definition nodeURLFor :: "clientNode \<Rightarrow> string \<Rightarrow> string go" where
  "nodeURLFor a h =
     (case h of
        [] \<Rightarrow> Panic
      | c # _ \<Rightarrow> Ret (''http://'' @ cn_Addr a @ (if c \<noteq> CHR ''/'' then ''/'' @ h else h)))"

definition nodeBlobURL :: "clientNode \<Rightarrow> string \<Rightarrow> string" where
  "nodeBlobURL a h = ''http://'' @ cn_Addr a @ ''/.cbfs/blob/'' @ h"

definition getJsonData :: "'w web \<Rightarrow> string \<Rightarrow> 'w \<Rightarrow> (cerr + json) \<times> 'w" where
  "getJsonData web u w =
     (case web (httpGet u) w of
        (Inl er, w') \<Rightarrow> (Inl (CWeb er), w')
      | (Inr r, w') \<Rightarrow>
          (if wr_Status r \<noteq> 200 then Inl (CStatus (wr_Status r))
           else (case bodyJson r of None \<Rightarrow> Inl CJson | Some j \<Rightarrow> Inr j), w'))"

text \<open>The nodes are asked for once; a failure leaves an empty map, which later calls take for the answer. The
  JSON value null decodes to a nil map, so it is asked for again.\<close>

definition clNodes :: "'w web \<Rightarrow> client \<Rightarrow> 'w \<Rightarrow> (cerr option \<times> (string \<times> clientNode) list \<times> client) \<times> 'w" where
  "clNodes web c w =
     (case cl_nodes c of
        Some ns \<Rightarrow> ((None, ns, c), w)
      | None \<Rightarrow>
          (case getJsonData web (URLFor c ''/.cbfs/nodes/'') w of
             (Inl er, w') \<Rightarrow> ((Some er, [], c\<lparr>cl_nodes := Some []\<rparr>), w')
           | (Inr j, w') \<Rightarrow>
               (let (ns, ok) = decNodes j in ((if ok then None else Some CJson, ns, c\<lparr>cl_nodes := (if j = JNull then None else Some ns)\<rparr>), w'))))"

definition stale :: "string \<Rightarrow> bool" where
  "stale s = (case parseDuration s of None \<Rightarrow> True | Some d \<Rightarrow> d > minute)"

definition RandomNode ::
  "'w web \<Rightarrow> (nat \<Rightarrow> nat) \<Rightarrow> client \<Rightarrow> 'w \<Rightarrow> ((cerr + string \<times> clientNode) \<times> client) \<times> 'w" where
  "RandomNode web rnd c w =
     (case clNodes web c w of
        ((Some er, _, c'), w') \<Rightarrow> ((Inl er, c'), w')
      | ((None, ns, c'), w') \<Rightarrow>
          (let names = map fst (filter (\<lambda>(k, n). \<not> stale (cn_HBAgeStr n)) ns) in
           if names = [] then ((Inl CNoNodes, c'), w')
           else (let name = names ! rnd (length names) in
                 ((Inr (name, orZero clientNode_zero (map_of ns name)), c'), w'))))"

section \<open>Blobs\<close>

fun decBlobInfo :: "json \<Rightarrow> (string, time) gomap option" where
  "decBlobInfo (JObj ms) = fld ''Nodes'' (decMap decTime 0) None ms"
| "decBlobInfo _ = None"

text \<open>The form lists the blobs; the answer maps each blob the server knows to its nodes.\<close>

definition GetBlobInfos ::
  "'w web \<Rightarrow> client \<Rightarrow> string list \<Rightarrow> 'w \<Rightarrow> (cerr + (string \<times> (string, time) gomap) list) \<times> 'w" where
  "GetBlobInfos web c oids w =
     (case web \<lparr>wq_Method = ''POST'', wq_Url = URLFor c ''/.cbfs/blob/info/'', wq_Header = [], wq_Body = [],
                wq_Json = Some (JObj [(''blob'', JArr (map JStr oids))])\<rparr> w of
        (Inl er, w') \<Rightarrow> (Inl (CWeb er), w')
      | (Inr r, w') \<Rightarrow>
          (if wr_Status r \<noteq> 200 then Inl (CStatus (wr_Status r))
           else (case bodyJson r of
                   None \<Rightarrow> Inl CJson
                 | Some j \<Rightarrow>
                     (if j = JNull then Inr []
                      else (case decMap decBlobInfo None j of None \<Rightarrow> Inl CJson | Some m \<Rightarrow> Inr (mrange m)))), w'))"

text \<open>
  \<open>Blobs\<close>: each blob the server knows is work for one of its nodes. The pool that spreads the work is the
  package \<open>saturate\<close>, a parameter: from the destinations, the worker and the work to the first error.
\<close>

definition fetchWork ::
  "'w web \<Rightarrow> clientNode \<Rightarrow> (string \<Rightarrow> string \<Rightarrow> gerr option \<Rightarrow> 'w \<Rightarrow> cerr option \<times> 'w) \<Rightarrow> string \<Rightarrow> 'w \<Rightarrow> cerr option \<times> 'w" where
  "fetchWork web n cb oid w =
     (case web (httpGet (nodeBlobURL n oid)) w of
        (Inl er, w') \<Rightarrow> (Some (CWeb er), w')
      | (Inr r, w') \<Rightarrow>
          (if wr_Status r \<noteq> 200 then (Some (CStatus (wr_Status r)), w')
           else cb oid (bodyBytes (wr_Body r)) (wr_Err r) w'))"

type_synonym 'w saturate =
  "string list \<Rightarrow> (string \<Rightarrow> string \<Rightarrow> 'w \<Rightarrow> cerr option \<times> 'w) \<Rightarrow> (string \<times> string list) list \<Rightarrow> 'w \<Rightarrow> cerr option \<times> 'w"

definition BlobsFetch ::
  "'w web \<Rightarrow> 'w saturate \<Rightarrow> client \<Rightarrow> (string \<Rightarrow> string \<Rightarrow> gerr option \<Rightarrow> 'w \<Rightarrow> cerr option \<times> 'w) \<Rightarrow> string list \<Rightarrow> 'w
     \<Rightarrow> (cerr option \<times> client) \<times> 'w" where
  "BlobsFetch web sat c cb oids w =
     (case clNodes web c w of
        ((Some er, _, c1), w1) \<Rightarrow> ((Some er, c1), w1)
      | ((None, ns, c1), w1) \<Rightarrow>
          (case GetBlobInfos web c1 oids w1 of
             (Inl er, w2) \<Rightarrow> ((Some er, c1), w2)
           | (Inr infos, w2) \<Rightarrow>
               (case sat (map fst ns) (\<lambda>n. fetchWork web (orZero clientNode_zero (map_of ns n)) cb)
                       (map (\<lambda>(oid, m). (oid, map fst (mrange m))) infos) w2 of
                  (er, w3) \<Rightarrow> ((er, c1), w3))))"

section \<open>Whole files\<close>

text \<open>A server that does not have the blob names one that has; the client follows once.\<close>

definition clGet :: "'w web \<Rightarrow> client \<Rightarrow> string \<Rightarrow> 'w \<Rightarrow> (cerr + string \<times> gerr option) \<times> 'w" where
  "clGet web c path w =
     (case web ((httpGet (URLFor c path))\<lparr>wq_Header := hdrSet ''X-CBFS-LocalOnly'' ''true'' []\<rparr>) w of
        (Inl er, w') \<Rightarrow> (Inl (CWeb er), w')
      | (Inr r, w') \<Rightarrow>
          (if wr_Status r = 200 then (Inr (bodyBytes (wr_Body r), wr_Err r), w')
           else if wr_Status r = 300 then
             (let target = hdrGet (Some (wr_Header r)) ''Location'' in
              case web (httpGet target) w' of
                (Inl er, w'') \<Rightarrow> (Inl (CWeb er), w'')
              | (Inr r2, w'') \<Rightarrow>
                  (if wr_Status r2 = 200 then (Inr (bodyBytes (wr_Body r2), wr_Err r2), w'')
                   else (Inl (CMsg (''Got '' @ itoa (wr_Status r2) @ '' response following redirect to '' @ target)), w'')))
           else (Inl (CStatus (wr_Status r)), w')))"

definition Rm :: "'w web \<Rightarrow> client \<Rightarrow> string \<Rightarrow> 'w \<Rightarrow> cerr option \<times> 'w" where
  "Rm web c fn w =
     (case web ((httpGet (URLFor c fn))\<lparr>wq_Method := ''DELETE''\<rparr>) w of
        (Inl er, w') \<Rightarrow> (Some (CWeb er), w')
      | (Inr r, w') \<Rightarrow>
          (if wr_Status r = 404 then Some CMissing
           else if wr_Status r \<noteq> 204 then Some (CStatus (wr_Status r))
           else None, w'))"
section \<open>Storing\<close>

text \<open>A transformation gives a new reader, or \<open>None\<close> for the reader it was given.\<close>

record putOptions =
  po_Unsafe :: bool
  po_Expiration :: int
  po_Hash :: string
  po_ContentType :: string
  po_ContentTransform :: "(string \<Rightarrow> string option) option"
  po_keeprevs :: int
  po_keeprevset :: bool

definition SetKeepRevs :: "int \<Rightarrow> putOptions \<Rightarrow> putOptions" where
  "SetKeepRevs n p = p\<lparr>po_keeprevs := n, po_keeprevset := True\<rparr>"

text \<open>\<open>byExt\<close> is \<open>mime.TypeByExtension\<close>, which is given the whole name.\<close>

definition recognizeTypeByName :: "(string \<Rightarrow> string) \<Rightarrow> string \<Rightarrow> string \<Rightarrow> string" where
  "recognizeTypeByName byExt n dflt =
     (let byname = byExt n in
      if byname \<noteq> [] then byname
      else if hasSuffix n ''.js'' then ''application/javascript''
      else if hasSuffix n ''.json'' then ''application/json''
      else if hasSuffix n ''.css'' then ''text/css''
      else if hasSuffix n ''.mp4'' \<or> hasSuffix n ''.m4v'' then ''video/mp4''
      else if hasSuffix n ''.mov'' then ''video/quicktime''
      else dflt)"

text \<open>
  A source of content: its bytes, how many the first read gives, the error of that read, and, if it can
  seek, the errors of seeking to the end and back.
\<close>

record source =
  sr_data :: string
  sr_first :: nat
  sr_readErr :: "gerr option"
  sr_seek :: "(gerr option \<times> gerr option) option"

text \<open>The header of the request: \<open>sniff\<close> is \<open>http.DetectContentType\<close>.\<close>

definition putType :: "(string \<Rightarrow> string) \<Rightarrow> (string \<Rightarrow> string) \<Rightarrow> string \<Rightarrow> string \<Rightarrow> putOptions \<Rightarrow> string" where
  "putType sniff byExt srcname someBytes opts =
     (if po_ContentType opts \<noteq> [] then po_ContentType opts
      else (let ctype = sniff someBytes in
            if hasPrefix ctype ''text/plain'' \<or> hasPrefix ctype ''application/octet-stream''
            then recognizeTypeByName byExt srcname ctype else ctype))"

definition putHeader :: "string \<Rightarrow> int \<Rightarrow> putOptions \<Rightarrow> (string \<times> string list) list" where
  "putHeader ctype len opts =
     (let h1 = (if po_keeprevset opts then hdrSet ''X-CBFS-KeepRevs'' (itoa (po_keeprevs opts)) [] else []);
          h2 = (if po_Unsafe opts then hdrSet ''X-CBFS-Unsafe'' ''true'' h1 else h1);
          h3 = (if po_Expiration opts > 0 then hdrSet ''X-CBFS-Expiration'' (itoa (po_Expiration opts)) h2 else h2);
          h4 = (if len \<ge> 0 then hdrSet ''Content-Length'' (itoa len) h3 else h3);
          h5 = hdrSet ''Content-Type'' ctype h4
      in if po_Hash opts \<noteq> [] then hdrSet ''X-CBFS-Hash'' (po_Hash opts) h5 else h5)"

definition sendPut ::
  "'w web \<Rightarrow> (nat \<Rightarrow> nat) \<Rightarrow> (string \<Rightarrow> string) \<Rightarrow> (string \<Rightarrow> string) \<Rightarrow> client \<Rightarrow> string \<Rightarrow> string \<Rightarrow> string \<Rightarrow> string \<Rightarrow> int
     \<Rightarrow> putOptions \<Rightarrow> 'w \<Rightarrow> (cerr option \<times> 'w) go" where
  "sendPut web rnd sniff byExt c srcname dest someBytes content len opts w =
     (case RandomNode web rnd c w of
        ((Inl er, _), w1) \<Rightarrow> Ret (Some er, w1)
      | ((Inr (_, rn), _), w1) \<Rightarrow>
          (case nodeURLFor rn dest of
             Panic \<Rightarrow> Panic
           | Ret du \<Rightarrow>
               (case web \<lparr>wq_Method = ''PUT'', wq_Url = du,
                          wq_Header = putHeader (putType sniff byExt srcname someBytes opts) len opts,
                          wq_Body = content, wq_Json = None\<rparr> w1 of
                  (Inl er, w2) \<Rightarrow> Ret (Some (CWeb er), w2)
                | (Inr r, w2) \<Rightarrow> Ret (if wr_Status r \<noteq> 201 then Some (CStatus (wr_Status r)) else None, w2))))"

definition Put ::
  "'w web \<Rightarrow> (nat \<Rightarrow> nat) \<Rightarrow> (string \<Rightarrow> string) \<Rightarrow> (string \<Rightarrow> string) \<Rightarrow> client \<Rightarrow> string \<Rightarrow> string \<Rightarrow> source \<Rightarrow> putOptions
     \<Rightarrow> 'w \<Rightarrow> (cerr option \<times> 'w) go" where
  "Put web rnd sniff byExt c srcname dest r opts w =
     (case sr_readErr r of
        Some er \<Rightarrow> Ret (Some (CWeb er), w)
      | None \<Rightarrow>
          (let someBytes = take (min 512 (sr_first r)) (sr_data r);
               plain = (\<lambda>len. sendPut web rnd sniff byExt c srcname dest someBytes (sr_data r) len opts w);
               sent = (\<lambda>len. (case po_ContentTransform opts of
                   None \<Rightarrow> plain len
                 | Some f \<Rightarrow>
                     (case f (sr_data r) of
                        None \<Rightarrow> plain len
                      | Some x \<Rightarrow> sendPut web rnd sniff byExt c srcname dest someBytes x (- 1) opts w))) in
           case sr_seek r of
             None \<Rightarrow> sent (- 1)
           | Some (Some er, _) \<Rightarrow> Ret (Some (CWeb er), w)
           | Some (None, Some er) \<Rightarrow> Ret (Some (CWeb er), w)
           | Some (None, None) \<Rightarrow> sent (int (length (sr_data r)))))"

section \<open>Listing and configuration\<close>

fun dropSlashes :: "string \<Rightarrow> string" where
  "dropSlashes s = (if s \<noteq> [] \<and> last s = CHR ''/'' then dropSlashes (butlast s) else s)"

declare dropSlashes.simps [simp del]

definition listPath :: "string \<Rightarrow> string" where
  "listPath ustr =
     (let p = dropSlashes (''/.cbfs/list/'' @ trimSlashes ustr) in
      if p = ''/.cbfs/list'' then ''/.cbfs/list/'' else p)"

text \<open>
  A URL whose path was assigned is printed with the path escaped: letters, digits and a few other
  characters stand for themselves.
\<close>

definition keptInPath :: "char \<Rightarrow> bool" where
  "keptInPath c \<longleftrightarrow>
     c \<in> set ''ABCDEFGHIJKLMNOPQRSTUVWXYZabcdefghijklmnopqrstuvwxyz0123456789-_.~$&+,/:;=@''"

definition upperDigit :: "nat \<Rightarrow> char" where
  "upperDigit n = ''0123456789ABCDEF'' ! (n mod 16)"

definition escapeChar :: "char \<Rightarrow> string" where
  "escapeChar c =
     (if keptInPath c then [c] else [CHR ''%'', upperDigit (of_char c div 16), upperDigit (of_char c)])"

definition escapePath :: "string \<Rightarrow> string" where
  "escapePath p = concat (map escapeChar p)"

text \<open>The answer is handed on as JSON: the directories and the files with their metadata.\<close>

definition ListDepth :: "'w web \<Rightarrow> client \<Rightarrow> string \<Rightarrow> int \<Rightarrow> 'w \<Rightarrow> (cerr + json) \<times> 'w" where
  "ListDepth web c ustr depth w =
     (case web (httpGet (URLFor c (escapePath (listPath ustr)) @ ''?includeMeta=true&depth='' @ itoa depth)) w of
        (Inl er, w') \<Rightarrow> (Inl (CWeb er), w')
      | (Inr r, w') \<Rightarrow>
          (if wr_Status r = 404 then Inl CNotFound
           else if wr_Status r \<noteq> 200 then Inl (CStatus (wr_Status r))
           else (case bodyJson r of None \<Rightarrow> Inl CJson | Some j \<Rightarrow> Inr j), w'))"

definition clList :: "'w web \<Rightarrow> client \<Rightarrow> string \<Rightarrow> 'w \<Rightarrow> (cerr + json) \<times> 'w" where
  "clList web c ustr w = ListDepth web c ustr 1 w"

definition ListOrEmpty :: "'w web \<Rightarrow> client \<Rightarrow> string \<Rightarrow> 'w \<Rightarrow> (cerr + json) \<times> 'w" where
  "ListOrEmpty web c ustr w =
     (case clList web c ustr w of
        (Inl er, w') \<Rightarrow> (if er = CNotFound then Inr (JObj []) else Inl er, w')
      | x \<Rightarrow> x)"

definition confURL :: "client \<Rightarrow> string" where
  "confURL c = URLFor c ''.cbfs/config/''"

definition GetConfig :: "(time \<Rightarrow> string) \<Rightarrow> 'w web \<Rightarrow> client \<Rightarrow> 'w \<Rightarrow> (cerr + cbfsConfig) go \<times> 'w" where
  "GetConfig tt web c w =
     (case getJsonData web (confURL c) w of
        (Inl er, w') \<Rightarrow> (Ret (Inl er), w')
      | (Inr j, w') \<Rightarrow>
          (case unmarshal_config tt (RJson j) of
             SetOk conf \<Rightarrow> Ret (Inr conf)
           | SetErr er \<Rightarrow> Ret (Inl (CConf er))
           | SetPanic \<Rightarrow> Panic, w'))"

definition SetConfigParam :: "(time \<Rightarrow> string) \<Rightarrow> 'w web \<Rightarrow> client \<Rightarrow> string \<Rightarrow> string \<Rightarrow> 'w \<Rightarrow> cerr option go \<times> 'w" where
  "SetConfigParam tt web c key val w =
     (case GetConfig tt web c w of
        (Panic, w') \<Rightarrow> (Panic, w')
      | (Ret (Inl er), w') \<Rightarrow> (Ret (Some er), w')
      | (Ret (Inr conf), w') \<Rightarrow>
          (case SetParameter key (IStr val) conf of
             SetPanic \<Rightarrow> (Panic, w')
           | SetErr er \<Rightarrow> (Ret (Some (CConf er)), w')
           | SetOk conf' \<Rightarrow>
               (case web \<lparr>wq_Method = ''PUT'', wq_Url = confURL c, wq_Header = hdrSet ''Content-Type'' ''application/json'' [],
                          wq_Body = [], wq_Json = Some (marshal_config conf')\<rparr> w' of
                  (Inl er, w'') \<Rightarrow> (Ret (Some (CWeb er)), w'')
                | (Inr r, w'') \<Rightarrow> (Ret (if wr_Status r \<noteq> 204 then Some (CStatus (wr_Status r)) else None), w''))))"
section \<open>File handles\<close>

record fileHandle =
  fh_c :: client
  fh_oid :: string
  fh_off :: int
  fh_length :: int
  fh_meta :: fileMeta
  fh_nodes :: "(string, time) gomap"

definition fileSize :: "fileHandle \<Rightarrow> int" where
  "fileSize f = fh_length f"

definition ModTime :: "fileHandle \<Rightarrow> time" where
  "ModTime f = fm_Modified (fh_meta f)"

text \<open>A node of the file that the cluster knows; without one, the draw panics.\<close>

definition randomUrl ::
  "'w web \<Rightarrow> (nat \<Rightarrow> nat) \<Rightarrow> fileHandle \<Rightarrow> 'w \<Rightarrow> ((cerr + string) \<times> fileHandle \<times> 'w) go" where
  "randomUrl web rnd f w =
     (case clNodes web (fh_c f) w of
        ((Some er, _, c'), w') \<Rightarrow> Ret (Inl er, f\<lparr>fh_c := c'\<rparr>, w')
      | ((None, ns, c'), w') \<Rightarrow>
          (let nodelist = List.map_filter (\<lambda>(k, _). map_of ns k) (mrange (fh_nodes f)) in
           if nodelist = [] then Panic
           else Ret (Inr (nodeBlobURL (nodelist ! rnd (length nodelist)) (fh_oid f)), f\<lparr>fh_c := c'\<rparr>, w')))"

definition rangeHeader :: "int \<Rightarrow> int \<Rightarrow> (string \<times> string list) list" where
  "rangeHeader a b = hdrSet ''Range'' (''bytes='' @ itoa a @ ''-'' @ itoa b) []"

text \<open>\<open>io.ReadFull\<close> into \<open>k\<close> bytes, with an unexpected end made an end of file.\<close>

definition readFull :: "nat \<Rightarrow> string \<Rightarrow> gerr option \<Rightarrow> string \<times> cerr option" where
  "readFull k b re =
     (if k \<le> length b then (take k b, None)
      else (b, Some (case re of None \<Rightarrow> CEOF | Some er \<Rightarrow> CWeb er)))"

text \<open>The bytes read and the error.\<close>

definition ReadAt ::
  "'w web \<Rightarrow> (nat \<Rightarrow> nat) \<Rightarrow> nat \<Rightarrow> int \<Rightarrow> fileHandle \<Rightarrow> 'w \<Rightarrow> (string \<times> cerr option \<times> fileHandle \<times> 'w) go" where
  "ReadAt web rnd k off f w =
     (let fin = (if i64 (int k + off) \<ge> fh_length f then fh_length f else i64 (int k + off)) in
      case randomUrl web rnd f w of
        Panic \<Rightarrow> Panic
      | Ret (Inl er, f1, w1) \<Rightarrow> Ret ([], Some er, f1, w1)
      | Ret (Inr u, f1, w1) \<Rightarrow>
          (case web ((httpGet u)\<lparr>wq_Header := rangeHeader off (i64 (fin - 1))\<rparr>) w1 of
             (Inl er, w2) \<Rightarrow> Ret ([], Some (CWeb er), f1, w2)
           | (Inr r, w2) \<Rightarrow>
               (let expected = (if off = 0 \<and> fin = fh_length f then 200 else 206) in
                if wr_Status r \<noteq> expected then Ret ([], Some (CStatus (wr_Status r)), f1, w2)
                else (case readFull k (bodyBytes (wr_Body r)) (wr_Err r) of (b, er) \<Rightarrow> Ret (b, er, f1, w2)))))"

definition fhRead ::
  "'w web \<Rightarrow> (nat \<Rightarrow> nat) \<Rightarrow> nat \<Rightarrow> fileHandle \<Rightarrow> 'w \<Rightarrow> (string \<times> cerr option \<times> fileHandle \<times> 'w) go" where
  "fhRead web rnd k f w =
     (if fh_off f \<ge> fh_length f then Ret ([], Some CEOF, f, w)
      else (case ReadAt web rnd k (fh_off f) f w of
              Panic \<Rightarrow> Panic
            | Ret (b, er, f', w') \<Rightarrow> Ret (b, er, f'\<lparr>fh_off := i64 (fh_off f' + int (length b))\<rparr>, w')))"

definition WriteTo ::
  "'w web \<Rightarrow> (nat \<Rightarrow> nat) \<Rightarrow> fileHandle \<Rightarrow> 'w \<Rightarrow> (string \<times> cerr option \<times> fileHandle \<times> 'w) go" where
  "WriteTo web rnd f w =
     (case randomUrl web rnd f w of
        Panic \<Rightarrow> Panic
      | Ret (Inl er, f1, w1) \<Rightarrow> Ret ([], Some er, f1, w1)
      | Ret (Inr u, f1, w1) \<Rightarrow>
          (let req = (if fh_off f1 > 0 then (httpGet u)\<lparr>wq_Header := rangeHeader (fh_off f1) (i64 (fh_length f1 - 1))\<rparr> else httpGet u) in
           case web req w1 of
             (Inl er, w2) \<Rightarrow> Ret ([], Some (CWeb er), f1, w2)
           | (Inr r, w2) \<Rightarrow>
               (if wr_Status r \<noteq> 200 then Ret ([], Some (CStatus (wr_Status r)), f1, w2)
                else (let b = bodyBytes (wr_Body r) in
                      Ret (b, map_option CWeb (wr_Err r), f1\<lparr>fh_off := i64 (fh_off f1 + int (length b))\<rparr>, w2)))))"

definition Seek :: "int \<Rightarrow> int \<Rightarrow> fileHandle \<Rightarrow> (cerr + int) \<times> fileHandle" where
  "Seek offset whence f =
     (let seek = (\<lambda>pos.
          if pos < 0 then (Inl (CMsg ''bytes: negative position''), f)
          else if pos \<ge> fh_length f then (Inl (CMsg ''bytes: position out of range''), f)
          else (Inr pos, f\<lparr>fh_off := pos\<rparr>)) in
      if whence = 0 then seek offset
      else if whence = 1 then seek (i64 (fh_off f + offset))
      else if whence = 2 then seek (i64 (fh_length f + offset))
      else (Inl (CMsg ''bytes: invalid whence''), f))"

text \<open>The metadata comes without a type; the handle keeps object id, length, headers and time.\<close>

definition fields_info :: "(string \<times> json) list \<Rightarrow> fileMeta option" where
  "fields_info ms = fld ''Meta'' (\<lambda>j. unmarshal_fileMeta (Some (RJson j))) fileMeta_zero ms"

definition OpenFile :: "'w web \<Rightarrow> client \<Rightarrow> string \<Rightarrow> 'w \<Rightarrow> (cerr + fileHandle) \<times> 'w" where
  "OpenFile web c path w =
     (case getJsonData web (URLFor c (''/.cbfs/info/file/'' @ trimSlashes path)) w of
        (Inl er, w1) \<Rightarrow> (Inl er, w1)
      | (Inr j, w1) \<Rightarrow>
          (case unmarshal fields_info (Some (RJson j)) of
             None \<Rightarrow> (Inl CJson, w1)
           | Some meta \<Rightarrow>
               (let h = fm_OID meta in
                case GetBlobInfos web c [h] w1 of
                  (Inl er, w2) \<Rightarrow> (Inl er, w2)
                | (Inr infos, w2) \<Rightarrow>
                    (Inr \<lparr>fh_c = c, fh_oid = h, fh_off = 0, fh_length = fm_Length meta, fh_meta = meta,
                          fh_nodes = orZero None (map_of infos h)\<rparr>, w2))))"

text \<open>Reading to the end with a buffer of \<open>k\<close> bytes, as \<open>io.Copy\<close> does over a plain reader; \<open>None\<close> is fuel run out.\<close>

fun readAll ::
  "nat \<Rightarrow> 'w web \<Rightarrow> (nat \<Rightarrow> nat) \<Rightarrow> nat \<Rightarrow> fileHandle \<Rightarrow> 'w \<Rightarrow> (string \<times> cerr option) go option" where
  "readAll 0 web rnd k f w = None"
| "readAll (Suc n) web rnd k f w =
     (case fhRead web rnd k f w of
        Panic \<Rightarrow> Some Panic
      | Ret (b, Some er, f', w') \<Rightarrow> Some (Ret (b, if er = CEOF then None else Some er))
      | Ret (b, None, f', w') \<Rightarrow>
          (case readAll n web rnd k f' w' of
             None \<Rightarrow> None
           | Some Panic \<Rightarrow> Some Panic
           | Some (Ret (bs, er)) \<Rightarrow> Some (Ret (b @ bs, er))))"
section \<open>Lemmas\<close>

subsection \<open>Servers of a blob\<close>

text \<open>
  What a handle relies on: the nodes answer a request for the blob with its bytes, a range of it with the
  range and status 206, and a range that is the whole of it with status 200, and do not change for it.
  \<open>us\<close> are the URLs of the blob on its nodes.
\<close>

definition serves_blob :: "'w web \<Rightarrow> string set \<Rightarrow> string \<Rightarrow> 'w \<Rightarrow> bool" where
  "serves_blob web us c w \<longleftrightarrow>
     (\<forall>u \<in> us. \<forall>a b. a \<le> b \<and> b < length c \<longrightarrow>
        (\<exists>hdr. web ((httpGet u)\<lparr>wq_Header := rangeHeader (int a) (int b)\<rparr>) w =
           (Inr \<lparr>wr_Status = (if a = 0 \<and> Suc b = length c then 200 else 206), wr_Header = hdr,
                 wr_Body = BBytes (take (Suc b - a) (drop a c)), wr_Err = None\<rparr>, w)))"

text \<open>A handle whose nodes are known to its client, with the length of the contents.\<close>

definition handle_ok :: "string \<Rightarrow> fileHandle \<Rightarrow> bool" where
  "handle_ok c f \<longleftrightarrow>
     fh_length f = int (length c) \<and> int (length c) < 2 ^ 62 \<and> 0 \<le> fh_off f \<and> fh_off f \<le> fh_length f \<and>
     cl_nodes (fh_c f) \<noteq> None \<and> List.map_filter (\<lambda>(k, _). map_of (mrange (cl_nodes (fh_c f))) k) (mrange (fh_nodes f)) \<noteq> []"

definition blobURLs :: "fileHandle \<Rightarrow> string set" where
  "blobURLs f =
     (\<lambda>n. nodeBlobURL n (fh_oid f)) `
       set (List.map_filter (\<lambda>(k, _). map_of (mrange (cl_nodes (fh_c f))) k) (mrange (fh_nodes f)))"

lemma randomUrl_ok:
  assumes "handle_ok c f" and "\<And>n. 0 < n \<Longrightarrow> rnd n < n"
  obtains u where "randomUrl web rnd f w = Ret (Inr u, f, w)" "u \<in> blobURLs f"
proof -
  let ?nl = "List.map_filter (\<lambda>(k, _). map_of (mrange (cl_nodes (fh_c f))) k) (mrange (fh_nodes f))"
  from assms(1) obtain ns where ns: "cl_nodes (fh_c f) = Some ns" and ne: "?nl \<noteq> []" by (auto simp: handle_ok_def)
  then have "?nl ! rnd (length ?nl) \<in> set ?nl" by (simp add: assms(2))
  moreover have "randomUrl web rnd f w = Ret (Inr (nodeBlobURL (?nl ! rnd (length ?nl)) (fh_oid f)), f, w)"
    using ns ne by (simp add: randomUrl_def clNodes_def mrange_def Let_def)
  ultimately show ?thesis using that by (auto simp: blobURLs_def)
qed

lemma ReadAt_ok:
  assumes "handle_ok c f" and "\<And>n. 0 < n \<Longrightarrow> rnd n < n" and "serves_blob web (blobURLs f) c w"
    and "0 < k" and "int k < 2 ^ 62" and "off < length c"
  shows "ReadAt web rnd k (int off) f w =
     Ret (take k (drop off c), if off + k \<le> length c then None else Some CEOF, f, w)"
proof -
  obtain u where u: "randomUrl web rnd f w = Ret (Inr u, f, w)" "u \<in> blobURLs f" by (rule randomUrl_ok [OF assms(1,2)])
  have len: "fh_length f = int (length c)" and big: "int (length c) < 2 ^ 62" using assms(1) by (simp_all add: handle_ok_def)
  let ?b = "min (off + k) (length c) - 1"
  have i: "i64 (int k + int off) = int (off + k)" "i64 (int (length c) - 1) = int (length c - 1)" "i64 (int (off + k) - 1) = int (off + k - 1)"
    using big assms(4-6) by (auto simp: i64_id i64_range_def of_nat_diff)
  have fin: "(if i64 (int k + int off) \<ge> fh_length f then fh_length f else i64 (int k + int off)) = int (min (off + k) (length c))"
    unfolding i len by auto
  have e: "i64 (int (min (off + k) (length c)) - 1) = int ?b"
    using big assms(4-6) by (simp add: i64_id i64_range_def of_nat_diff)
  have b: "off \<le> ?b" "?b < length c" using assms(4,6) by auto
  obtain hdr where web: "web ((httpGet u)\<lparr>wq_Header := rangeHeader (int off) (int ?b)\<rparr>) w =
     (Inr \<lparr>wr_Status = (if off = 0 \<and> Suc ?b = length c then 200 else 206), wr_Header = hdr,
                 wr_Body = BBytes (take (Suc ?b - off) (drop off c)), wr_Err = None\<rparr>, w)"
    using assms(3) u(2) b unfolding serves_blob_def by blast
  have st: "(if off = 0 \<and> Suc ?b = length c then (200::int) else 206) =
      (if int off = 0 \<and> int (min (off + k) (length c)) = fh_length f then 200 else 206)"
    using assms(4,6) len by auto
  have rd: "readFull k (take (Suc ?b - off) (drop off c)) None =
      (take k (drop off c), if off + k \<le> length c then None else Some CEOF)"
    using assms(4,6) by (auto simp: readFull_def min_def)
  show ?thesis
    unfolding ReadAt_def Let_def fin e using u(1) web st rd by (simp del: of_nat_min)
qed
lemma fhRead_ok:
  assumes "handle_ok c f" and "\<And>n. 0 < n \<Longrightarrow> rnd n < n" and "serves_blob web (blobURLs f) c w"
    and "0 < k" and "int k < 2 ^ 62" and "fh_off f = int off" and "off < length c"
  shows "fhRead web rnd k f w =
     Ret (take k (drop off c), if off + k \<le> length c then None else Some CEOF, f\<lparr>fh_off := int (min (off + k) (length c))\<rparr>, w)"
proof -
  have len: "fh_length f = int (length c)" "int (length c) < 2 ^ 62" using assms(1) by (simp_all add: handle_ok_def)
  have "i64 (int off + int (length (take k (drop off c)))) = int (min (off + k) (length c))"
    using len assms(7) by (subst i64_id) (auto simp: i64_range_def min_def)
  with ReadAt_ok [OF assms(1-5,7)] len assms(6,7) show ?thesis by (simp add: fhRead_def)
qed

lemma handle_ok_off:
  "handle_ok c f \<Longrightarrow> n \<le> length c \<Longrightarrow> handle_ok c (f\<lparr>fh_off := int n\<rparr>)"
  "blobURLs (f\<lparr>fh_off := x\<rparr>) = blobURLs f"
  by (simp_all add: handle_ok_def blobURLs_def)

lemma readAll_ok:
  assumes "\<And>n. 0 < n \<Longrightarrow> rnd n < n" and "0 < k" and "int k < 2 ^ 62"
    and "handle_ok c f" and "serves_blob web (blobURLs f) c w" and "fh_off f = int off" and "length c - off < n"
  shows "readAll n web rnd k f w = Some (Ret (drop off c, None))"
  using assms(4-7)
proof (induction n arbitrary: f off)
  case (Suc n)
  show ?case
  proof (cases "off < length c")
    case True
    note r = fhRead_ok [OF Suc.prems(1) assms(1) Suc.prems(2) assms(2,3) Suc.prems(3) True]
    show ?thesis
    proof (cases "off + k \<le> length c")
      case fits: True
      then have m: "min (off + k) (length c) = off + k" by simp
      have "readAll n web rnd k (f\<lparr>fh_off := int (off + k)\<rparr>) w = Some (Ret (drop (off + k) c, None))"
        using Suc.prems fits assms(2) by (intro Suc.IH handle_ok_off(1)) (simp_all add: handle_ok_off(2))
      moreover have "take k (drop off c) @ drop (off + k) c = drop off c"
        by (metis add.commute append_take_drop_id drop_drop)
      ultimately show ?thesis using r fits unfolding m by simp
    next
      case False
      with r show ?thesis by simp
    qed
  next
    case False
    with Suc.prems(1,3) show ?thesis by (simp add: fhRead_def handle_ok_def)
  qed
qed simp

section \<open>Properties\<close>


definition aNode :: clientNode where
  "aNode = clientNode_zero\<lparr>cn_Addr := ''h:1''\<rparr>"

definition aHandle :: fileHandle where
  "aHandle = \<lparr>fh_c = \<lparr>cl_u = ''http://h:1/'', cl_nodes = Some [(''n1'', aNode)]\<rparr>, fh_oid = ''6162'', fh_off = 1, fh_length = 5,
     fh_meta = fileMeta_zero, fh_nodes = Some [(''n1'', 7)]\<rparr>"

text \<open>A server that has the bytes \<open>hello\<close>: the numbers of the range are read back from the header.\<close>

definition helloWeb :: "unit web" where
  "helloWeb r w =
     (case splitOn CHR ''-'' (drop 6 (hdrGet (Some (wq_Header r)) ''Range'')) of
        [x, y] \<Rightarrow>
          (let a = nat (orZero 0 (atoi x)); b = nat (orZero 0 (atoi y)) in
           (Inr \<lparr>wr_Status = (if a = 0 \<and> b = 4 then 200 else 206), wr_Header = [],
                 wr_Body = BBytes (take (Suc b - a) (drop a ''hello'')), wr_Err = None\<rparr>, w))
      | _ \<Rightarrow> (Inl EJson, w))"

definition helloAnswers :: "nat \<times> nat \<Rightarrow> bool" where
  "helloAnswers p \<longleftrightarrow>
     helloWeb ((httpGet [])\<lparr>wq_Header := rangeHeader (int (fst p)) (int (snd p))\<rparr>) () =
       (Inr \<lparr>wr_Status = (if fst p = 0 \<and> Suc (snd p) = 5 then 200 else 206), wr_Header = [],
             wr_Body = BBytes (take (Suc (snd p) - fst p) (drop (fst p) ''hello'')), wr_Err = None\<rparr>, ())"

lemma helloWeb_serves: "serves_blob helloWeb us ''hello'' ()"
  unfolding serves_blob_def
proof (intro ballI allI impI)
  fix u a b
  assume "a \<le> b \<and> b < length ''hello''"
  then have "(a, b) \<in> set (List.product [0..<5] [0..<5])" by auto
  moreover have "list_all helloAnswers (List.product [0..<5] [0..<5])" by code_simp
  ultimately have "helloAnswers (a, b)" by (simp only: list_all_iff)
  moreover have "helloWeb ((httpGet u)\<lparr>wq_Header := h\<rparr>) () = helloWeb ((httpGet [])\<lparr>wq_Header := h\<rparr>) ()" for h
    by (simp add: helloWeb_def)
  moreover have "length ''hello'' = 5" by simp
  ultimately show "\<exists>hdr. helloWeb ((httpGet u)\<lparr>wq_Header := rangeHeader (int a) (int b)\<rparr>) () =
      (Inr \<lparr>wr_Status = (if a = 0 \<and> Suc b = length ''hello'' then 200 else 206), wr_Header = hdr,
            wr_Body = BBytes (take (Suc b - a) (drop a ''hello'')), wr_Err = None\<rparr>, ())"
    unfolding helloAnswers_def by (intro exI [of _ "[]"]) (simp only: fst_conv snd_conv)
qed

text \<open>
  the position of a handle stays inside the file. Seeking relative to the start, the position or the
  end moves there exactly when the target is a byte of the file, and otherwise gives an error and leaves
  the handle as it was. In particular the position after the last byte cannot be sought.
\<close>

theorem handle_stays_inside:
  assumes "handle_ok c f" and "\<bar>offset\<bar> < 2 ^ 62" and "Seek offset whence f = (r, f')"
    and "base = (if whence = 0 then 0 else if whence = 1 then fh_off f else fh_length f)"
  shows "handle_ok c f' \<and>
     (if whence \<in> {0, 1, 2} \<and> 0 \<le> base + offset \<and> base + offset < int (length c)
      then r = Inr (base + offset) \<and> f' = f\<lparr>fh_off := base + offset\<rparr>
      else (\<exists>er. r = Inl er) \<and> f' = f)"
proof -
  have k: "0 \<le> fh_off f" "fh_off f \<le> fh_length f" "fh_length f = int (length c)" "int (length c) < 2 ^ 62"
    using assms(1) by (auto simp: handle_ok_def)
  have "i64 (base + offset) = base + offset" using k assms(2,4) by (intro i64_id) (auto simp: i64_range_def)
  then show ?thesis using assms k by (auto simp: Seek_def Let_def handle_ok_def split: if_splits)
qed

theorem handle_stays_inside_witness:
  "Seek (- 2) 2 aHandle = (Inr 3, aHandle\<lparr>fh_off := 3\<rparr>)"
proof -
  have h: "handle_ok ''hello'' aHandle" by (simp add: handle_ok_def aHandle_def List.map_filter_def mrange_def)
  obtain r f' where s: "Seek (- 2) 2 aHandle = (r, f')" by fastforce
  have b: "5 = (if (2::int) = 0 then 0 else if (2::int) = 1 then fh_off aHandle else fh_length aHandle)" by (simp add: aHandle_def)
  from handle_stays_inside [OF h _ s b] s show ?thesis by simp
qed

text \<open>
  Copying the rest of a file that was begun fails: the handle asks for a range and takes only the answer
  to a request for the whole.
\<close>

lemma WriteTo_rest_fails:
  assumes "handle_ok c f" and "\<And>n. 0 < n \<Longrightarrow> rnd n < n" and "serves_blob web (blobURLs f) c w" and "0 < fh_off f" and "fh_off f < fh_length f"
  shows "WriteTo web rnd f w = Ret ([], Some (CStatus 206), f, w)"
proof -
  obtain u where u: "randomUrl web rnd f w = Ret (Inr u, f, w)" "u \<in> blobURLs f" by (rule randomUrl_ok [OF assms(1,2)])
  have len: "fh_length f = int (length c)" "int (length c) < 2 ^ 62" using assms(1) by (simp_all add: handle_ok_def)
  obtain off where off: "fh_off f = int off" "0 < off" "off < length c"
    using assms(4,5) len by (metis zero_less_imp_eq_int of_nat_less_iff)
  have e: "i64 (int (length c) - 1) = int (length c - 1)" using len off by (simp add: i64_range_def of_nat_diff)
  have "off \<le> length c - 1 \<and> length c - 1 < length c" using off by arith
  from assms(3) [unfolded serves_blob_def, rule_format, OF u(2) this]
  obtain hdr b where "web ((httpGet u)\<lparr>wq_Header := rangeHeader (int off) (int (length c - 1))\<rparr>) w =
      (Inr \<lparr>wr_Status = 206, wr_Header = hdr, wr_Body = b, wr_Err = None\<rparr>, w)" using off(2) by auto
  with u(1) off len e show ?thesis by (simp add: WriteTo_def Let_def)
qed

text \<open>After a failed request for the nodes, the client takes the cluster to be empty, without an error.\<close>

lemma clNodes_failure_sticks:
  assumes "clNodes web c w = ((Some (CWeb er), ns, c'), w')"
  shows "clNodes web c' w'' = ((None, [], c'), w'') \<and> RandomNode web rnd c' w'' = ((Inl CNoNodes, c'), w'')"
  using assms by (auto simp: clNodes_def RandomNode_def Let_def split: option.splits sum.splits prod.splits if_splits)

text \<open>A node that is drawn has been heard of within a minute.\<close>

lemma RandomNode_fresh:
  assumes "RandomNode web rnd c w = ((Inr (name, n), c'), w')" and "\<And>k. 0 < k \<Longrightarrow> rnd k < k" and "mwf (cl_nodes c')"
  shows "mget (cl_nodes c') name = Some n \<and> \<not> stale (cn_HBAgeStr n)"
proof -
  obtain ns where ns: "clNodes web c w = ((None, ns, c'), w')" and ne: "map fst (filter (\<lambda>(k, n). \<not> stale (cn_HBAgeStr n)) ns) \<noteq> []"
    and nm: "name = map fst (filter (\<lambda>(k, n). \<not> stale (cn_HBAgeStr n)) ns) ! rnd (length (map fst (filter (\<lambda>(k, n). \<not> stale (cn_HBAgeStr n)) ns)))"
    and n: "n = orZero clientNode_zero (map_of ns name)"
    using assms(1) by (auto simp: RandomNode_def Let_def split: prod.splits option.splits if_splits)
  let ?l = "map fst (filter (\<lambda>(k, n). \<not> stale (cn_HBAgeStr n)) ns)"
  have null: "decNodes JNull = ([], True)" by (simp add: decNodes_def)
  have c': "cl_nodes c' = Some ns"
    using ns ne by (auto simp: clNodes_def null split: option.splits prod.splits sum.splits if_splits)
  have "name \<in> set ?l" using ne nm assms(2) [of "length ?l"] by (metis length_greater_0_conv nth_mem)
  then obtain m where m: "(name, m) \<in> set ns" "\<not> stale (cn_HBAgeStr m)" by auto
  then have "map_of ns name = Some m" using assms(3) c' by (simp add: mwf_def mrange_def)
  with m n c' show ?thesis by (simp add: orZero_def mget_def mrange_def)
qed

end
