(* ===== verification/Filepath.thy ===== *)
theory Filepath
  imports Client Hash_Store
begin

text \<open>
  Paths as the command line tools use them: what package \<open>filepath\<close> does with slash-separated paths, and
  the quoting of names for URLs in \<open>src/tools/cbfsclient/upload.go\<close>. The lemmas show that the
  server's decoding undoes the quoting and the escaping of a URL, and that taking the directory of a
  relative path makes it shorter until it is the dot.
\<close>

section \<open>Package filepath\<close>

text \<open>Of a relative path, the parent directories at the front stay.\<close>

fun cleanRel :: "string list \<Rightarrow> string list \<Rightarrow> string list" where
  "cleanRel [] acc = rev acc"
| "cleanRel (p # ps) acc =
     (if p = [] \<or> p = ''.'' then cleanRel ps acc
      else if p = ''..'' \<and> acc \<noteq> [] \<and> hd acc \<noteq> ''..'' then cleanRel ps (tl acc)
      else cleanRel ps (p # acc))"

definition Clean :: "string \<Rightarrow> string" where
  "Clean p =
     (if p \<noteq> [] \<and> hd p = CHR ''/'' then cleanRooted p
      else (let q = joinWith ''/'' (cleanRel (splitOn CHR ''/'' p) []) in if q = [] then ''.'' else q))"

definition Join :: "string \<Rightarrow> string \<Rightarrow> string" where
  "Join a b =
     (if a = [] \<and> b = [] then []
      else if a = [] then Clean b
      else if b = [] then Clean a
      else Clean (a @ ''/'' @ b))"

definition Base :: "string \<Rightarrow> string" where
  "Base p =
     (if p = [] then ''.''
      else (let q = dropSlashes p in if q = [] then ''/'' else last (splitOn CHR ''/'' q)))"

text \<open>Everything up to and including the last slash, cleaned.\<close>

definition Dir :: "string \<Rightarrow> string" where
  "Dir p = Clean (rev (dropWhile (\<lambda>c. c \<noteq> CHR ''/'') (rev p)))"

definition Ext :: "string \<Rightarrow> string" where
  "Ext p =
     (let e = last (splitOn CHR ''/'' p) in
      if CHR ''.'' \<in> set e then CHR ''.'' # last (splitOn CHR ''.'' e) else [])"

section \<open>Quoting\<close>

definition quoteChar :: "char \<Rightarrow> string" where
  "quoteChar c =
     (if c = CHR ''%'' then ''%25''
      else if c = CHR ''?'' then ''%3f''
      else if c = CHR '' '' then ''%20''
      else if c = CHR ''#'' then ''%23''
      else [c])"

definition quotingReplacer :: "string \<Rightarrow> string" where
  "quotingReplacer s = concat (map quoteChar s)"

text \<open>The decoding of a URL's path by the server.\<close>

fun unescapePath :: "string \<Rightarrow> string option" where
  "unescapePath [] = Some []"
| "unescapePath (c # s) =
     (if c \<noteq> CHR ''%'' then map_option ((#) c) (unescapePath s)
      else (case s of
              a # b # r \<Rightarrow>
                (case (hexVal a, hexVal b) of
                   (Some x, Some y) \<Rightarrow> map_option ((#) (char_of (16 * x + y))) (unescapePath r)
                 | _ \<Rightarrow> None)
            | _ \<Rightarrow> None))"

lemma unescape_hex:
  assumes "hexVal a = Some x" and "hexVal b = Some y"
  shows "unescapePath (CHR ''%'' # a # b # r) = map_option ((#) (char_of (16 * x + y))) (unescapePath r)"
  using assms by simp

lemma unescape_quoteChar: "unescapePath (quoteChar c @ s) = map_option ((#) c) (unescapePath s)"
proof (cases "c \<in> set ''%? #''")
  case True
  then consider "c = CHR ''%''" | "c = CHR ''?''" | "c = CHR '' ''" | "c = CHR ''#''" by auto
  then show ?thesis by cases (simp_all add: quoteChar_def hexVal_def char_of_def bit_0)
next
  case False
  then show ?thesis by (auto simp: quoteChar_def)
qed

lemma unescape_quote: "unescapePath (quotingReplacer a @ s) = map_option ((@) a) (unescapePath s)"
proof (induction a)
  case Nil
  then show ?case by (simp add: quotingReplacer_def option.map_ident)
next
  case (Cons c a)
  then show ?case by (simp add: quotingReplacer_def unescape_quoteChar option.map_comp comp_def)
qed

lemma hexVal_upperDigit: "n < 16 \<Longrightarrow> hexVal (upperDigit n) = Some n"
proof -
  assume "n < 16"
  moreover have "list_all (\<lambda>n. hexVal (upperDigit n) = Some n) [0..<16]" by code_simp
  ultimately show ?thesis by (simp add: list_all_iff)
qed

lemma unescape_escapeChar: "unescapePath (escapeChar c @ s) = map_option ((#) c) (unescapePath s)"
proof (cases "keptInPath c")
  case True
  then have "c \<noteq> CHR ''%''" by (auto simp: keptInPath_def)
  with True show ?thesis by (simp add: escapeChar_def)
next
  case False
  have "(of_char c :: nat) div 16 < 16" using nat_of_char_less_256 [of c] by (simp add: div_less_iff_less_mult)
  then show ?thesis
    using False unescape_hex [OF hexVal_upperDigit hexVal_upperDigit, of "of_char c div 16" "of_char c mod 16" s]
    by (simp add: escapeChar_def upperDigit_def)
qed

lemma unescape_escapePath: "unescapePath (escapePath p) = Some p"
proof (induction p)
  case (Cons c p)
  then show ?case by (simp add: escapePath_def unescape_escapeChar)
qed (simp add: escapePath_def)

section \<open>Directories of relative paths\<close>

lemma joinWith_length:
  "length (joinWith ''/'' (xs @ ys)) \<le> length (joinWith ''/'' (xs @ p # ys))"
  "length (joinWith ''/'' (xs @ p # ys)) \<le> length (joinWith ''/'' (xs @ q # p # ys))"
proof -
  show A: "length (joinWith ''/'' (xs @ ys)) \<le> length (joinWith ''/'' (xs @ p # ys))" for xs ys p
  proof (induction xs)
    case Nil
    then show ?case by (cases ys) simp_all
  next
    case (Cons x xs)
    then show ?case by (cases xs; cases ys) simp_all
  qed
  show "length (joinWith ''/'' (xs @ p # ys)) \<le> length (joinWith ''/'' (xs @ q # p # ys))"
    using A [of xs "p # ys" q] .
qed

lemma cleanRel_length: "length (joinWith ''/'' (cleanRel ps acc)) \<le> length (joinWith ''/'' (rev acc @ ps))"
proof (induction ps acc rule: cleanRel.induct)
  case (2 p ps acc)
  have skip: "length (joinWith ''/'' (rev acc @ ps)) \<le> length (joinWith ''/'' (rev acc @ p # ps))"
    by (rule joinWith_length)
  show ?case
  proof (cases "p = [] \<or> p = ''.''")
    case True
    with 2(1) skip show ?thesis by (auto intro: order_trans)
  next
    case False
    show ?thesis
    proof (cases "p = ''..'' \<and> acc \<noteq> [] \<and> hd acc \<noteq> ''..''")
      case True
      then obtain a acc' where a: "acc = a # acc'" by (cases acc) auto
      have "length (joinWith ''/'' (rev acc' @ ps)) \<le> length (joinWith ''/'' (rev acc' @ a # ps))"
        by (rule joinWith_length)
      also have "\<dots> \<le> length (joinWith ''/'' (rev acc @ p # ps))" using skip a by simp
      finally show ?thesis using 2(2) False True a by auto
    next
      case nodots: False
      with False 2(3) show ?thesis by auto
    qed
  qed
qed simp

lemma cleanRel_snoc_Nil: "cleanRel (ps @ [[]]) acc = cleanRel ps acc"
  by (induction ps acc rule: cleanRel.induct) auto

lemma cleanRel_elems:
  "\<forall>p \<in> set (ps @ acc). CHR ''/'' \<notin> set p \<Longrightarrow> \<forall>p \<in> set acc. p \<noteq> [] \<Longrightarrow>
     q \<in> set (cleanRel ps acc) \<Longrightarrow> q \<noteq> [] \<and> CHR ''/'' \<notin> set q"
proof (induction ps acc rule: cleanRel.induct)
  case (2 p ps acc)
  have "set (tl acc) \<subseteq> set acc" by (cases acc) auto
  with 2 show ?case by (auto split: if_splits)
qed auto

lemma joinWith_hd: "xs \<noteq> [] \<Longrightarrow> hd xs \<noteq> [] \<Longrightarrow> joinWith s xs \<noteq> [] \<and> hd (joinWith s xs) = hd (hd xs)"
  by (induction s xs rule: joinWith.induct) auto

definition relative :: "string \<Rightarrow> bool" where
  "relative p \<longleftrightarrow> p = [] \<or> hd p \<noteq> CHR ''/''"

lemma Clean_relative: "relative p \<Longrightarrow> relative (Clean p)"
proof -
  assume r: "relative p"
  let ?xs = "cleanRel (splitOn CHR ''/'' p) []"
  have e: "q \<noteq> [] \<and> CHR ''/'' \<notin> set q" if "q \<in> set ?xs" for q
    using that by (intro cleanRel_elems [of "splitOn CHR ''/'' p" "[]" q]) (auto dest: splitOn_no_sep)
  have "relative (joinWith ''/'' ?xs)"
  proof (cases "?xs")
    case (Cons x xs)
    with e [of x] have "x \<noteq> []" "CHR ''/'' \<notin> set x" by simp_all
    with joinWith_hd [of "x # xs" "''/''"] Cons show ?thesis
      by (cases x) (auto simp: relative_def)
  qed (simp add: relative_def)
  with r show ?thesis by (auto simp: Clean_def relative_def Let_def)
qed

lemma splitOn_snoc: "splitOn c (s @ [c]) = splitOn c s @ [[]]"
proof (induction s)
  case (Cons x s)
  then show ?case by (cases "splitOn c s") simp_all
qed simp

text \<open>The directory of a relative path is relative, and shorter unless it is the dot.\<close>

lemma Dir_shorter:
  assumes "relative p"
  shows "relative (Dir p) \<and> (Dir p = ''.'' \<or> length (Dir p) < length p)"
proof (cases "CHR ''/'' \<in> set p")
  case False
  then have "rev (dropWhile (\<lambda>c. c \<noteq> CHR ''/'') (rev p)) = []" by auto
  then have "Dir p = Clean []" unfolding Dir_def by (simp only:)
  then show ?thesis by (simp add: Clean_def relative_def)
next
  case True
  define d where "d = rev (tl (dropWhile (\<lambda>c. c \<noteq> CHR ''/'') (rev p)))"
  have ne: "dropWhile (\<lambda>c. c \<noteq> CHR ''/'') (rev p) \<noteq> []" using True by auto
  then have sl: "dropWhile (\<lambda>c. c \<noteq> CHR ''/'') (rev p) = CHR ''/'' # rev d"
    using hd_dropWhile [of "\<lambda>c. c \<noteq> CHR ''/''" "rev p"] unfolding d_def
    by (cases "dropWhile (\<lambda>c. c \<noteq> CHR ''/'') (rev p)") auto
  have "p = d @ ''/'' @ rev (takeWhile (\<lambda>c. c \<noteq> CHR ''/'') (rev p))"
    using arg_cong [OF takeWhile_dropWhile_id [of "\<lambda>c. c \<noteq> CHR ''/''" "rev p"], of rev] sl by simp
  then obtain e where p: "p = d @ ''/'' @ e" by blast
  have D: "Dir p = Clean (d @ ''/'')" using sl by (simp add: Dir_def)
  have dr: "d \<noteq> [] \<and> hd d \<noteq> CHR ''/''"
    using assms p by (cases d) (auto simp: relative_def)
  then have r: "relative (d @ ''/'')" by (simp add: relative_def)
  have "length (joinWith ''/'' (cleanRel (splitOn CHR ''/'' (d @ ''/'')) [])) \<le> length d"
    using cleanRel_length [of "splitOn CHR ''/'' d" "[]"] joinWith_splitOn [of "CHR ''/''" d]
    by (simp add: splitOn_snoc cleanRel_snoc_Nil)
  moreover have "length d < length p" using p by simp
  ultimately have "Dir p = ''.'' \<or> length (Dir p) < length p"
    using dr by (auto simp: D Clean_def Let_def)
  with Clean_relative [OF r] D show ?thesis by simp
qed

end
