(* ===== verification/Upload_Tool.thy ===== *)
theory Upload_Tool
  imports Filepath
begin

text \<open>
  The upload and removal commands of \<open>src/tools/cbfsclient\<close> (\<open>upload.go\<close>, \<open>ignore.go\<close>, \<open>rm.go\<close>): ignore patterns,
  the comparison of a local directory with the server's listing, the walk over the local tree, and the
  workers with their retries.

  Parameters are the servers, as in the client library, opening local files, the digest SHA-1, the
  encrypting reader, and the readers of meta information; \<open>glob\<close> is the matching of a pattern, with \<open>None\<close> for
  a malformed one. The requests of a directory go through a channel to several workers, in no order that
  the code relies on: the main lemma holds for every order.
\<close>

section \<open>Ignored files\<close>

definition isSpace :: "char \<Rightarrow> bool" where
  "isSpace c \<longleftrightarrow> c \<in> set [CHR 0x09, CHR 0x0A, CHR 0x0B, CHR 0x0C, CHR 0x0D, CHR '' '']"

definition trimSpace :: "string \<Rightarrow> string" where
  "trimSpace s = rev (dropWhile isSpace (rev (dropWhile isSpace s)))"

text \<open>
  The loop over the lines of the file \<open>d\<close>, which ends with the error \<open>re\<close> if it is not the end of the file:
  the error and the patterns. A last line without a line break is dropped.
\<close>

definition lineOf :: "string \<Rightarrow> string" where
  "lineOf d = takeWhile (\<lambda>c. c \<noteq> CHR 0x0A) d"

definition restOf :: "string \<Rightarrow> string" where
  "restOf d = tl (dropWhile (\<lambda>c. c \<noteq> CHR 0x0A) d)"

lemma restOf_shorter: "CHR 0x0A \<in> set d \<Longrightarrow> length (restOf d) < length d"
proof -
  assume "CHR 0x0A \<in> set d"
  then have "dropWhile (\<lambda>c. c \<noteq> CHR 0x0A) d \<noteq> []" by auto
  then have "length (restOf d) < length (dropWhile (\<lambda>c. c \<noteq> CHR 0x0A) d)"
    unfolding restOf_def by (cases "dropWhile (\<lambda>c. c \<noteq> CHR 0x0A) d") simp_all
  also have "\<dots> \<le> length d" by (rule length_dropWhile_le)
  finally show ?thesis .
qed

function loadIgnorePatterns ::
  "(string \<Rightarrow> string \<Rightarrow> bool option) \<Rightarrow> gerr option \<Rightarrow> string \<Rightarrow> string list \<Rightarrow> gerr option \<times> string list" where
  "loadIgnorePatterns glob re d pats =
     (if CHR 0x0A \<notin> set d then (re, pats)
      else (let l = trimSpace (lineOf d) in
            if l = [] \<or> hd l = CHR ''#'' then loadIgnorePatterns glob re (restOf d) pats
            else (case glob l [] of
                    None \<Rightarrow> (Some (EMsg ''syntax error in pattern''), pats)
                  | Some _ \<Rightarrow> loadIgnorePatterns glob re (restOf d) (pats @ [l]))))"
  by pat_completeness auto
termination loadIgnorePatterns
  by (relation "measure (\<lambda>(_, _, d, _). length d)") (auto simp: restOf_shorter)

declare loadIgnorePatterns.simps [simp del]

definition loadIgnorePatternsFromFile ::
  "(string \<Rightarrow> string \<Rightarrow> bool option) \<Rightarrow> gerr + string \<times> gerr option \<Rightarrow> string list \<Rightarrow> gerr option \<times> string list" where
  "loadIgnorePatternsFromFile glob opened pats =
     (case opened of Inl er \<Rightarrow> (Some er, pats) | Inr (d, re) \<Rightarrow> loadIgnorePatterns glob re d pats)"

text \<open>
  The patterns in turn, an absolute one against the whole path and another against its last element. An
  empty path or pattern is indexed out of range, and a pattern that cannot be matched ends the program.
\<close>

fun matchAny :: "(string \<Rightarrow> string \<Rightarrow> bool option) \<Rightarrow> string \<Rightarrow> string list \<Rightarrow> bool go" where
  "matchAny glob input [] = Ret False"
| "matchAny glob input ([] # pats) = Panic"
| "matchAny glob input ((c # p) # pats) =
     (case (if c = CHR ''/'' then glob p input else glob (c # p) (Base input)) of
        None \<Rightarrow> Panic
      | Some True \<Rightarrow> Ret True
      | Some False \<Rightarrow> matchAny glob input pats)"

definition isIgnored :: "(string \<Rightarrow> string \<Rightarrow> bool option) \<Rightarrow> string list \<Rightarrow> string \<Rightarrow> bool go" where
  "isIgnored glob pats input =
     (case input of
        [] \<Rightarrow> Panic
      | c # s \<Rightarrow> matchAny glob (if c = CHR ''/'' then s else input) pats)"

section \<open>Options and parameters\<close>

record 'w upload =
  up_web :: "'w web"
  up_rnd :: "nat \<Rightarrow> nat"
  up_sniff :: "string \<Rightarrow> string"
  up_byExt :: "string \<Rightarrow> string"
  up_sha1 :: "string \<Rightarrow> string"
  up_open :: "string \<Rightarrow> gerr + source"
  up_id3 :: "string \<Rightarrow> json"
  up_exif :: "string \<Rightarrow> gerr + json"
  up_maybeCrypt :: "string \<Rightarrow> string option"
  up_ignored :: "string \<Rightarrow> bool go"
  up_Delete :: bool
  up_Meta :: bool
  up_Revs :: int
  up_RevsSet :: bool
  up_Noop :: bool
  up_Unsafe :: bool
  up_NoHash :: bool
  up_Expiration :: int

section \<open>Operations of a worker\<close>

datatype uploadOpType = UploadFileOp | RemoveFileOp | RemoveRecurseOp

record uploadReq =
  ur_src :: string
  ur_dest :: string
  ur_op :: uploadOpType
  ur_remoteHash :: string

text \<open>
  \<open>url.Parse\<close> and \<open>URL.String\<close> of a client's URL, with \<open>/.cbfs/meta\<close> put before its path; the fragment is not
  sent.
\<close>

definition metaURL :: "client \<Rightarrow> string \<Rightarrow> string option" where
  "metaURL c dest =
     (let s = takeWhile (\<lambda>x. x \<noteq> CHR ''#'') (trimSlashes dest);
          p = takeWhile (\<lambda>x. x \<noteq> CHR ''?'') s; q = dropWhile (\<lambda>x. x \<noteq> CHR ''?'') s
      in map_option (\<lambda>p'. cl_u c @ escapePath (''.cbfs/meta/'' @ p') @ q) (unescapePath p))"

definition metaInfo :: "'w upload \<Rightarrow> string \<Rightarrow> gerr + json option" where
  "metaInfo u src =
     (let e = Ext (toLower src) in
      if e = ''.mp3'' then
        (case up_open u src of Inl er \<Rightarrow> Inl er | Inr f \<Rightarrow> Inr (Some (up_id3 u (sr_data f))))
      else if e = ''.jpg'' \<or> e = ''.jpeg'' then
        (case up_open u src of Inl er \<Rightarrow> Inl er | Inr f \<Rightarrow> map_sum id Some (up_exif u (sr_data f)))
      else Inr None)"

definition processMeta :: "'w upload \<Rightarrow> client \<Rightarrow> string \<Rightarrow> string \<Rightarrow> 'w \<Rightarrow> cerr option \<times> 'w" where
  "processMeta u c src dest w =
     (case metaInfo u src of
        Inl er \<Rightarrow> (Some (CWeb er), w)
      | Inr None \<Rightarrow> (None, w)
      | Inr (Some j) \<Rightarrow>
          (case metaURL c dest of
             None \<Rightarrow> (Some (CMsg ''invalid URL escape''), w)
           | Some udest \<Rightarrow>
               (case up_web u \<lparr>wq_Method = ''PUT'', wq_Url = udest,
                               wq_Header = hdrSet ''Content-Type'' ''application/json'' [],
                               wq_Body = [], wq_Json = Some j\<rparr> w of
                  (Inl er, w') \<Rightarrow> (Some (CWeb er), w')
                | (Inr r, w') \<Rightarrow> (if wr_Status r \<noteq> 201 then Some (CStatus (wr_Status r)) else None, w'))))"

definition uploadOptions :: "'w upload \<Rightarrow> string \<Rightarrow> putOptions" where
  "uploadOptions u lh =
     (let opts = \<lparr>po_Unsafe = up_Unsafe u, po_Expiration = up_Expiration u, po_Hash = lh, po_ContentType = [],
                  po_ContentTransform = Some (up_maybeCrypt u), po_keeprevs = 0, po_keeprevset = False\<rparr>;
          opts1 = (if up_RevsSet u then SetKeepRevs (up_Revs u) opts else opts)
      in if up_NoHash u then opts1\<lparr>po_Hash := []\<rparr> else opts1)"

definition uploadStream ::
  "'w upload \<Rightarrow> client \<Rightarrow> source \<Rightarrow> string \<Rightarrow> string \<Rightarrow> string \<Rightarrow> 'w \<Rightarrow> (cerr option \<times> 'w) go" where
  "uploadStream u c r srcName dest lh w =
     Put (up_web u) (up_rnd u) (up_sniff u) (up_byExt u) c srcName dest r (uploadOptions u lh) w"

definition uploadFile :: "'w upload \<Rightarrow> client \<Rightarrow> string \<Rightarrow> string \<Rightarrow> string \<Rightarrow> 'w \<Rightarrow> (cerr option \<times> 'w) go" where
  "uploadFile u c src dest lh w =
     (if up_Noop u then Ret (None, w)
      else (case up_open u src of
              Inl er \<Rightarrow> Ret (Some (CWeb er), w)
            | Inr f \<Rightarrow>
                (case uploadStream u c f src dest lh w of
                   Panic \<Rightarrow> Panic
                 | Ret (Some er, w') \<Rightarrow> Ret (Some er, w')
                 | Ret (None, w') \<Rightarrow> Ret (None, if up_Meta u then snd (processMeta u c src dest w') else w'))))"

text \<open>The flag of the removal command, which the upload command leaves unset, is the first argument.\<close>

definition rmFile :: "bool \<Rightarrow> 'w web \<Rightarrow> client \<Rightarrow> string \<Rightarrow> 'w \<Rightarrow> cerr option \<times> 'w" where
  "rmFile rmNoop web c fn w =
     (if rmNoop then (None, w)
      else (case Rm web c fn w of (er, w') \<Rightarrow> (if er = Some CMissing then None else er, w')))"

text \<open>What the tools use of a listing: the object ids of the files, and the names of the directories.\<close>

record listResult =
  lr_Files :: "(string \<times> string) list"
  lr_Dirs :: "string list"

definition fields_listing :: "(string \<times> json) list \<Rightarrow> listResult option" where
  "fields_listing ms =
     (case (fld ''Files'' (decMap (\<lambda>j. map_option fm_OID (unmarshal_fileMeta (Some (RJson j)))) []) None ms,
            fld ''Dirs'' (decMap (\<lambda>j. Some ()) ()) None ms) of
        (Some fs, Some ds) \<Rightarrow> Some \<lparr>lr_Files = mrange fs, lr_Dirs = map fst (mrange ds)\<rparr>
      | _ \<Rightarrow> None)"

definition decListing :: "json \<Rightarrow> listResult option" where
  "decListing j = unmarshal fields_listing (Some (RJson j))"

definition listed :: "(cerr + json) \<times> 'w \<Rightarrow> (cerr + listResult) \<times> 'w" where
  "listed a =
     (case a of
        (Inl er, w) \<Rightarrow> (Inl er, w)
      | (Inr j, w) \<Rightarrow> (case decListing j of None \<Rightarrow> Inl CJson | Some l \<Rightarrow> Inr l, w))"

fun rmAll :: "bool \<Rightarrow> 'w web \<Rightarrow> client \<Rightarrow> string list \<Rightarrow> 'w \<Rightarrow> cerr option \<times> 'w" where
  "rmAll noop web c [] w = (None, w)"
| "rmAll noop web c (fn # fns) w =
     (if noop then rmAll noop web c fns w
      else (case rmFile False web c (quotingReplacer fn) w of
              (Some er, w') \<Rightarrow> (Some er, w')
            | (None, w') \<Rightarrow> rmAll noop web c fns w'))"

text \<open>A listing that fails counts as one without files.\<close>

definition uploadRmDir :: "'w upload \<Rightarrow> client \<Rightarrow> string \<Rightarrow> 'w \<Rightarrow> cerr option \<times> 'w" where
  "uploadRmDir u c dir w =
     (case listed (ListDepth (up_web u) c dir 8192 w) of
        (Inl er, w') \<Rightarrow> (None, w')
      | (Inr l, w') \<Rightarrow> rmAll (up_Noop u) (up_web u) c (map fst (lr_Files l)) w')"

definition uploadRmDashR :: "'w upload \<Rightarrow> client \<Rightarrow> string \<Rightarrow> 'w \<Rightarrow> cerr option \<times> 'w" where
  "uploadRmDashR u c d w = uploadRmDir u c d w"

definition localHash :: "'w upload \<Rightarrow> string \<Rightarrow> string" where
  "localHash u fn =
     (case up_open u fn of
        Inl _ \<Rightarrow> ''unknown''
      | Inr f \<Rightarrow> if sr_readErr f \<noteq> None then ''unknown'' else hexEncode (up_sha1 u (sr_data f)))"

text \<open>One attempt at a request, and the attempts of a worker: the first and at most three more.\<close>

definition attempt :: "'w upload \<Rightarrow> client \<Rightarrow> uploadReq \<Rightarrow> 'w \<Rightarrow> (cerr option \<times> 'w) go" where
  "attempt u c req w =
     (case ur_op req of
        UploadFileOp \<Rightarrow>
          (let lh = localHash u (ur_src req) in
           if ur_remoteHash req = [] \<or> lh \<noteq> ur_remoteHash req
           then uploadFile u c (ur_src req) (ur_dest req) lh w else Ret (None, w))
      | RemoveFileOp \<Rightarrow> Ret (if up_Noop u then (None, w) else rmFile False (up_web u) c (ur_dest req) w)
      | RemoveRecurseOp \<Rightarrow> Ret (uploadRmDashR u c (ur_dest req) w))"

function attempts :: "'w upload \<Rightarrow> client \<Rightarrow> uploadReq \<Rightarrow> nat \<Rightarrow> 'w \<Rightarrow> (cerr option \<times> 'w) go" where
  "attempts u c req retries w =
     (case attempt u c req w of
        Panic \<Rightarrow> Panic
      | Ret (None, w') \<Rightarrow> Ret (None, w')
      | Ret (Some er, w') \<Rightarrow> (if retries < 3 then attempts u c req (retries + 1) w' else Ret (Some er, w')))"
  by pat_completeness auto
termination attempts
  by (relation "measure (\<lambda>(_, _, _, retries, _). 3 - retries)") auto

declare attempts.simps [simp del]

text \<open>A worker's requests, with the errors it sends for those that failed for good.\<close>

fun uploadWorker :: "'w upload \<Rightarrow> client \<Rightarrow> uploadReq list \<Rightarrow> 'w \<Rightarrow> ((uploadReq \<times> cerr) list \<times> 'w) go" where
  "uploadWorker u c [] w = Ret ([], w)"
| "uploadWorker u c (req # reqs) w =
     (case attempts u c req 0 w of
        Panic \<Rightarrow> Panic
      | Ret (er, w') \<Rightarrow>
          (case uploadWorker u c reqs w' of
             Panic \<Rightarrow> Panic
           | Ret (ers, w'') \<Rightarrow> Ret ((case er of None \<Rightarrow> [] | Some e \<Rightarrow> [(req, e)]) @ ers, w'')))"

section \<open>Comparing a directory\<close>

text \<open>The type bits of a file's mode, in a fixed order.\<close>

datatype modeBit = ModeDir | ModeSymlink | ModeDevice | ModeNamedPipe | ModeSocket | ModeCharDevice

record fileInfo =
  fi_Name :: string
  fi_Mode :: "modeBit list"

definition fiIsDir :: "fileInfo \<Rightarrow> bool" where
  "fiIsDir fi \<longleftrightarrow> ModeDir \<in> set (fi_Mode fi)"

definition specialMode :: "modeBit list \<Rightarrow> bool" where
  "specialMode m \<longleftrightarrow> m \<in> set [[ModeCharDevice], [ModeDevice], [ModeNamedPipe], [ModeSocket], [ModeSymlink]]"

fun localNames ::
  "'w upload \<Rightarrow> string \<Rightarrow> fileInfo list \<Rightarrow> (string \<times> fileInfo) list \<Rightarrow> (string \<times> fileInfo) list go" where
  "localNames u path [] m = Ret m"
| "localNames u path (fi # fis) m =
     (if specialMode (fi_Mode fi) then localNames u path fis m
      else (case up_ignored u (Join path (fi_Name fi)) of
              Panic \<Rightarrow> Panic
            | Ret True \<Rightarrow> localNames u path fis m
            | Ret False \<Rightarrow> localNames u path fis (AList.update (fi_Name fi) fi m)))"

definition remoteNames :: "listResult \<Rightarrow> string list" where
  "remoteNames l = filter (\<lambda>n. n \<noteq> []) (remdups (map fst (lr_Files l) @ lr_Dirs l))"

definition uploadTo :: "string \<Rightarrow> string \<Rightarrow> string \<Rightarrow> string \<Rightarrow> uploadReq" where
  "uploadTo path dest n hash =
     \<lparr>ur_src = Join path n, ur_dest = quotingReplacer dest @ ''/'' @ quotingReplacer n,
      ur_op = UploadFileOp, ur_remoteHash = hash\<rparr>"

text \<open>A local file whose name is also the server's: one that is a directory there is passed over.\<close>

definition changedReqs :: "string \<Rightarrow> string \<Rightarrow> listResult \<Rightarrow> (string \<times> fileInfo) list \<Rightarrow> uploadReq list" where
  "changedReqs path dest l loc =
     List.map_filter (\<lambda>(n, fi).
       if \<not> fiIsDir fi \<and> n \<in> set (remoteNames l) then map_option (uploadTo path dest n) (map_of (lr_Files l) n)
       else None) loc"

definition missingReqs :: "string \<Rightarrow> string \<Rightarrow> listResult \<Rightarrow> (string \<times> fileInfo) list \<Rightarrow> uploadReq list" where
  "missingReqs path dest l loc =
     map (\<lambda>(n, fi). uploadTo path dest n [])
       (filter (\<lambda>(n, fi). \<not> (fiIsDir fi \<or> n \<in> set (remoteNames l))) loc)"

definition removeReqs :: "string \<Rightarrow> listResult \<Rightarrow> (string \<times> fileInfo) list \<Rightarrow> uploadReq list" where
  "removeReqs dest l loc =
     concat (map (\<lambda>n. map (\<lambda>op. \<lparr>ur_src = [], ur_dest = dest @ ''/'' @ quotingReplacer n, ur_op = op, ur_remoteHash = []\<rparr>)
         [RemoveFileOp, RemoveRecurseOp])
       (filter (\<lambda>n. n \<notin> fst ` set loc) (remoteNames l)))"

text \<open>The server's listing is asked for at most four times.\<close>

fun listRetry :: "'w web \<Rightarrow> client \<Rightarrow> string \<Rightarrow> nat \<Rightarrow> 'w \<Rightarrow> (cerr + listResult) \<times> 'w" where
  "listRetry web c dest 0 w = listed (ListOrEmpty web c dest w)"
| "listRetry web c dest (Suc n) w =
     (case listed (ListOrEmpty web c dest w) of
        (Inl _, w') \<Rightarrow> listRetry web c dest n w'
      | x \<Rightarrow> x)"

definition syncPath ::
  "'w upload \<Rightarrow> client \<Rightarrow> string \<Rightarrow> string \<Rightarrow> gerr + fileInfo list \<Rightarrow> 'w \<Rightarrow> (cerr option \<times> uploadReq list \<times> 'w) go" where
  "syncPath u c path dest readdir w =
     (case readdir of
        Inl er \<Rightarrow> Ret (Some (CWeb er), [], w)
      | Inr children \<Rightarrow>
          (case listRetry (up_web u) c dest 3 w of
             (Inl er, w') \<Rightarrow> Ret (Some er, [], w')
           | (Inr l, w') \<Rightarrow>
               (case localNames u path children [] of
                  Panic \<Rightarrow> Panic
                | Ret loc \<Rightarrow>
                    Ret (None, changedReqs path dest l loc @ missingReqs path dest l loc @
                      (if up_Delete u then removeReqs dest l loc else []), w'))))"

section \<open>Walking the tree\<close>

text \<open>
  A local tree as \<open>filepath.Walk\<close> meets it: a directory with the error of opening it, if any, and its
  entries in the order of their names; another file with its mode.
\<close>

datatype ltree = LFile "modeBit list" | LDir "gerr option" "(string \<times> ltree) list"

fun treeInfo :: "string \<times> ltree \<Rightarrow> fileInfo" where
  "treeInfo (n, LFile m) = \<lparr>fi_Name = n, fi_Mode = m\<rparr>"
| "treeInfo (n, LDir _ _) = \<lparr>fi_Name = n, fi_Mode = [ModeDir]\<rparr>"

definition readdir :: "gerr option \<Rightarrow> (string \<times> ltree) list \<Rightarrow> gerr + fileInfo list" where
  "readdir er ch = (case er of Some e \<Rightarrow> Inl e | None \<Rightarrow> Inr (map treeInfo ch))"

text \<open>The walk: the error that ended it, the requests sent, and the state of the servers.\<close>

function walk :: "'w upload \<Rightarrow> client \<Rightarrow> (string \<Rightarrow> string) \<Rightarrow> string \<Rightarrow> ltree \<Rightarrow> 'w \<Rightarrow> (cerr option \<times> uploadReq list \<times> 'w) go"
  and walkAll :: "'w upload \<Rightarrow> client \<Rightarrow> (string \<Rightarrow> string) \<Rightarrow> string \<Rightarrow> (string \<times> ltree) list \<Rightarrow> 'w \<Rightarrow> (cerr option \<times> uploadReq list \<times> 'w) go"
where
  "walk u c destOf path (LFile m) w = Ret (None, [], w)"
| "walk u c destOf path (LDir er ch) w =
     (case up_ignored u path of
        Panic \<Rightarrow> Panic
      | Ret True \<Rightarrow> Ret (None, [], w)
      | Ret False \<Rightarrow>
          (case syncPath u c path (destOf path) (readdir er ch) w of
             Panic \<Rightarrow> Panic
           | Ret (Some e, reqs, w') \<Rightarrow> Ret (Some e, reqs, w')
           | Ret (None, reqs, w') \<Rightarrow>
               (case walkAll u c destOf path ch w' of
                  Panic \<Rightarrow> Panic
                | Ret (e, reqs', w'') \<Rightarrow> Ret (e, reqs @ reqs', w''))))"
| "walkAll u c destOf path [] w = Ret (None, [], w)"
| "walkAll u c destOf path ((n, t) # ts) w =
     (case walk u c destOf (Join path n) t w of
        Panic \<Rightarrow> Panic
      | Ret (Some e, reqs, w') \<Rightarrow> Ret (Some e, reqs, w')
      | Ret (None, reqs, w') \<Rightarrow>
          (case walkAll u c destOf path ts w' of
             Panic \<Rightarrow> Panic
           | Ret (e, reqs', w'') \<Rightarrow> Ret (e, reqs @ reqs', w'')))"
  by pat_completeness auto
termination
  by (relation "measure (case_sum (\<lambda>(_, _, _, _, t, _). size t) (\<lambda>(_, _, _, _, ts, _). size_list (size_prod (\<lambda>_. 0) size) ts))") auto

definition syncUp :: "'w upload \<Rightarrow> client \<Rightarrow> string \<Rightarrow> string \<Rightarrow> ltree \<Rightarrow> 'w \<Rightarrow> (cerr option \<times> uploadReq list \<times> 'w) go" where
  "syncUp u c src dest t w =
     (let d = dropSlashes dest; root = Clean src in
      walk u c (\<lambda>path. d @ drop (length root) path) root t w)"

section \<open>The removal command\<close>

text \<open>The names sent to the workers, and the workers over them; an error ends the program.\<close>

definition rmDashR :: "'w web \<Rightarrow> client \<Rightarrow> string \<Rightarrow> 'w \<Rightarrow> (cerr + string list) \<times> 'w" where
  "rmDashR web c dir w =
     (case listed (ListDepth web c dir 8192 w) of
        (Inl er, w') \<Rightarrow> (Inl er, w')
      | (Inr l, w') \<Rightarrow> (Inr (map (\<lambda>f. quotingReplacer (fst f)) (lr_Files l)), w'))"

fun rmWorker :: "bool \<Rightarrow> 'w web \<Rightarrow> client \<Rightarrow> string list \<Rightarrow> 'w \<Rightarrow> cerr option \<times> 'w" where
  "rmWorker noop web c [] w = (None, w)"
| "rmWorker noop web c (fn # fns) w =
     (case rmFile noop web c fn w of
        (Some er, w') \<Rightarrow> (Some er, w')
      | (None, w') \<Rightarrow> rmWorker noop web c fns w')"

text \<open>The names of the command line in turn; the exit code is 1 after an error.\<close>

fun rmNames :: "bool \<Rightarrow> 'w web \<Rightarrow> client \<Rightarrow> string list \<Rightarrow> 'w \<Rightarrow> (cerr + string list) \<times> 'w" where
  "rmNames recurse web c [] w = (Inr [], w)"
| "rmNames recurse web c (path # paths) w =
     (case (if recurse then rmDashR web c path w else (Inr [path], w)) of
        (Inl er, w') \<Rightarrow> (Inl er, w')
      | (Inr fns, w') \<Rightarrow>
          (case rmNames recurse web c paths w' of
             (Inl er, w'') \<Rightarrow> (Inl er, w'')
           | (Inr fns', w'') \<Rightarrow> (Inr (fns @ fns'), w'')))"

definition rmCommand :: "bool \<Rightarrow> bool \<Rightarrow> 'w web \<Rightarrow> client \<Rightarrow> string list \<Rightarrow> 'w \<Rightarrow> nat \<times> 'w" where
  "rmCommand recurse noop web c paths w =
     (case rmNames recurse web c paths w of
        (Inl er, w') \<Rightarrow> (1, w')
      | (Inr fns, w') \<Rightarrow> (case rmWorker noop web c fns w' of (er, w'') \<Rightarrow> (if er = None then 0 else 1, w'')))"

section \<open>The upload command\<close>

text \<open>
  The exit code and the servers' state. Arguments are the error of reading the ignore patterns, the
  client or the error of making it, the standard input, what \<open>os.Stat\<close> says of the source, the tree the walk
  finds there, and the order in which the workers take the requests. When the walk fails the program
  ends with \<open>k\<close> of the requests executed.
\<close>

definition exitCode :: "(cerr option \<times> 'w) go \<Rightarrow> (nat \<times> 'w) go" where
  "exitCode r = (case r of Panic \<Rightarrow> Panic | Ret (er, w) \<Rightarrow> Ret (if er = None then 0 else 1, w))"

definition uploadURL :: "'w upload \<Rightarrow> client \<Rightarrow> string \<Rightarrow> string \<Rightarrow> 'w \<Rightarrow> (nat \<times> 'w) go" where
  "uploadURL u c srcFn dest w =
     (case up_web u ((httpGet srcFn)\<lparr>wq_Header := hdrSet ''Accept-Encoding'' [] []\<rparr>) w of
        (Inl er, w') \<Rightarrow> Ret (1, w')
      | (Inr r, w') \<Rightarrow>
          (if wr_Status r \<noteq> 200 then Ret (1, w')
           else exitCode (uploadStream u c \<lparr>sr_data = bodyBytes (wr_Body r), sr_first = length (bodyBytes (wr_Body r)),
                  sr_readErr = wr_Err r, sr_seek = None\<rparr> srcFn dest [] w')))"

definition uploadTree ::
  "'w upload \<Rightarrow> client \<Rightarrow> string \<Rightarrow> string \<Rightarrow> ltree \<Rightarrow> (uploadReq list \<Rightarrow> uploadReq list) \<Rightarrow> nat \<Rightarrow> 'w \<Rightarrow> (nat \<times> 'w) go" where
  "uploadTree u c srcFn dest t ord k w =
     (case syncUp u c srcFn dest t w of
        Panic \<Rightarrow> Panic
      | Ret (er, reqs, w') \<Rightarrow>
          (case uploadWorker u c (if er = None then ord reqs else take k (ord reqs)) w' of
             Panic \<Rightarrow> Panic
           | Ret (ers, w'') \<Rightarrow> Ret (if er = None \<and> ers = [] then 0 else 1, w'')))"

definition uploadCommand ::
  "'w upload \<Rightarrow> gerr option \<Rightarrow> gerr + client \<Rightarrow> string \<Rightarrow> string \<Rightarrow> source \<Rightarrow> gerr + bool \<Rightarrow> ltree
     \<Rightarrow> (uploadReq list \<Rightarrow> uploadReq list) \<Rightarrow> nat \<Rightarrow> 'w \<Rightarrow> (nat \<times> 'w) go" where
  "uploadCommand u ignoreErr nc srcFn dest stdin isDir t ord k w =
     (if ignoreErr \<noteq> None then Ret (1, w)
      else (case nc of
              Inl er \<Rightarrow> Ret (1, w)
            | Inr c \<Rightarrow>
                (if srcFn = ''-'' then exitCode (uploadStream u c stdin [] dest [] w)
                 else if hasPrefix srcFn ''http:'' \<or> hasPrefix srcFn ''https:'' then uploadURL u c srcFn dest w
                 else (case isDir of
                         Inl er \<Rightarrow> Ret (1, w)
                       | Inr True \<Rightarrow> uploadTree u c srcFn dest t ord k w
                       | Inr False \<Rightarrow> exitCode (uploadFile u c srcFn dest (localHash u srcFn) w)))))"

text \<open>A link to a directory is a directory for \<open>os.Stat\<close> and none for the walk: nothing is uploaded, with exit code 0.\<close>

lemma upload_link: "ord [] = [] \<Longrightarrow> uploadTree u c srcFn dest (LFile [ModeSymlink]) ord k w = Ret (0, w)"
  by (simp add: uploadTree_def syncUp_def Let_def)

section \<open>What a server does\<close>

text \<open>
  What the tool relies on of the servers: \<open>rem w\<close> are the files they have. Reading changes nothing; storing
  and removing do so when they report success, and when they report a failure they may have; a deep
  listing of a directory names files below it.
\<close>

definition nodeAddrs :: "client \<Rightarrow> string set" where
  "nodeAddrs c = (case cl_nodes c of None \<Rightarrow> {} | Some ns \<Rightarrow> (\<lambda>n. cn_Addr (snd n)) ` set ns)"

definition gets_ok :: "'w web \<Rightarrow> ('w \<Rightarrow> string \<Rightarrow> string option) \<Rightarrow> bool" where
  "gets_ok web rem \<longleftrightarrow> (\<forall>q w. wq_Method q = ''GET'' \<longrightarrow> rem (snd (web q w)) = rem w)"

definition puts_ok :: "'w web \<Rightarrow> client \<Rightarrow> ('w \<Rightarrow> string \<Rightarrow> string option) \<Rightarrow> bool" where
  "puts_ok web c rem \<longleftrightarrow>
     (\<forall>q w r w' a p n. web q w = (r, w') \<longrightarrow> wq_Method q = ''PUT'' \<longrightarrow> a \<in> nodeAddrs c \<longrightarrow> wq_Url q = ''http://'' @ a @ ''/'' @ p \<longrightarrow>
        unescapePath p = Some n \<longrightarrow>
        rem w' = (rem w)(n \<mapsto> wq_Body q) \<or> (rem w' = rem w \<and> (\<forall>x. r = Inr x \<longrightarrow> wr_Status x \<noteq> 201)))"

definition deletes_ok :: "'w web \<Rightarrow> client \<Rightarrow> ('w \<Rightarrow> string \<Rightarrow> string option) \<Rightarrow> bool" where
  "deletes_ok web c rem \<longleftrightarrow>
     (\<forall>q w r w' p n. web q w = (r, w') \<longrightarrow> wq_Method q = ''DELETE'' \<longrightarrow> wq_Url q = cl_u c @ p \<longrightarrow> unescapePath p = Some n \<longrightarrow>
        rem w' = (rem w)(n := None) \<or> (rem w' = rem w \<and> (\<forall>x. r = Inr x \<longrightarrow> wr_Status x \<notin> {204, 404})))"

definition plainDir :: "string \<Rightarrow> bool" where
  "plainDir d \<longleftrightarrow> d \<noteq> [] \<and> hd d \<noteq> CHR ''/''"

definition lists_below :: "'w web \<Rightarrow> client \<Rightarrow> bool" where
  "lists_below web c \<longleftrightarrow>
     (\<forall>dir w l w'. plainDir dir \<longrightarrow> listed (ListDepth web c dir 8192 w) = (Inr l, w') \<longrightarrow>
        (\<forall>f \<in> set (map fst (lr_Files l)). \<exists>s. f = dir @ ''/'' @ s))"

definition file_server :: "'w web \<Rightarrow> client \<Rightarrow> ('w \<Rightarrow> string \<Rightarrow> string option) \<Rightarrow> bool" where
  "file_server web c rem \<longleftrightarrow> gets_ok web rem \<and> puts_ok web c rem \<and> deletes_ok web c rem \<and> lists_below web c"

lemma ListDepth_rem: "gets_ok web rem \<Longrightarrow> rem (snd (ListDepth web c d n w)) = rem w"
  by (auto simp: ListDepth_def gets_ok_def httpGet_def split: prod.splits sum.splits) (metis snd_conv webReq.select_convs(1))+

lemma listed_snd [simp]: "snd (listed a) = snd a"
  by (auto simp: listed_def split: prod.splits sum.splits)

lemma ListOrEmpty_rem: "gets_ok web rem \<Longrightarrow> rem (snd (ListOrEmpty web c d w)) = rem w"
  using ListDepth_rem [of web rem c d 1 w]
  by (cases "ListDepth web c d 1 w") (auto simp: ListOrEmpty_def clList_def split: sum.splits)

lemma listRetry_rem: "gets_ok web rem \<Longrightarrow> rem (snd (listRetry web c d n w)) = rem w"
proof (induction n arbitrary: w)
  case (Suc n)
  obtain r w' where r: "listed (ListOrEmpty web c d w) = (r, w')" by fastforce
  then have "rem w' = rem w"
    using ListOrEmpty_rem [OF Suc.prems, of c d w] listed_snd [of "ListOrEmpty web c d w"] by simp
  with Suc r show ?case by (cases r) simp_all
qed (simp add: ListOrEmpty_rem)

lemma RandomNode_known:
  assumes "RandomNode web rnd c w = ((Inr (name, n), c'), w')" and "\<And>k. 0 < k \<Longrightarrow> rnd k < k" and "cl_nodes c = Some ns"
  shows "w' = w \<and> cn_Addr n \<in> nodeAddrs c"
proof -
  let ?l = "map fst (filter (\<lambda>(k, n). \<not> stale (cn_HBAgeStr n)) ns)"
  have r: "w' = w" "?l \<noteq> []" "name = ?l ! rnd (length ?l)" "n = orZero clientNode_zero (map_of ns name)"
    using assms(1,3) by (auto simp: RandomNode_def clNodes_def Let_def split: if_splits)
  have "name \<in> set ?l" using r(2,3) assms(2) [of "length ?l"] by (metis length_greater_0_conv nth_mem)
  then obtain m where "(name, m) \<in> set ns" by auto
  then obtain m' where m': "map_of ns name = Some m'" by (meson weak_map_of_SomeI)
  then have "(name, m') \<in> set ns" by (rule map_of_SomeD)
  with m' r(1,4) assms(3) show ?thesis by (force simp: nodeAddrs_def orZero_def)
qed

lemma sendPut_effect:
  assumes "sendPut web rnd sniff byExt c srcname dest sb x len opts w = Ret (er, w')" and "puts_ok web c rem"
    and "\<And>k. 0 < k \<Longrightarrow> rnd k < k" and "cl_nodes c = Some ns" and "dest \<noteq> []" "hd dest \<noteq> CHR ''/''" and "unescapePath dest = Some n"
  shows "rem w' = (rem w)(n \<mapsto> x) \<or> (rem w' = rem w \<and> er \<noteq> None)"
proof -
  obtain nr c1 w1 where rn: "RandomNode web rnd c w = ((nr, c1), w1)" by (metis surj_pair)
  have w1: "w1 = w" using rn assms(4) by (auto simp: RandomNode_def clNodes_def Let_def split: if_splits)
  show ?thesis
  proof (cases nr)
    case (Inl e)
    with assms(1) rn w1 show ?thesis by (auto simp: sendPut_def)
  next
    case (Inr nm)
    obtain name nd where nm: "nm = (name, nd)" by fastforce
    have a: "cn_Addr nd \<in> nodeAddrs c" using RandomNode_known [OF rn [unfolded Inr nm] assms(3,4)] by simp
    let ?q = "\<lparr>wq_Method = ''PUT'', wq_Url = ''http://'' @ cn_Addr nd @ ''/'' @ dest,
       wq_Header = putHeader (putType sniff byExt srcname sb opts) len opts, wq_Body = x, wq_Json = None\<rparr>"
    have u: "nodeURLFor nd dest = Ret (''http://'' @ cn_Addr nd @ ''/'' @ dest)"
      using assms(5,6) by (cases dest) (simp_all add: nodeURLFor_def)
    obtain r w2 where web: "web ?q w = (r, w2)" by fastforce
    have "rem w2 = (rem w)(n \<mapsto> x) \<or> (rem w2 = rem w \<and> (\<forall>y. r = Inr y \<longrightarrow> wr_Status y \<noteq> 201))"
      using assms(2) [unfolded puts_ok_def, rule_format, OF web _ a _ assms(7)] by simp
    moreover have "w2 = w' \<and> (\<forall>y. r = Inr y \<longrightarrow> wr_Status y \<noteq> 201 \<longrightarrow> er \<noteq> None) \<and> (\<forall>e. r = Inl e \<longrightarrow> er \<noteq> None)"
      using assms(1) rn w1 Inr nm u web by (auto simp: sendPut_def split: sum.splits)
    ultimately show ?thesis by (cases r) auto
  qed
qed

lemma Put_effect:
  assumes "Put web rnd sniff byExt c srcname dest f opts w = Ret (er, w')" and "puts_ok web c rem"
    and "\<And>k. 0 < k \<Longrightarrow> rnd k < k" and "cl_nodes c = Some ns" and "dest \<noteq> []" "hd dest \<noteq> CHR ''/''" and "unescapePath dest = Some n"
    and "po_ContentTransform opts = Some g" and "g (sr_data f) = None"
  shows "rem w' = (rem w)(n \<mapsto> sr_data f) \<or> (rem w' = rem w \<and> er \<noteq> None)"
proof -
  note send = sendPut_effect [OF _ assms(2-7)]
  show ?thesis
    using assms(1,8,9) by (auto simp: Put_def Let_def split: option.splits prod.splits dest: send)
qed

lemma Rm_effect:
  assumes "rmFile False web c fn w = (er, w')" and "deletes_ok web c rem" and "hd fn \<noteq> CHR ''/''" "unescapePath fn = Some n"
  shows "rem w' = (rem w)(n := None) \<or> (rem w' = rem w \<and> er \<noteq> None)"
proof -
  have t: "trimSlashes fn = fn" using assms(3) by (auto intro: trimSlashes_id)
  let ?q = "(httpGet (URLFor c fn))\<lparr>wq_Method := ''DELETE''\<rparr>"
  obtain r w1 where web: "web ?q w = (r, w1)" by fastforce
  have q: "wq_Method ?q = ''DELETE''" "wq_Url ?q = cl_u c @ fn" by (simp_all add: httpGet_def URLFor_def t)
  have "rem w1 = (rem w)(n := None) \<or> (rem w1 = rem w \<and> (\<forall>x. r = Inr x \<longrightarrow> wr_Status x \<notin> {204, 404}))"
    using assms(2) [unfolded deletes_ok_def, rule_format, OF web q assms(4)] .
  moreover have "w1 = w' \<and> (\<forall>x. r = Inr x \<longrightarrow> wr_Status x \<notin> {204, 404} \<longrightarrow> er \<noteq> None) \<and> (\<forall>e. r = Inl e \<longrightarrow> er \<noteq> None)"
    using assms(1) web by (auto simp: rmFile_def Rm_def split: sum.splits if_splits)
  ultimately show ?thesis by (cases r) auto
qed

section \<open>What a worker does\<close>

text \<open>A plain upload: no dry run, no meta information, no encryption; and a client that knows its nodes.\<close>

definition plain_upload :: "'w upload \<Rightarrow> client \<Rightarrow> ('w \<Rightarrow> string \<Rightarrow> string option) \<Rightarrow> bool" where
  "plain_upload u c rem \<longleftrightarrow>
     \<not> up_Noop u \<and> \<not> up_Meta u \<and> (\<forall>x. up_maybeCrypt u x = None) \<and> (\<forall>k > 0. up_rnd u k < k) \<and> cl_nodes c \<noteq> None \<and>
     file_server (up_web u) c rem"

lemma uploadOptions_transform [simp]: "po_ContentTransform (uploadOptions u lh) = Some (up_maybeCrypt u)"
  by (simp add: uploadOptions_def Let_def SetKeepRevs_def)

lemma upload_effect:
  assumes "attempt u c req w = Ret (er, w')" and "plain_upload u c rem" and "ur_op req = UploadFileOp"
    and "ur_dest req \<noteq> []" "hd (ur_dest req) \<noteq> CHR ''/''" "unescapePath (ur_dest req) = Some p"
  shows "(\<exists>x. up_open u (ur_src req) = Inr x \<and> rem w' = (rem w)(p \<mapsto> sr_data x)) \<or>
     (rem w' = rem w \<and> (er \<noteq> None \<or> (ur_remoteHash req \<noteq> [] \<and> localHash u (ur_src req) = ur_remoteHash req)))"
proof -
  have pl: "\<not> up_Noop u" "\<not> up_Meta u" "\<And>x. up_maybeCrypt u x = None" "puts_ok (up_web u) c rem"
    and rnd: "\<And>k. 0 < k \<Longrightarrow> up_rnd u k < k"
    using assms(2) by (simp_all add: plain_upload_def file_server_def)
  obtain ns where ns: "cl_nodes c = Some ns" using assms(2) by (auto simp: plain_upload_def)
  show ?thesis
  proof (cases "uploadFile u c (ur_src req) (ur_dest req) (localHash u (ur_src req)) w = Ret (er, w')")
    case True
    show ?thesis
    proof (cases "up_open u (ur_src req)")
      case (Inl e)
      with True pl show ?thesis by (auto simp: uploadFile_def)
    next
      case (Inr x)
      with True pl have "Put (up_web u) (up_rnd u) (up_sniff u) (up_byExt u) c (ur_src req) (ur_dest req) x
          (uploadOptions u (localHash u (ur_src req))) w = Ret (er, w')"
        by (auto simp: uploadFile_def uploadStream_def split: go.splits prod.splits option.splits)
      from Put_effect [OF this pl(4) rnd ns assms(4-6) uploadOptions_transform pl(3)] Inr show ?thesis by auto
    qed
  next
    case False
    with assms(1,3) show ?thesis by (auto simp: attempt_def Let_def split: if_splits)
  qed
qed

lemma remove_effect:
  assumes "attempt u c req w = Ret (er, w')" and "plain_upload u c rem" and "ur_op req = RemoveFileOp"
    and "hd (ur_dest req) \<noteq> CHR ''/''" "unescapePath (ur_dest req) = Some p"
  shows "rem w' = (rem w)(p := None) \<or> (rem w' = rem w \<and> er \<noteq> None)"
proof (rule Rm_effect [OF _ _ assms(4,5)])
  show "rmFile False (up_web u) c (ur_dest req) w = (er, w')" "deletes_ok (up_web u) c rem"
    using assms(1-3) by (simp_all add: attempt_def plain_upload_def file_server_def)
qed

lemma quote_hd: "s \<noteq> [] \<Longrightarrow> hd s \<noteq> CHR ''/'' \<Longrightarrow> quotingReplacer s \<noteq> [] \<and> hd (quotingReplacer s) \<noteq> CHR ''/''"
  by (cases s) (auto simp: quotingReplacer_def quoteChar_def)

lemma unescape_quoted [simp]: "unescapePath (quotingReplacer a) = Some a"
  using unescape_quote [of a "[]"] by simp

lemma quote_inject: "quotingReplacer a = quotingReplacer b \<longleftrightarrow> a = b"
  by (metis unescape_quoted option.inject)

lemma rmAll_effect:
  assumes "rmAll noop web c fns w = (er, w')" and "deletes_ok web c rem" and "\<forall>f \<in> set fns. plainDir f" and "p \<notin> set fns"
  shows "rem w' p = rem w p"
  using assms
proof (induction fns arbitrary: w)
  case (Cons f fns)
  obtain e w1 where r: "rmFile False web c (quotingReplacer f) w = (e, w1)" by fastforce
  have "hd (quotingReplacer f) \<noteq> CHR ''/''" using Cons.prems(3) quote_hd [of f] by (simp add: plainDir_def)
  from Rm_effect [OF r Cons.prems(2) this unescape_quoted] Cons.prems(4) have "rem w1 p = rem w p" by auto
  with Cons r show ?case by (auto split: if_splits option.splits)
qed simp

text \<open>The names directly below a directory are not touched by a recursive removal below one of them.\<close>

lemma recurse_effect:
  assumes "attempt u c req w = Ret (er, w')" and "plain_upload u c rem" and "ur_op req = RemoveRecurseOp"
    and "ur_dest req = d @ ''/'' @ q" "plainDir d" and "CHR ''/'' \<notin> set m"
  shows "rem w' (d @ ''/'' @ m) = rem w (d @ ''/'' @ m)"
proof -
  have fs: "gets_ok (up_web u) rem" "deletes_ok (up_web u) c rem" "lists_below (up_web u) c"
    using assms(2) by (simp_all add: plain_upload_def file_server_def)
  obtain r w1 where l: "listed (ListDepth (up_web u) c (ur_dest req) 8192 w) = (r, w1)" by fastforce
  have w1: "rem w1 = rem w"
    using ListDepth_rem [OF fs(1), of c "ur_dest req" 8192 w] listed_snd [of "ListDepth (up_web u) c (ur_dest req) 8192 w"] l by simp
  show ?thesis
  proof (cases r)
    case (Inl e)
    with assms(1,3) l w1 show ?thesis by (auto simp: attempt_def uploadRmDashR_def uploadRmDir_def)
  next
    case (Inr x)
    have pd: "plainDir (ur_dest req)" using assms(4,5) by (simp add: plainDir_def)
    have below: "\<forall>f \<in> set (map fst (lr_Files x)). \<exists>s. f = ur_dest req @ ''/'' @ s"
      using fs(3) [unfolded lists_below_def, rule_format, OF pd l [unfolded Inr]] by blast
    have "rmAll (up_Noop u) (up_web u) c (map fst (lr_Files x)) w1 = (er, w')"
      using assms(1,3) l Inr by (simp add: attempt_def uploadRmDashR_def uploadRmDir_def)
    moreover have "\<forall>f \<in> set (map fst (lr_Files x)). plainDir f"
      using below assms(4,5) by (auto simp: plainDir_def)
    moreover have "d @ ''/'' @ m \<notin> set (map fst (lr_Files x))"
    proof
      assume "d @ ''/'' @ m \<in> set (map fst (lr_Files x))"
      then obtain t where "d @ ''/'' @ m = ur_dest req @ ''/'' @ t" using below by blast
      then have "m = q @ ''/'' @ t" using assms(4) by simp
      with assms(6) show False by simp
    qed
    ultimately have "rem w' (d @ ''/'' @ m) = rem w1 (d @ ''/'' @ m)" by (rule rmAll_effect [OF _ fs(2)])
    with w1 show ?thesis by simp
  qed
qed

lemma attempts_inv:
  assumes "attempts u c req k w = Ret (er, w')" and "I w"
    and "\<And>v e v'. I v \<Longrightarrow> attempt u c req v = Ret (e, v') \<Longrightarrow> I v' \<and> (e = None \<longrightarrow> G v')"
  shows "I w' \<and> (er = None \<longrightarrow> G w')"
  using assms(1,2)
proof (induction "3 - k" arbitrary: k w rule: less_induct)
  case less
  obtain e v where a: "attempt u c req w = Ret (e, v)"
    using less.prems(1) by (subst (asm) attempts.simps) (auto split: go.splits prod.splits)
  note step = assms(3) [OF less.prems(2) a]
  show ?case
  proof (cases "e \<noteq> None \<and> k < 3")
    case True
    with less.prems(1) a have "attempts u c req (Suc k) v = Ret (er, w')"
      by (subst (asm) attempts.simps) auto
    moreover have "3 - Suc k < 3 - k" using True by auto
    ultimately show ?thesis using less.hyps [of "Suc k" v] step by simp
  next
    case False
    with less.prems(1) a have "er = e" "w' = v" by (subst (asm) attempts.simps; auto split: if_splits option.splits)+
    with step show ?thesis by simp
  qed
qed

text \<open>A run of a worker without errors: every request succeeded once, and what all keep stays.\<close>

lemma worker_inv:
  assumes "uploadWorker u c reqs w = Ret (ers, w')" and "I w"
    and "\<And>req v e v'. req \<in> set reqs \<Longrightarrow> I v \<Longrightarrow> attempt u c req v = Ret (e, v') \<Longrightarrow> I v'"
  shows "I w'"
  using assms
proof (induction reqs arbitrary: w ers)
  case (Cons req reqs)
  obtain e v where a: "attempts u c req 0 w = Ret (e, v)"
    using Cons.prems(1) by (auto split: go.splits)
  obtain ers' where b: "uploadWorker u c reqs v = Ret (ers', w')"
    using Cons.prems(1) a by (auto split: go.splits)
  have "I v"
    by (rule conjunct1 [OF attempts_inv [where I = I and G = "\<lambda>_. True", OF a Cons.prems(2)]]) (use Cons.prems(3) [of req] in simp)
  from b this show ?case by (rule Cons.IH) (rule Cons.prems(3) [OF list.set_intros(2)])
qed simp

lemma worker_done:
  assumes "uploadWorker u c reqs w = Ret ([], w')" and "I w" and "req0 \<in> set reqs"
    and "\<And>req v e v'. req \<in> set reqs \<Longrightarrow> I v \<Longrightarrow> attempt u c req v = Ret (e, v') \<Longrightarrow> I v'"
    and "\<And>req v e v'. req \<in> set reqs \<Longrightarrow> G v \<Longrightarrow> attempt u c req v = Ret (e, v') \<Longrightarrow> G v'"
    and "\<And>v v'. I v \<Longrightarrow> attempt u c req0 v = Ret (None, v') \<Longrightarrow> G v'"
  shows "G w'"
  using assms(1-5)
proof (induction reqs arbitrary: w)
  case (Cons req reqs)
  obtain e v where a: "attempts u c req 0 w = Ret (e, v)"
    using Cons.prems(1) by (auto split: go.splits)
  obtain ers' where b: "uploadWorker u c reqs v = Ret (ers', w')"
    using Cons.prems(1) a by (auto split: go.splits)
  have e: "e = None" "ers' = []" using Cons.prems(1) a b by (auto split: option.splits)
  show ?case
  proof (cases "req = req0")
    case True
    have "I v \<and> (e = None \<longrightarrow> G v)"
    proof (rule attempts_inv [where I = I and G = G, OF a Cons.prems(2)])
      fix x er y
      assume x: "I x" "attempt u c req x = Ret (er, y)"
      have "er = None \<longrightarrow> G y" using assms(6) [OF x(1)] x(2) True by blast
      with Cons.prems(4) [OF list.set_intros(1) x] show "I y \<and> (er = None \<longrightarrow> G y)" by blast
    qed
    then have "G v" using e(1) by simp
    with b show ?thesis by (rule worker_inv) (rule Cons.prems(5) [OF list.set_intros(2)])
  next
    case False
    have v: "I v"
      by (rule conjunct1 [OF attempts_inv [where I = I and G = "\<lambda>_. True", OF a Cons.prems(2)]]) (use Cons.prems(4) [of req] in simp)
    have r: "req0 \<in> set reqs" using Cons.prems(3) False by simp
    from b [unfolded e] v r show ?thesis
      by (rule Cons.IH) (rule Cons.prems(4,5) [OF list.set_intros(2)]; assumption)+
  qed
qed simp

section \<open>The requests of a directory\<close>

lemma localNames_distinct: "localNames u path fis m = Ret loc \<Longrightarrow> distinct (map fst m) \<Longrightarrow> distinct (map fst loc)"
  by (induction u path fis m rule: localNames.induct) (auto simp: distinct_update split: if_splits go.splits bool.splits)

lemma unescape_dest [simp]: "unescapePath (quotingReplacer d @ CHR ''/'' # quotingReplacer n) = Some (d @ CHR ''/'' # n)"
  using unescape_quote [of d "''/'' @ quotingReplacer n"] by simp

lemma plainDir_dest: "plainDir d \<Longrightarrow> quotingReplacer d @ x \<noteq> [] \<and> hd (quotingReplacer d @ x) \<noteq> CHR ''/''"
  using quote_hd [of d] by (simp add: plainDir_def)

text \<open>The requests of a directory are uploads of local files and removals of names that are not local.\<close>

definition removal :: "string \<Rightarrow> string \<Rightarrow> uploadReq \<Rightarrow> bool" where
  "removal d n req \<longleftrightarrow> ur_op req \<noteq> UploadFileOp \<and> ur_dest req = d @ ''/'' @ quotingReplacer n"

definition syncReqs :: "bool \<Rightarrow> string \<Rightarrow> string \<Rightarrow> listResult \<Rightarrow> (string \<times> fileInfo) list \<Rightarrow> uploadReq list" where
  "syncReqs del path d l loc =
     changedReqs path d l loc @ missingReqs path d l loc @ (if del then removeReqs d l loc else [])"

lemma syncReqs_cases:
  assumes "req \<in> set (syncReqs del path d l loc)"
  shows "(\<exists>n \<in> fst ` set loc. \<exists>h. req = uploadTo path d n h \<and> (h = [] \<or> (n, h) \<in> set (lr_Files l))) \<or>
     (del \<and> (\<exists>n \<in> set (remoteNames l) - fst ` set loc. removal d n req))"
proof -
  consider "req \<in> set (changedReqs path d l loc)" | "req \<in> set (missingReqs path d l loc)" | "del" "req \<in> set (removeReqs d l loc)"
    using assms by (auto simp: syncReqs_def split: if_splits)
  then show ?thesis
  proof cases
    case 1
    then obtain n fi h where n: "(n, fi) \<in> set loc" "map_of (lr_Files l) n = Some h" "req = uploadTo path d n h"
      by (auto simp: changedReqs_def List.map_filter_def split: if_splits)
    then have "n \<in> fst ` set loc" "(n, h) \<in> set (lr_Files l)" by (force, auto dest: map_of_SomeD)
    with n(3) show ?thesis by blast
  next
    case 2
    then obtain n fi where "(n, fi) \<in> set loc" "req = uploadTo path d n []" by (auto simp: missingReqs_def)
    then show ?thesis by (intro disjI1 bexI [of _ n] exI [of _ "[]"]) force+
  next
    case 3
    then show ?thesis by (auto simp: removeReqs_def removal_def)
  qed
qed

text \<open>Every local file has its request, unless a directory of that name hides it; every other name its removal.\<close>

lemma syncReqs_upload:
  assumes "(n, fi) \<in> set loc" and "\<not> fiIsDir fi" and "n \<in> fst ` set (lr_Files l) \<or> n \<notin> set (lr_Dirs l)" and "n \<noteq> []"
  shows "\<exists>h. uploadTo path d n h \<in> set (syncReqs del path d l loc)"
proof (cases "n \<in> set (remoteNames l)")
  case True
  with assms(3) have "n \<in> fst ` set (lr_Files l)" by (auto simp: remoteNames_def)
  then obtain h where h: "map_of (lr_Files l) n = Some h" by (metis map_of_eq_None_iff not_None_eq)
  with True assms(1,2) have "uploadTo path d n h \<in> set (changedReqs path d l loc)"
    by (force simp: changedReqs_def List.map_filter_def)
  then show ?thesis by (auto simp: syncReqs_def)
next
  case False
  with assms(1,2) have "uploadTo path d n [] \<in> set (missingReqs path d l loc)"
    by (force simp: missingReqs_def)
  then show ?thesis by (auto simp: syncReqs_def)
qed

lemma syncReqs_remove:
  assumes "n \<in> set (remoteNames l)" and "n \<notin> fst ` set loc"
  shows "\<lparr>ur_src = [], ur_dest = d @ ''/'' @ quotingReplacer n, ur_op = RemoveFileOp, ur_remoteHash = []\<rparr> \<in> set (syncReqs True path d l loc)"
  using assms by (auto simp: syncReqs_def removeReqs_def)

text \<open>What one attempt does to a name directly below the directory.\<close>

lemma removal_attempt:
  assumes "attempt u c req w = Ret (er, w')" and "plain_upload u c rem" and "removal d n req" and "plainDir d"
    and "quotingReplacer d = d" and "CHR ''/'' \<notin> set m"
  shows "rem w' (d @ ''/'' @ m) = rem w (d @ ''/'' @ m) \<or> (n = m \<and> rem w' (d @ ''/'' @ m) = None)"
    and "ur_op req = RemoveFileOp \<Longrightarrow> er = None \<Longrightarrow> n = m \<Longrightarrow> rem w' (d @ ''/'' @ m) = None"
proof -
  have d: "ur_dest req = d @ ''/'' @ quotingReplacer n" using assms(3) by (simp add: removal_def)
  have hd: "hd (ur_dest req) \<noteq> CHR ''/''" using assms(4) d by (auto simp: plainDir_def)
  have un: "unescapePath (ur_dest req) = Some (d @ ''/'' @ n)" using unescape_dest [of d n] assms(5) d by simp
  consider "ur_op req = RemoveFileOp" | "ur_op req = RemoveRecurseOp"
    using assms(3) by (cases "ur_op req") (auto simp: removal_def)
  then show "rem w' (d @ ''/'' @ m) = rem w (d @ ''/'' @ m) \<or> (n = m \<and> rem w' (d @ ''/'' @ m) = None)"
  proof cases
    case 1
    from remove_effect [OF assms(1,2) 1 hd un] show ?thesis by (cases "n = m") auto
  next
    case 2
    from recurse_effect [OF assms(1,2) 2 d assms(4,6)] show ?thesis by simp
  qed
  show "rem w' (d @ ''/'' @ m) = None" if "ur_op req = RemoveFileOp" "er = None" "n = m"
    using remove_effect [OF assms(1,2) that(1) hd un] that by auto
qed

lemma upload_attempt:
  assumes "attempt u c (uploadTo path d n h) w = Ret (er, w')" and "plain_upload u c rem" and "plainDir d"
  shows "(\<exists>x. up_open u (Join path n) = Inr x \<and> rem w' = (rem w)(d @ ''/'' @ n \<mapsto> sr_data x)) \<or>
     (rem w' = rem w \<and> (er \<noteq> None \<or> (h \<noteq> [] \<and> localHash u (Join path n) = h)))"
  using upload_effect [OF assms(1,2), of "d @ ''/'' @ n"] plainDir_dest [OF assms(3)]
  by (simp add: uploadTo_def)

section \<open>A synchronisation\<close>

text \<open>Names that no request is about stay, and the others change only to what their request is for.\<close>

lemma sync_attempt:
  assumes "plain_upload u c rem" and "plainDir d" and "del \<longrightarrow> quotingReplacer d = d"
    and "req \<in> set (syncReqs del path d l loc)" and "attempt u c req v = Ret (e, v')" and "CHR ''/'' \<notin> set m"
  shows "rem v' (d @ ''/'' @ m) = rem v (d @ ''/'' @ m) \<or>
     (m \<in> fst ` set loc \<and> (\<exists>x. up_open u (Join path m) = Inr x \<and> rem v' (d @ ''/'' @ m) = Some (sr_data x))) \<or>
     (del \<and> m \<in> set (remoteNames l) - fst ` set loc \<and> rem v' (d @ ''/'' @ m) = None)"
proof -
  consider (upload) n h where "n \<in> fst ` set loc" "req = uploadTo path d n h"
    | (remove) n where "del" "n \<in> set (remoteNames l) - fst ` set loc" "removal d n req"
    using syncReqs_cases [OF assms(4)] by blast
  then show ?thesis
  proof cases
    case upload
    from upload_attempt [OF assms(5) [unfolded upload(2)] assms(1,2)] upload(1) show ?thesis by (cases "n = m") auto
  next
    case remove
    from removal_attempt(1) [OF assms(5,1) remove(3) assms(2) assms(3) [rule_format, OF remove(1)] assms(6)] remove show ?thesis by auto
  qed
qed

lemma sync_keeps:
  assumes "plain_upload u c rem" and "plainDir d" and "del \<longrightarrow> quotingReplacer d = d"
    and "set order = set (syncReqs del path d l loc)" and "uploadWorker u c order w = Ret (ers, w')"
    and "CHR ''/'' \<notin> set m" "m \<notin> fst ` set loc" "\<not> del \<or> m \<notin> set (remoteNames l)"
  shows "rem w' (d @ ''/'' @ m) = rem w (d @ ''/'' @ m)"
proof (rule worker_inv [OF assms(5), of "\<lambda>v. rem v (d @ ''/'' @ m) = rem w (d @ ''/'' @ m)"])
  fix req v e v'
  assume "req \<in> set order" "rem v (d @ ''/'' @ m) = rem w (d @ ''/'' @ m)" "attempt u c req v = Ret (e, v')"
  with sync_attempt [OF assms(1-3), of req path l loc v e v' m] assms(4,6-8)
  show "rem v' (d @ ''/'' @ m) = rem w (d @ ''/'' @ m)" by auto
qed simp

lemma sync_removes:
  assumes "plain_upload u c rem" and "plainDir d" and "del \<longrightarrow> quotingReplacer d = d"
    and "set order = set (syncReqs del path d l loc)" and "uploadWorker u c order w = Ret ([], w')"
    and "del" "n \<in> set (remoteNames l) - fst ` set loc" and "CHR ''/'' \<notin> set n"
  shows "rem w' (d @ ''/'' @ n) = None"
proof -
  let ?r = "\<lparr>ur_src = [], ur_dest = d @ ''/'' @ quotingReplacer n, ur_op = RemoveFileOp, ur_remoteHash = []\<rparr>"
  have r: "?r \<in> set order" using syncReqs_remove [of n l loc d path] assms(4,6,7) by simp
  show ?thesis
  proof (rule worker_done [OF assms(5), of "\<lambda>_. True" ?r "\<lambda>v. rem v (d @ ''/'' @ n) = None"])
    fix req v e v'
    assume "req \<in> set order" "rem v (d @ ''/'' @ n) = None" "attempt u c req v = Ret (e, v')"
    with sync_attempt [OF assms(1-3), of req path l loc v e v' n] assms(4,7,8)
    show "rem v' (d @ ''/'' @ n) = None" by auto
  next
    fix v v'
    assume "attempt u c ?r v = Ret (None, v')"
    from removal_attempt(2) [OF this assms(1) _ assms(2) assms(3) [rule_format, OF assms(6)] assms(8)]
    show "rem v' (d @ ''/'' @ n) = None" by (simp add: removal_def)
  qed (use r in simp_all)
qed

lemma worker_success:
  assumes "uploadWorker u c reqs w = Ret ([], w')" and "req \<in> set reqs"
  shows "\<exists>v v'. attempt u c req v = Ret (None, v')"
  using worker_done [OF assms(1), of "\<lambda>_. True" req "\<lambda>_. \<exists>v v'. attempt u c req v = Ret (None, v')"] assms(2) by blast

lemma unknown_no_hash: "hexEncode s \<noteq> ''unknown''"
proof
  assume "hexEncode s = ''unknown''"
  then have "2 * length s = 7" using length_hexEncode [of s] by simp
  then show False by presburger
qed

lemma localHash_known: "localHash u fn = hexEncode y \<Longrightarrow> \<exists>x. up_open u fn = Inr x \<and> up_sha1 u (sr_data x) = y"
  using unknown_no_hash [of y] by (auto simp: localHash_def hexEncode_inject split: sum.splits if_splits)

lemma sync_uploads:
  assumes "plain_upload u c rem" and "plainDir d" and "del \<longrightarrow> quotingReplacer d = d"
    and "set order = set (syncReqs del path d l loc)" and "uploadWorker u c order w = Ret ([], w')"
    and "(n, fi) \<in> set loc" "\<not> fiIsDir fi" "n \<in> fst ` set (lr_Files l) \<or> n \<notin> set (lr_Dirs l)"
    and "n \<noteq> []" "CHR ''/'' \<notin> set n"
    and "\<forall>(n, oid) \<in> set (lr_Files l). \<exists>y. rem w (d @ ''/'' @ n) = Some y \<and> oid = hexEncode (up_sha1 u y)"
    and "\<And>x y. up_open u (Join path n) = Inr x \<Longrightarrow> rem w (d @ ''/'' @ n) = Some y \<Longrightarrow> up_sha1 u y = up_sha1 u (sr_data x) \<Longrightarrow> y = sr_data x"
  shows "\<exists>x. up_open u (Join path n) = Inr x \<and> rem w' (d @ ''/'' @ n) = Some (sr_data x)"
proof -
  let ?p = "d @ ''/'' @ n"
  obtain h where r: "uploadTo path d n h \<in> set order" using syncReqs_upload [OF assms(6-9)] assms(4) by blast
  have same: "\<exists>x. up_open u (Join path n) = Inr x \<and> rem w ?p = Some (sr_data x)" if "h \<noteq> []" "localHash u (Join path n) = h"
  proof -
    have "(n, h) \<in> set (lr_Files l)"
      using syncReqs_cases [of "uploadTo path d n h" del path d l loc] r assms(4) that(1)
      by (auto simp: uploadTo_def removal_def quote_inject)
    then obtain y where "rem w ?p = Some y" "h = hexEncode (up_sha1 u y)" using assms(11) by blast
    with that(2) localHash_known [of u "Join path n" "up_sha1 u y"] assms(12) show ?thesis by auto
  qed
  obtain v v' where s: "attempt u c (uploadTo path d n h) v = Ret (None, v')" using worker_success [OF assms(5) r] by blast
  obtain x where x: "up_open u (Join path n) = Inr x" using upload_attempt [OF s assms(1,2)] same by blast
  let ?G = "\<lambda>v. rem v ?p = Some (sr_data x)"
  have step: "rem b ?p = rem a ?p \<or> ?G b" if "req \<in> set order" "attempt u c req a = Ret (e, b)" for req a e b
    using sync_attempt [OF assms(1-3), of req path l loc a e b n] that assms(4,6,10) x by force
  have "?G w'"
  proof (rule worker_done [OF assms(5), of "\<lambda>v. rem v ?p = rem w ?p \<or> ?G v" "uploadTo path d n h"])
    fix a b
    assume "rem a ?p = rem w ?p \<or> ?G a" and "attempt u c (uploadTo path d n h) a = Ret (None, b)"
    with upload_attempt [OF this(2) assms(1,2)] same x show "?G b" by auto
  qed (use r step in \<open>auto dest!: step\<close>)
  with x show ?thesis by blast
qed

section \<open>Properties\<close>


text \<open>Printing numbers by division on integers, for evaluation.\<close>

function showInt :: "int \<Rightarrow> string" where
  "showInt i = (if i < 10 then [digitChar (nat i)] else showInt (i div 10) @ [digitChar (nat (i mod 10))])"
  by pat_completeness auto
termination by (relation "measure nat") auto

declare showInt.simps [simp del]

lemma showInt_showNat: "0 \<le> i \<Longrightarrow> showInt i = showNat (nat i)"
proof (induction i rule: showInt.induct)
  case (1 i)
  show ?case
  proof (cases "i < 10")
    case True
    with 1(2) have "nat i < 10" by simp
    with True show ?thesis by (subst showInt.simps, subst showNat.simps) simp
  next
    case False
    with 1 have "showInt (i div 10) = showNat (nat (i div 10))" by simp
    with False 1(2) show ?thesis
      by (subst showInt.simps, subst showNat.simps) (simp add: nat_div_distrib nat_mod_distrib)
  qed
qed

lemma itoa_code [code]: "itoa i = (if i < 0 then CHR ''-'' # showInt (- i) else showInt i)"
  using showInt_showNat [of i] showInt_showNat [of "- i"] by (simp add: itoa_def)

text \<open>A store in memory, and a directory with a changed, a new, an unchanged and a missing file.\<close>

definition siteListing :: "(string \<times> string) list \<Rightarrow> json" where
  "siteListing w = JObj [(''files'', JObj (map (\<lambda>(n, x). (drop 2 n, JObj [(''oid'', JStr (hexEncode x))])) w))]"

definition siteWeb :: "(string \<times> string) list web" where
  "siteWeb q w =
     (let reply = (\<lambda>st j. Inr \<lparr>wr_Status = st, wr_Header = [], wr_Body = BJson j, wr_Err = None\<rparr>);
          p = unescapePath (drop 11 (wq_Url q)) in
      if wq_Method q = ''PUT'' \<and> p \<noteq> None then (reply 201 (JObj []), AList.update (the p) (wq_Body q) w)
      else if wq_Method q = ''DELETE'' \<and> p \<noteq> None then (reply 204 (JObj []), AList.delete (the p) w)
      else (reply 200 (if hasSuffix (wq_Url q) ''depth=1'' then siteListing w else JObj []), w))"

definition siteClient :: client where
  "siteClient = \<lparr>cl_u = ''http://h:1/'', cl_nodes = Some [(''n1'', aNode\<lparr>cn_HBAgeStr := ''0''\<rparr>)]\<rparr>"

definition siteFiles :: "(string \<times> string) list" where
  "siteFiles = [(''s/a'', ''new''), (''s/b'', ''bee''), (''s/same'', ''same'')]"

definition siteUpload :: "(string \<times> string) list upload" where
  "siteUpload = \<lparr>up_web = siteWeb, up_rnd = (\<lambda>_. 0), up_sniff = (\<lambda>_. ''text/css''), up_byExt = (\<lambda>_. []), up_sha1 = (\<lambda>s. s),
     up_open = (\<lambda>f. case map_of siteFiles f of None \<Rightarrow> Inl EJson
       | Some x \<Rightarrow> Inr \<lparr>sr_data = x, sr_first = length x, sr_readErr = None, sr_seek = None\<rparr>),
     up_id3 = (\<lambda>_. JNull), up_exif = (\<lambda>_. Inr JNull), up_maybeCrypt = (\<lambda>_. None), up_ignored = isIgnored (\<lambda>p n. Some (p = n)) [''b.tmp''],
     up_Delete = True, up_Meta = False, up_Revs = 0, up_RevsSet = False, up_Noop = False, up_Unsafe = False, up_NoHash = False, up_Expiration = 0\<rparr>"

definition siteChildren :: "fileInfo list" where
  "siteChildren = map (\<lambda>n. \<lparr>fi_Name = n, fi_Mode = []\<rparr>) [''a'', ''b'', ''b.tmp'', ''same'']"

definition siteRemote :: "(string \<times> string) list" where
  "siteRemote = [(''d/a'', ''old''), (''d/gone'', ''x''), (''d/same'', ''same'')]"

lemma siteWeb_server: "file_server siteWeb siteClient map_of"
proof -
  have "gets_ok siteWeb map_of" by (auto simp: gets_ok_def siteWeb_def Let_def)
  moreover have "puts_ok siteWeb siteClient map_of"
    unfolding puts_ok_def
  proof (intro allI impI)
    fix q w r w' a p n
    assume q: "siteWeb q w = (r, w')" "wq_Method q = ''PUT''" "a \<in> nodeAddrs siteClient"
      "wq_Url q = ''http://'' @ a @ ''/'' @ p" "unescapePath p = Some n"
    then have "drop 11 (wq_Url q) = p" by (simp add: nodeAddrs_def siteClient_def aNode_def)
    with q have "w' = AList.update n (wq_Body q) w" by (simp add: siteWeb_def Let_def)
    then show "map_of w' = (map_of w)(n \<mapsto> wq_Body q) \<or> (map_of w' = map_of w \<and> (\<forall>x. r = Inr x \<longrightarrow> wr_Status x \<noteq> 201))"
      by (simp add: update_conv')
  qed
  moreover have "deletes_ok siteWeb siteClient map_of"
    unfolding deletes_ok_def
  proof (intro allI impI)
    fix q w r w' p n
    assume q: "siteWeb q w = (r, w')" "wq_Method q = ''DELETE''" "wq_Url q = cl_u siteClient @ p" "unescapePath p = Some n"
    then have "drop 11 (wq_Url q) = p" by (simp add: siteClient_def)
    with q have "w' = AList.delete n w" by (simp add: siteWeb_def Let_def)
    then show "map_of w' = (map_of w)(n := None) \<or> (map_of w' = map_of w \<and> (\<forall>x. r = Inr x \<longrightarrow> wr_Status x \<notin> {204, 404}))"
      by (simp add: delete_conv')
  qed
  moreover have "lists_below siteWeb siteClient"
  proof -
    have i: "itoa 8192 = ''8192''" by code_simp
    have "\<not> hasSuffix (x @ ''?includeMeta=true&depth='' @ itoa 8192) ''depth=1''" for x
      by (simp add: i hasSuffix_def)
    moreover have "decListing (JObj []) = Some \<lparr>lr_Files = [], lr_Dirs = []\<rparr>" by code_simp
    ultimately have "listed (ListDepth siteWeb siteClient dir 8192 w) = (Inr \<lparr>lr_Files = [], lr_Dirs = []\<rparr>, w)" for dir w
      by (simp add: ListDepth_def siteWeb_def httpGet_def bodyJson_def listed_def)
    then show ?thesis by (simp add: lists_below_def)
  qed
  ultimately show ?thesis by (simp add: file_server_def)
qed


section \<open>Names the tool gets wrong\<close>

text \<open>
  Below a source directory other than the dot and the root, the destination of a directory is the same
  relative path; for the dot the first character of every name is lost.
\<close>

definition destOf :: "string \<Rightarrow> string \<Rightarrow> string \<Rightarrow> string" where
  "destOf src dest path = dropSlashes dest @ drop (length (Clean src)) path"

lemma destOf_dot: "destOf ''.'' ''backup'' (Join ''.'' ''photos'') = ''backuphotos''"
  by code_simp

lemma destOf_below: "destOf ''src/'' ''backup/'' (Join (Clean ''src/'') ''photos'') = ''backup/photos''"
  by code_simp

text \<open>The listing for a recursive removal asks for the quoted name as it stands.\<close>

lemma recurse_lists_quoted:
  "unescapePath (escapePath (listPath (''d/'' @ quotingReplacer ''a b''))) = Some ''/.cbfs/list/d/a%20b''"
  unfolding unescape_escapePath by code_simp

text \<open>A last line of the ignore file without a line break is not read.\<close>

lemma loadIgnorePatterns_last_line: "CHR 0x0A \<notin> set d \<Longrightarrow> loadIgnorePatterns glob None d pats = (None, pats)"
  by (simp add: loadIgnorePatterns.simps)

end
