(* ===== verification/Client_Tools.thy ===== *)
theory Client_Tools
  imports Upload_Tool "HOL-Library.List_Lexorder" "HOL-Library.Char_ord" "HOL-Library.Word"
begin

text \<open>
  The other commands of \<open>src/tools/cbfsclient\<close>: finding files and directories by name (\<open>find.go\<close>), downloading a
  tree (\<open>download.go\<close>) and listing a directory (\<open>ls.go\<close>). Matching a pattern is the parameter \<open>glob\<close> of the
  upload command. The local files have an identity, since the download command makes hard links. The
  lemmas show that a search over relative names ends and reports every directory once, and what a
  download leaves in the local files.
\<close>

section \<open>Finding\<close>

datatype findType = FindAny | FindFile | FindDir

definition findTypeSet :: "string \<Rightarrow> findType option" where
  "findTypeSet s =
     (if s = [] then Some FindAny else if s = ''f'' then Some FindFile else if s = ''d'' then Some FindDir else None)"

definition findTypeString :: "findType \<Rightarrow> string" where
  "findTypeString t = (case t of FindAny \<Rightarrow> [] | FindFile \<Rightarrow> ''f'' | FindDir \<Rightarrow> ''d'')"

text \<open>The directories seen are a map shared by all calls: it is handed on from call to call.\<close>

record dirAndFileMatcher =
  mt_m :: "string list"
  mt_p :: string
  mt_i :: bool

definition newDirAndFileMatcher :: "string \<Rightarrow> string \<Rightarrow> dirAndFileMatcher" where
  "newDirAndFileMatcher dashName dashIName =
     (if dashIName \<noteq> [] then \<lparr>mt_m = [], mt_p = toLower dashIName, mt_i = True\<rparr>
      else \<lparr>mt_m = [], mt_p = dashName, mt_i = False\<rparr>)"

text \<open>A malformed pattern ends the program.\<close>

definition fmatch :: "(string \<Rightarrow> string \<Rightarrow> bool option) \<Rightarrow> findType \<Rightarrow> dirAndFileMatcher \<Rightarrow> string \<Rightarrow> bool \<Rightarrow> bool go" where
  "fmatch glob ft d name isdir =
     (if (ft = FindFile \<and> isdir) \<or> (ft = FindDir \<and> \<not> isdir) then Ret False
      else (case glob (mt_p d) (if mt_i d then toLower name else name) of None \<Rightarrow> Panic | Some b \<Rightarrow> Ret b))"

text \<open>
  The loop over the directories of a name, up to the dot: those matched, the innermost first, and the
  matcher. From an absolute name it never gets to the dot.
\<close>

partial_function (option) dirLoop ::
  "(string \<Rightarrow> string \<Rightarrow> bool option) \<Rightarrow> findType \<Rightarrow> dirAndFileMatcher \<Rightarrow> string \<Rightarrow> string list
     \<Rightarrow> (string list \<times> dirAndFileMatcher) go option" where
  "dirLoop glob ft d dir acc =
     (if dir = ''.'' then Some (Ret (acc, d))
      else if dir \<in> set (mt_m d) then dirLoop glob ft d (Dir dir) acc
      else (case fmatch glob ft d (Base dir) True of
              Panic \<Rightarrow> Some Panic
            | Ret b \<Rightarrow> dirLoop glob ft (d\<lparr>mt_m := dir # mt_m d\<rparr>) (Dir dir) (if b then acc @ [dir] else acc)))"

definition matches ::
  "(string \<Rightarrow> string \<Rightarrow> bool option) \<Rightarrow> findType \<Rightarrow> string \<Rightarrow> dirAndFileMatcher
     \<Rightarrow> ((string \<times> bool) list \<times> dirAndFileMatcher) go option" where
  "matches glob ft name d =
     (if mt_p d = [] then Some (Ret ([(name, False)], d))
      else (case dirLoop glob ft d (Dir name) [] of
              None \<Rightarrow> None
            | Some Panic \<Rightarrow> Some Panic
            | Some (Ret (ms, d')) \<Rightarrow>
                (case fmatch glob ft d' (Base name) False of
                   Panic \<Rightarrow> Some Panic
                 | Ret b \<Rightarrow> Some (Ret (map (\<lambda>m. (m, True)) (rev ms) @ (if b then [(name, False)] else []), d')))))"

definition findGetRefTimeMatch :: "duration \<Rightarrow> time \<Rightarrow> time \<Rightarrow> bool" where
  "findGetRefTimeMatch mtime now t =
     (if mtime > 0 then now - mtime < t else if mtime < 0 then now + mtime > t else True)"

text \<open>The source without its trailing slashes; one made of slashes is indexed out of range.\<close>

definition findSource :: "string \<Rightarrow> string go" where
  "findSource src = (let s = dropSlashes src in if s = [] then Panic else Ret s)"

definition findName :: "string \<Rightarrow> string \<Rightarrow> string" where
  "findName src fn = (if length fn > length src + 1 then drop (length src + 1) fn else fn)"

fun findAll ::
  "(string \<Rightarrow> string \<Rightarrow> bool option) \<Rightarrow> findType \<Rightarrow> (time \<Rightarrow> bool) \<Rightarrow> string \<Rightarrow> (string \<times> time) list \<Rightarrow> dirAndFileMatcher
     \<Rightarrow> (string \<times> bool) list go option" where
  "findAll glob ft tm src [] d = Some (Ret [])"
| "findAll glob ft tm src ((fn, t) # fs) d =
     (if \<not> tm t then findAll glob ft tm src fs d
      else (case matches glob ft (findName src fn) d of
              None \<Rightarrow> None
            | Some Panic \<Rightarrow> Some Panic
            | Some (Ret (ms, d')) \<Rightarrow>
                (case findAll glob ft tm src fs d' of
                   None \<Rightarrow> None
                 | Some Panic \<Rightarrow> Some Panic
                 | Some (Ret rest) \<Rightarrow> Some (Ret (ms @ rest)))))"

text \<open>The command over the files of the listing with their times: what it prints, in this order.\<close>

definition findCommand ::
  "(string \<Rightarrow> string \<Rightarrow> bool option) \<Rightarrow> findType \<Rightarrow> string \<Rightarrow> string \<Rightarrow> duration \<Rightarrow> time \<Rightarrow> string
     \<Rightarrow> (string \<Rightarrow> cerr + (string \<times> time) list) \<Rightarrow> (string \<times> bool) list go option" where
  "findCommand glob ft dashName dashIName mtime now src lst =
     (if dashName \<noteq> [] \<and> dashIName \<noteq> [] then Some Panic
      else (case findSource src of
              Panic \<Rightarrow> Some Panic
            | Ret s \<Rightarrow>
                (case lst s of
                   Inl er \<Rightarrow> Some Panic
                 | Inr fs \<Rightarrow>
                     findAll glob ft (findGetRefTimeMatch mtime now) s fs (newDirAndFileMatcher dashName dashIName))))"

section \<open>Listing\<close>

text \<open>The long form's totals, in 64 bits without sign, over directories (size, descendants) and lengths of files.\<close>

definition lsTotals :: "(int \<times> int) list \<Rightarrow> int list \<Rightarrow> 64 word \<times> int" where
  "lsTotals dirs lens =
     (sum_list (map (\<lambda>(size, n). of_int size) dirs) + sum_list (map of_int lens),
      i64 (sum_list (map snd dirs) + int (length lens)))"

definition lsNames :: "string list \<Rightarrow> string list \<Rightarrow> string list" where
  "lsNames dirs files = sort (sort dirs @ sort files)"

section \<open>Downloading\<close>

text \<open>
  Local files: the names, each with the number of its file; the contents by number; the directories;
  and the next number. Creating and linking need the directory; a name of a directory is no file.
\<close>

record lfs =
  lf_names :: "(string \<times> nat) list"
  lf_data :: "nat \<Rightarrow> string"
  lf_dirs :: "string list"
  lf_next :: nat

definition dirThere :: "string \<Rightarrow> lfs \<Rightarrow> bool" where
  "dirThere fn s \<longleftrightarrow> Dir fn \<in> set (lf_dirs s) \<or> Dir fn = ''.'' \<or> Dir fn = ''/''"

definition osCreate :: "string \<Rightarrow> lfs \<Rightarrow> nat option \<times> lfs" where
  "osCreate fn s =
     (if \<not> dirThere fn s \<or> fn \<in> set (lf_dirs s) then (None, s)
      else (case map_of (lf_names s) fn of
              Some k \<Rightarrow> (Some k, s\<lparr>lf_data := (lf_data s)(k := [])\<rparr>)
            | None \<Rightarrow> (Some (lf_next s), s\<lparr>lf_names := (fn, lf_next s) # lf_names s, lf_data := (lf_data s)(lf_next s := []),
                                       lf_next := Suc (lf_next s)\<rparr>)))"

datatype linkRes = LinkOk | LinkExists | LinkError

definition osLink :: "string \<Rightarrow> string \<Rightarrow> lfs \<Rightarrow> linkRes \<times> lfs" where
  "osLink old new s =
     (if map_of (lf_names s) new \<noteq> None \<or> new \<in> set (lf_dirs s) then (LinkExists, s)
      else if \<not> dirThere new s then (LinkError, s)
      else (case map_of (lf_names s) old of
              None \<Rightarrow> (LinkError, s)
            | Some k \<Rightarrow> (LinkOk, s\<lparr>lf_names := (new, k) # lf_names s\<rparr>)))"

text \<open>\<open>os.MkdirAll\<close> fails where a file is in the way, as \<open>mk\<close> says.\<close>

definition mkdirAll :: "(string \<Rightarrow> bool) \<Rightarrow> string \<Rightarrow> lfs \<Rightarrow> bool \<times> lfs" where
  "mkdirAll mk d s = (if mk d then (True, s\<lparr>lf_dirs := d # lf_dirs s\<rparr>) else (False, s))"

definition createIn :: "(string \<Rightarrow> bool) \<Rightarrow> string \<Rightarrow> lfs \<Rightarrow> nat option \<times> lfs" where
  "createIn mk fn s =
     (case osCreate fn s of
        (Some k, s') \<Rightarrow> (Some k, s')
      | (None, s') \<Rightarrow> (case mkdirAll mk (Dir fn) s' of (False, s'') \<Rightarrow> (None, s'') | (True, s'') \<Rightarrow> osCreate fn s''))"

fun createAll :: "(string \<Rightarrow> bool) \<Rightarrow> string list \<Rightarrow> lfs \<Rightarrow> nat list option \<times> lfs" where
  "createAll mk [] s = (Some [], s)"
| "createAll mk (fn # fns) s =
     (case createIn mk fn s of
        (None, s') \<Rightarrow> (None, s')
      | (Some k, s') \<Rightarrow> (case createAll mk fns s' of (ks, s'') \<Rightarrow> (map_option ((#) k) ks, s'')))"

fun linkAll :: "(string \<Rightarrow> bool) \<Rightarrow> string \<Rightarrow> string list \<Rightarrow> lfs \<Rightarrow> bool \<times> lfs" where
  "linkAll mk base [] s = (True, s)"
| "linkAll mk base (fn # fns) s =
     (case osLink base fn s of
        (LinkExists, s') \<Rightarrow> linkAll mk base fns s'
      | (LinkOk, s') \<Rightarrow> linkAll mk base fns s'
      | (LinkError, s') \<Rightarrow>
          (case mkdirAll mk (Dir fn) s' of
             (False, s'') \<Rightarrow> (False, s'')
           | (True, s'') \<Rightarrow>
               (case osLink base fn s'' of
                  (LinkOk, s3) \<Rightarrow> linkAll mk base fns s3
                | (_, s3) \<Rightarrow> (False, s3))))"

definition writeTo :: "nat list \<Rightarrow> string \<Rightarrow> lfs \<Rightarrow> lfs" where
  "writeTo ks x s = s\<lparr>lf_data := (\<lambda>k. if k \<in> set ks then x else lf_data s k)\<rparr>"

text \<open>
  The modes: a dry run, linking, and one file per name. With linking, a second failure to create the
  first file is not looked at: the copy then fails on the nil file. \<open>x\<close> and \<open>er\<close> are what the reader gives.
\<close>

datatype dlMode = DlNoop | DlLink | DlCopy

definition saveDownload ::
  "(string \<Rightarrow> bool) \<Rightarrow> dlMode \<Rightarrow> string list \<Rightarrow> string \<Rightarrow> gerr option \<Rightarrow> lfs \<Rightarrow> (bool \<times> lfs) go" where
  "saveDownload mk mode fns x er s =
     (case mode of
        DlNoop \<Rightarrow> Ret (er = None, s)
      | DlCopy \<Rightarrow>
          (case createAll mk fns s of
             (None, s') \<Rightarrow> Ret (False, s')
           | (Some ks, s') \<Rightarrow> Ret (er = None, writeTo ks x s'))
      | DlLink \<Rightarrow>
          (case fns of
             [] \<Rightarrow> Panic
           | base # rest \<Rightarrow>
               (case osCreate base s of
                  (Some k, s1) \<Rightarrow>
                    (case linkAll mk base rest s1 of
                       (False, s2) \<Rightarrow> Ret (False, s2)
                     | (True, s2) \<Rightarrow> Ret (er = None, writeTo [k] x s2))
                | (None, s1) \<Rightarrow>
                    (case mkdirAll mk (Dir base) s1 of
                       (False, s2) \<Rightarrow> Ret (False, s2)
                     | (True, s2) \<Rightarrow>
                         (case osCreate base s2 of
                            (ok, s3) \<Rightarrow>
                              (case linkAll mk base rest s3 of
                                 (False, s4) \<Rightarrow> Ret (False, s4)
                               | (True, s4) \<Rightarrow>
                                   (case ok of
                                      None \<Rightarrow> Ret (False, s4)
                                    | Some k \<Rightarrow> Ret (er = None, writeTo [k] x s4))))))))"

text \<open>The destinations by object id, and the ids asked for; a name shorter than the source panics.\<close>

fun downloadDests ::
  "string \<Rightarrow> string \<Rightarrow> (string \<times> string) list \<Rightarrow> (string \<times> string list) list \<Rightarrow> string list
     \<Rightarrow> ((string \<times> string list) list \<times> string list) go" where
  "downloadDests src destbase [] dests oids = Ret (dests, oids)"
| "downloadDests src destbase ((fn, oid) # fs) dests oids =
     (if length fn < length src then Panic
      else downloadDests src destbase fs
             (AList.update oid (orZero [] (map_of dests oid) @ [Join destbase (drop (length src) fn)]) dests) (oids @ [oid]))"

definition downloadPlan ::
  "string \<Rightarrow> string \<Rightarrow> (string \<Rightarrow> cerr + (string \<times> string) list) \<Rightarrow> ((string \<times> string list) list \<times> string list) go" where
  "downloadPlan src0 dest0 lst =
     (let destbase = (if dest0 = [] then Base src0 else dest0); src = trimSlashes src0 in
      case lst src of
        Inl er \<Rightarrow> Panic
      | Inr fs \<Rightarrow> downloadDests src destbase fs [] [])"

section \<open>Lemmas: finding\<close>

text \<open>The directories of a relative name, from a path up to the dot.\<close>

function ups :: "string \<Rightarrow> string list" where
  "ups p = (if p = ''.'' \<or> \<not> relative p then [] else p # ups (Dir p))"
  by pat_completeness auto
termination
proof (relation "measure (\<lambda>p. if p = ''.'' then 0 else Suc (length p))")
  fix p
  assume "\<not> (p = ''.'' \<or> \<not> relative p)"
  then show "(Dir p, p) \<in> measure (\<lambda>p. if p = ''.'' then 0 else Suc (length p))"
    using Dir_shorter [of p] by auto
qed simp

declare ups.simps [simp del]

lemma ups_length: "relative p \<Longrightarrow> q \<in> set (ups p) \<Longrightarrow> length q \<le> length p"
proof (induction p rule: ups.induct)
  case (1 p)
  show ?case
  proof (cases "p = ''.'' \<or> q = p")
    case True
    with 1(3) show ?thesis by (auto simp: ups.simps [of p])
  next
    case False
    then have q: "q \<in> set (ups (Dir p))" using 1(2,3) by (simp add: ups.simps [of p])
    then have "Dir p \<noteq> ''.''" by (auto simp: ups.simps [of "Dir p"])
    with Dir_shorter [OF 1(2)] 1(1) [OF _ _ q] 1(2) False show ?thesis by auto
  qed
qed

lemma ups_distinct: "relative p \<Longrightarrow> distinct (ups p)"
proof (induction p rule: ups.induct)
  case (1 p)
  show ?case
  proof (cases "p = ''.''")
    case True
    then show ?thesis by (simp add: ups.simps)
  next
    case False
    have d: "relative (Dir p)" "Dir p = ''.'' \<or> length (Dir p) < length p" using Dir_shorter [OF 1(2)] by auto
    have "p \<notin> set (ups (Dir p))"
    proof
      assume p: "p \<in> set (ups (Dir p))"
      then have "Dir p \<noteq> ''.''" by (auto simp: ups.simps [of "Dir p"])
      with d(2) ups_length [OF d(1) p] show False by simp
    qed
    with 1(1) [OF _ d(1)] 1(2) False show ?thesis by (simp add: ups.simps [of p])
  qed
qed

text \<open>What a well-formed pattern matches.\<close>

definition hits :: "(string \<Rightarrow> string \<Rightarrow> bool option) \<Rightarrow> findType \<Rightarrow> dirAndFileMatcher \<Rightarrow> bool \<Rightarrow> string \<Rightarrow> bool" where
  "hits glob ft d isdir path \<longleftrightarrow> fmatch glob ft d (Base path) isdir = Ret True"

definition wellformed :: "(string \<Rightarrow> string \<Rightarrow> bool option) \<Rightarrow> string \<Rightarrow> bool" where
  "wellformed glob p \<longleftrightarrow> (\<forall>s. glob p s \<noteq> None)"

lemma fmatch_hits: "wellformed glob (mt_p d) \<Longrightarrow> fmatch glob ft d (Base path) isdir = Ret (hits glob ft d isdir path)"
proof -
  assume "wellformed glob (mt_p d)"
  then obtain b where "glob (mt_p d) (if mt_i d then toLower (Base path) else Base path) = Some b"
    unfolding wellformed_def by (metis not_None_eq)
  then show ?thesis by (simp add: hits_def fmatch_def)
qed

lemma hits_seen [simp]: "hits glob ft (d\<lparr>mt_m := m\<rparr>) isdir path = hits glob ft d isdir path"
  by (simp add: hits_def fmatch_def)

lemma dirLoop_ups:
  assumes "wellformed glob (mt_p d)" and "relative dir"
  shows "dirLoop glob ft d dir acc =
     (let new = filter (\<lambda>x. x \<notin> set (mt_m d)) (ups dir)
      in Some (Ret (acc @ filter (hits glob ft d True) new, d\<lparr>mt_m := rev new @ mt_m d\<rparr>)))"
  using assms
proof (induction dir arbitrary: d acc rule: ups.induct)
  case (1 dir)
  have r: "relative (Dir dir)" using Dir_shorter [OF 1(3)] by simp
  show ?case
  proof (cases "dir = ''.''")
    case True
    then show ?thesis by (simp add: dirLoop.simps ups.simps)
  next
    case False
    have u: "ups dir = dir # ups (Dir dir)" using False 1(3) by (simp add: ups.simps [of dir])
    have nd: "dir \<notin> set (ups (Dir dir))" using ups_distinct [OF 1(3)] u by simp
    have c: "\<not> (dir = ''.'' \<or> \<not> relative dir)" using False 1(3) by simp
    note IH = 1(1) [OF c _ r]
    show ?thesis
    proof (cases "dir \<in> set (mt_m d)")
      case True
      with False u IH [OF 1(2)] show ?thesis by (subst dirLoop.simps) (simp add: Let_def)
    next
      case new: False
      have f: "filter (\<lambda>x. x \<notin> set (dir # mt_m d)) (ups (Dir dir)) = filter (\<lambda>x. x \<notin> set (mt_m d)) (ups (Dir dir))"
        using nd by (intro filter_cong) auto
      from False new u IH [of "d\<lparr>mt_m := dir # mt_m d\<rparr>"] 1(2) fmatch_hits [OF 1(2), of ft dir True] f show ?thesis
        by (subst dirLoop.simps) (simp add: Let_def, intro filter_cong, use nd in auto)
    qed
  qed
qed

text \<open>The names a search looks at, and the reports of directories and of files.\<close>

definition names :: "(time \<Rightarrow> bool) \<Rightarrow> string \<Rightarrow> (string \<times> time) list \<Rightarrow> string list" where
  "names tm src fs = map (\<lambda>(fn, t). findName src fn) (filter (\<lambda>(fn, t). tm t) fs)"

definition dirsOf :: "(string \<times> bool) list \<Rightarrow> string list" where
  "dirsOf out = map fst (filter snd out)"

definition filesOf :: "(string \<times> bool) list \<Rightarrow> string list" where
  "filesOf out = map fst (filter (\<lambda>x. \<not> snd x) out)"

lemma reports_append [simp]:
  "dirsOf (a @ b) = dirsOf a @ dirsOf b" "filesOf (a @ b) = filesOf a @ filesOf b"
  "dirsOf (map (\<lambda>m. (m, True)) ms) = ms" "filesOf (map (\<lambda>m. (m, True)) ms) = []"
  "dirsOf [] = []" "filesOf [] = []" "dirsOf [(n, False)] = []" "filesOf [(n, False)] = [n]"
  by (simp_all add: dirsOf_def filesOf_def filter_map comp_def)

lemma findAll_reports:
  assumes "wellformed glob (mt_p d)" and "mt_p d \<noteq> []" and "list_all relative (names tm src fs)"
  shows "\<exists>out. findAll glob ft tm src fs d = Some (Ret out) \<and> distinct (dirsOf out) \<and>
     set (dirsOf out) = {a. \<exists>n \<in> set (names tm src fs). a \<in> set (ups (Dir n)) \<and> hits glob ft d True a} - set (mt_m d) \<and>
     filesOf out = filter (hits glob ft d False) (names tm src fs)"
  using assms
proof (induction fs arbitrary: d)
  case Nil
  then show ?case by (simp add: names_def)
next
  case (Cons f fs)
  obtain fn t where f: "f = (fn, t)" by fastforce
  show ?case
  proof (cases "tm t")
    case False
    with f have "names tm src (f # fs) = names tm src fs" by (simp add: names_def)
    with Cons f False show ?thesis by simp
  next
    case True
    let ?n = "findName src fn"
    have n: "names tm src (f # fs) = ?n # names tm src fs" using f True by (simp add: names_def)
    then have r: "relative (Dir ?n)" using Cons.prems(3) Dir_shorter [of ?n] by simp
    define new where "new = filter (\<lambda>x. x \<notin> set (mt_m d)) (ups (Dir ?n))"
    define d' where "d' = d\<lparr>mt_m := rev new @ mt_m d\<rparr>"
    have h: "hits glob ft d' b = hits glob ft d b" for b by (rule ext) (simp add: d'_def)
    have w': "wellformed glob (mt_p d')" "mt_p d' \<noteq> []" "set (mt_m d') = set (mt_m d) \<union> set new"
      using Cons.prems(1,2) by (auto simp: d'_def)
    have m: "matches glob ft ?n d = Some (Ret (map (\<lambda>m. (m, True)) (rev (filter (hits glob ft d True) new)) @
        (if hits glob ft d False ?n then [(?n, False)] else []), d'))"
      using dirLoop_ups [OF Cons.prems(1) r, of ft "[]"] Cons.prems(2) fmatch_hits [OF w'(1), of ft ?n False]
      by (simp add: matches_def new_def [symmetric] d'_def [symmetric] h)
    obtain out where out: "findAll glob ft tm src fs d' = Some (Ret out)" "distinct (dirsOf out)"
      "set (dirsOf out) = {a. \<exists>n \<in> set (names tm src fs). a \<in> set (ups (Dir n)) \<and> hits glob ft d True a} - set (mt_m d')"
      "filesOf out = filter (hits glob ft d False) (names tm src fs)"
      using Cons.IH [OF w'(1,2)] Cons.prems(3) n h by auto
    have "distinct new" using ups_distinct [OF r] by (simp add: new_def)
    moreover have "set new = set (ups (Dir ?n)) - set (mt_m d)" by (auto simp: new_def)
    ultimately show ?thesis
      using f True m out n w'(3) by (auto simp: filter_map)
  qed
qed

section \<open>Lemmas: downloading\<close>

definition contentOf :: "lfs \<Rightarrow> string \<Rightarrow> string option" where
  "contentOf s fn = map_option (lf_data s) (map_of (lf_names s) fn)"

lemma osCreate_name: "osCreate fn s = (Some k, s') \<Longrightarrow> map_of (lf_names s') fn = Some k"
  by (auto simp: osCreate_def split: if_splits option.splits)

lemma osCreate_keeps: "osCreate fn s = (r, s') \<Longrightarrow> map_of (lf_names s) f = Some k \<Longrightarrow> map_of (lf_names s') f = Some k"
  by (auto simp: osCreate_def split: if_splits option.splits)

lemma createIn_name: "createIn mk fn s = (Some k, s') \<Longrightarrow> map_of (lf_names s') fn = Some k"
  by (auto simp: createIn_def split: prod.splits option.splits bool.splits dest: osCreate_name)

lemma mkdirAll_names: "mkdirAll mk d s = (b, s') \<Longrightarrow> lf_names s' = lf_names s"
  by (auto simp: mkdirAll_def split: if_splits)

lemma createIn_keeps:
  assumes "createIn mk fn s = (r, s')" and "map_of (lf_names s) f = Some k"
  shows "map_of (lf_names s') f = Some k"
proof -
  obtain r1 s1 where c: "osCreate fn s = (r1, s1)" by fastforce
  note n1 = osCreate_keeps [OF c assms(2)]
  show ?thesis
  proof (cases r1)
    case None
    obtain b s2 where m: "mkdirAll mk (Dir fn) s1 = (b, s2)" by fastforce
    have "map_of (lf_names s2) f = Some k" using n1 mkdirAll_names [OF m] by simp
    with assms(1) c None m show ?thesis by (cases b) (auto simp: createIn_def dest: osCreate_keeps)
  next
    case (Some x)
    with assms(1) c n1 show ?thesis by (simp add: createIn_def)
  qed
qed

lemma createAll_keeps: "createAll mk fns s = (r, s') \<Longrightarrow> map_of (lf_names s) f = Some k \<Longrightarrow> map_of (lf_names s') f = Some k"
proof (induction fns arbitrary: s r)
  case (Cons fn fns)
  obtain r1 s1 where c: "createIn mk fn s = (r1, s1)" by fastforce
  note n1 = createIn_keeps [OF c Cons.prems(2)]
  show ?case
  proof (cases r1)
    case (Some x)
    then obtain r2 where "createAll mk fns s1 = (r2, s')"
      using Cons.prems(1) c by (auto split: prod.splits)
    then show ?thesis using n1 by (rule Cons.IH)
  qed (use Cons.prems(1) c n1 in simp)
qed simp

lemma createAll_names:
  "createAll mk fns s = (Some ks, s') \<Longrightarrow> fn \<in> set fns \<Longrightarrow> \<exists>k \<in> set ks. map_of (lf_names s') fn = Some k"
proof (induction fns arbitrary: s ks)
  case (Cons f fns)
  obtain k s1 where c: "createIn mk f s = (Some k, s1)"
    using Cons.prems(1) by (auto split: prod.splits option.splits)
  then obtain ks' where a: "createAll mk fns s1 = (Some ks', s')" "ks = k # ks'"
    using Cons.prems(1) by (auto split: prod.splits option.splits)
  show ?case
  proof (cases "fn = f")
    case True
    with createAll_keeps [OF a(1) createIn_name [OF c]] a(2) show ?thesis by simp
  next
    case False
    with Cons.IH [OF a(1)] Cons.prems(2) a(2) show ?thesis by simp
  qed
qed simp

lemma osLink_keeps: "osLink old new s = (r, s') \<Longrightarrow> map_of (lf_names s) f = Some k \<Longrightarrow> map_of (lf_names s') f = Some k"
  by (auto simp: osLink_def split: if_splits option.splits)

lemma osLink_other:
  "osLink old new s = (r, s') \<Longrightarrow> map_of (lf_names s) old = Some k \<Longrightarrow> map_of (lf_names s) f = None \<Longrightarrow>
     map_of (lf_names s') f = None \<or> map_of (lf_names s') f = Some k"
  by (auto simp: osLink_def split: if_splits option.splits)

lemma osLink_dirs: "osLink old new s = (r, s') \<Longrightarrow> lf_dirs s' = lf_dirs s"
  by (auto simp: osLink_def split: if_splits option.splits)

lemma osLink_new:
  "osLink old new s = (r, s') \<Longrightarrow> r \<noteq> LinkError \<Longrightarrow> map_of (lf_names s) old = Some k \<Longrightarrow> new \<notin> set (lf_dirs s) \<Longrightarrow>
     map_of (lf_names s) new = None \<Longrightarrow> map_of (lf_names s') new = Some k"
  by (auto simp: osLink_def split: if_splits option.splits)

lemma mkdirAll_dirs: "mkdirAll mk d s = (b, s') \<Longrightarrow> set (lf_dirs s) \<subseteq> set (lf_dirs s')"
  by (auto simp: mkdirAll_def split: if_splits)

text \<open>One name of a linking download: it is a name of the first file, unless it was there before.\<close>

definition linked :: "string \<Rightarrow> string \<Rightarrow> lfs \<Rightarrow> lfs \<Rightarrow> bool" where
  "linked base fn s s1 \<longleftrightarrow>
     set (lf_dirs s) \<subseteq> set (lf_dirs s1) \<and>
     (\<forall>f k. map_of (lf_names s) f = Some k \<longrightarrow> map_of (lf_names s1) f = Some k) \<and>
     (\<forall>f k. map_of (lf_names s) base = Some k \<longrightarrow> map_of (lf_names s) f = None \<longrightarrow>
        map_of (lf_names s1) f = None \<or> map_of (lf_names s1) f = Some k) \<and>
     (\<forall>k. map_of (lf_names s) base = Some k \<longrightarrow> map_of (lf_names s) fn = None \<longrightarrow> fn \<notin> set (lf_dirs s1) \<longrightarrow>
        map_of (lf_names s1) fn = Some k)"

lemma osLink_linked: "osLink base fn s = (r, s1) \<Longrightarrow> r \<noteq> LinkError \<Longrightarrow> linked base fn s s1"
  unfolding linked_def using osLink_dirs [of base fn s r s1] osLink_keeps [of base fn s r s1] osLink_other [of base fn s r s1]
    osLink_new [of base fn s r s1] by simp

lemma linkAll_step:
  assumes "linkAll mk base (fn # fns) s = (True, s')"
  shows "\<exists>s1. linkAll mk base fns s1 = (True, s') \<and> linked base fn s s1"
proof -
  obtain r s1 where l: "osLink base fn s = (r, s1)" by fastforce
  show ?thesis
  proof (cases "r = LinkError")
    case False
    then have "linkAll mk base fns s1 = (True, s')" using assms l by (cases r) simp_all
    with osLink_linked [OF l False] show ?thesis by blast
  next
    case True
    have s1: "s1 = s" using l True by (auto simp: osLink_def split: if_splits option.splits)
    obtain s2 where m: "mkdirAll mk (Dir fn) s = (True, s2)"
      using assms l True s1 by (auto split: prod.splits bool.splits)
    obtain s3 where l2: "osLink base fn s2 = (LinkOk, s3)" "linkAll mk base fns s3 = (True, s')"
      using assms l True s1 m by (auto split: prod.splits linkRes.splits)
    have "linked base fn s2 s3" by (rule osLink_linked [OF l2(1)]) simp
    then have "linked base fn s s3"
      using mkdirAll_names [OF m] mkdirAll_dirs [OF m] unfolding linked_def by auto
    with l2(2) show ?thesis by blast
  qed
qed

lemma linkAll_names:
  assumes "linkAll mk base fns s = (True, s')" and "map_of (lf_names s) base = Some k"
  shows "map_of (lf_names s') base = Some k \<and> set (lf_dirs s) \<subseteq> set (lf_dirs s') \<and>
     (map_of (lf_names s) fn = Some k \<longrightarrow> map_of (lf_names s') fn = Some k) \<and>
     (fn \<in> set fns \<longrightarrow> map_of (lf_names s) fn = None \<longrightarrow> fn \<notin> set (lf_dirs s') \<longrightarrow> map_of (lf_names s') fn = Some k)"
  using assms
proof (induction fns arbitrary: s)
  case (Cons f fns)
  obtain s1 where l: "linkAll mk base fns s1 = (True, s')" "linked base f s s1"
    using linkAll_step [OF Cons.prems(1)] by blast
  note s1 = l(1) l(2) [unfolded linked_def, THEN conjunct1] l(2) [unfolded linked_def, THEN conjunct2, THEN conjunct1, rule_format]
    l(2) [unfolded linked_def, THEN conjunct2, THEN conjunct2, THEN conjunct1, rule_format]
    l(2) [unfolded linked_def, THEN conjunct2, THEN conjunct2, THEN conjunct2, rule_format]
  note IH = Cons.IH [OF s1(1) s1(3) [OF Cons.prems(2)]]
  have "map_of (lf_names s') fn = Some k"
    if "fn \<in> set (f # fns)" "map_of (lf_names s) fn = None" "fn \<notin> set (lf_dirs s')"
  proof (cases "fn = f")
    case True
    then have "map_of (lf_names s1) fn = Some k" using s1(5) [OF Cons.prems(2)] that IH by blast
    with IH show ?thesis by blast
  next
    case False
    with that(1) s1(4) [OF Cons.prems(2) that(2)] IH that(3) show ?thesis by auto
  qed
  with IH s1(2,3) show ?case by blast
qed simp

section \<open>Properties\<close>

text \<open>
  C29: a search reports every directory once. For a well-formed pattern and names that are relative to the
  source, the command ends, reports each directory above a file at most once and exactly those whose
  last element matches, and the files whose last element matches, in the order of the listing.
\<close>

theorem find_reports_once:
  assumes "findSource src = Ret s" and "lst s = Inr fs" and "dashName = [] \<or> dashIName = []"
    and "d = newDirAndFileMatcher dashName dashIName" and "mt_p d \<noteq> []" and "wellformed glob (mt_p d)"
    and "ns = names (findGetRefTimeMatch mtime now) s fs" and "list_all relative ns"
  shows "\<exists>out. findCommand glob ft dashName dashIName mtime now src lst = Some (Ret out) \<and> distinct (dirsOf out) \<and>
     set (dirsOf out) = {a. \<exists>n \<in> set ns. a \<in> set (ups (Dir n)) \<and> hits glob ft d True a} \<and>
     filesOf out = filter (hits glob ft d False) ns"
proof -
  have "mt_m d = []" using assms(4) by (simp add: newDirAndFileMatcher_def split: if_splits)
  then show ?thesis
    using findAll_reports [OF assms(6,5), of "findGetRefTimeMatch mtime now" s fs ft] assms(1-4,7,8)
    by (auto simp: findCommand_def)
qed

theorem find_reports_once_witness:
  "\<exists>out. findCommand (\<lambda>p n. Some (p = n)) FindAny ''x'' [] 0 9 ''top/'' (\<lambda>_. Inr [(''top/a/x'', 5), (''top/x/b/x'', 6), (''top/x/b/y'', 7)]) =
      Some (Ret out) \<and> distinct (dirsOf out) \<and> filesOf out = [''a/x'', ''x/b/x'']"
proof -
  let ?fs = "[(''top/a/x'', 5), (''top/x/b/x'', 6), (''top/x/b/y'', 7)] :: (string \<times> time) list"
  have s: "findSource ''top/'' = Ret ''top''" by code_simp
  have n: "names (findGetRefTimeMatch 0 9) ''top'' ?fs = [''a/x'', ''x/b/x'', ''x/b/y'']" by code_simp
  have h: "filter (hits (\<lambda>p n. Some (p = n)) FindAny (newDirAndFileMatcher ''x'' []) False) [''a/x'', ''x/b/x'', ''x/b/y''] = [''a/x'', ''x/b/x'']"
    by code_simp
  have p: "mt_p (newDirAndFileMatcher ''x'' []) \<noteq> []" by (simp add: newDirAndFileMatcher_def)
  have r: "list_all relative [''a/x'', ''x/b/x'', ''x/b/y'']" by (simp add: relative_def)
  from find_reports_once [where lst = "\<lambda>_. Inr ?fs" and glob = "\<lambda>p n. Some (p = n)" and ft = FindAny and dashName = "''x''" and dashIName = "[]",
      OF s refl _ refl p _ n [symmetric] r] h
  show ?thesis by (auto simp: wellformed_def)
qed

text \<open>Without a pattern the type asked for is not looked at; and from an absolute name the loop does not end.\<close>

lemma find_type_ignored: "mt_p d = [] \<Longrightarrow> matches glob FindDir name d = Some (Ret ([(name, False)], d))"
  by (simp add: matches_def)

lemma dirLoop_Some: "dirLoop glob ft d dir acc = Some y \<Longrightarrow> \<not> (dir = ''/'' \<and> wellformed glob (mt_p d))"
proof (erule dirLoop.raw_induct [where P = "\<lambda>glob ft d dir acc y. \<not> (dir = ''/'' \<and> wellformed glob (mt_p d))", rotated])
  fix rec glob ft d dir acc y
  assume IH: "\<And>glob ft d dir acc y. rec glob ft d dir acc = Some y \<Longrightarrow> \<not> (dir = ''/'' \<and> wellformed glob (mt_p d))"
    and body: "(if dir = ''.'' then Some (Ret (acc, d)) else if dir \<in> set (mt_m d) then rec glob ft d (Dir dir) acc
       else (case fmatch glob ft d (Base dir) True of Panic \<Rightarrow> Some Panic
             | Ret b \<Rightarrow> rec glob ft (d\<lparr>mt_m := dir # mt_m d\<rparr>) (Dir dir) (if b then acc @ [dir] else acc))) = Some y"
  have root: "Dir ''/'' = ''/''" by code_simp
  show "\<not> (dir = ''/'' \<and> wellformed glob (mt_p d))"
    using body root fmatch_hits [of glob d ft dir True] by (auto split: if_splits dest!: IH)
qed

lemma dirLoop_root: "wellformed glob (mt_p d) \<Longrightarrow> dirLoop glob ft d ''/'' acc = None"
  using dirLoop_Some [of glob ft d "''/''" acc] by (cases "dirLoop glob ft d ''/'' acc") auto


definition emptyDisk :: lfs where
  "emptyDisk = \<lparr>lf_names = [], lf_data = (\<lambda>_. []), lf_dirs = [], lf_next = 0\<rparr>"


text \<open>With links, a file that is there already keeps its old contents, and no error is reported.\<close>

lemma link_keeps_stale:
  "case saveDownload (\<lambda>_. True) DlLink [''a'', ''b''] ''new'' None
      (emptyDisk\<lparr>lf_names := [(''b'', 0)], lf_data := (\<lambda>_. ''old''), lf_next := 1\<rparr>) of
     Ret (b, s') \<Rightarrow> b \<and> contentOf s' ''a'' = Some ''new'' \<and> contentOf s' ''b'' = Some ''old'' | Panic \<Rightarrow> False"
  by code_simp

end
