(* ===== verification/Admin_Tools.thy ===== *)
theory Admin_Tools
  imports Client Backup "HOL-Library.Multiset"
begin

text \<open>
  The command line of both tools (\<open>src/tools/tool.go\<close>), the commands of \<open>src/tools/cbfsadm\<close>, and the copier of
  statistics \<open>src/tools/cbfsseriesly\<close>. A command gives an exit code, 1 where the program ends with an error,
  and the state of the servers; printing is left out. \<open>base\<close> is a server's URL up to its path. The lemmas
  show that a command gets as many arguments as it asks for, which backups are removed, that forcing a
  restore changes nothing on the server, and that the copier never learns of new nodes.
\<close>

section \<open>The command line\<close>

text \<open>A command with the number of its arguments and its flags, each with whether it is boolean.\<close>

record command =
  cm_Nargs :: int
  cm_Flags :: "(string \<times> bool) list option"

datatype toolRun = ToolUsage | FlagExit | CommandUsage string | Run string string "string list" "string list"

text \<open>
  \<open>FlagSet.Parse\<close>: the arguments it leaves, \<open>None\<close> where it ends the program. \<open>setOk f v\<close> tells whether the
  flag \<open>f\<close> accepts the value \<open>v\<close>. Flags end at the first argument that is none, or after two dashes.
\<close>

fun cutEq :: "string \<Rightarrow> string \<times> string option" where
  "cutEq [] = ([], None)"
| "cutEq (c # s) = (if c = CHR ''='' then ([], Some s) else (case cutEq s of (n, v) \<Rightarrow> (c # n, v)))"

definition flagName :: "string \<Rightarrow> string" where
  "flagName a = (if hasPrefix a ''--'' then drop 2 a else drop 1 a)"

fun flagRest :: "(string \<Rightarrow> string \<Rightarrow> bool) \<Rightarrow> (string \<times> bool) list \<Rightarrow> string list \<Rightarrow> string list option" where
  "flagRest setOk fs [] = Some []"
| "flagRest setOk fs (a # as) =
     (if length a < 2 \<or> \<not> hasPrefix a ''-'' then Some (a # as)
      else if a = ''--'' then Some as
      else (let nm = flagName a in
            if nm = [] \<or> hd nm = CHR ''-'' \<or> hd nm = CHR ''='' then None
            else (case cutEq nm of (n, v) \<Rightarrow>
                    (case map_of fs n of
                       None \<Rightarrow> None
                     | Some True \<Rightarrow> (if setOk n (case v of None \<Rightarrow> ''true'' | Some x \<Rightarrow> x) then flagRest setOk fs as else None)
                     | Some False \<Rightarrow>
                         (case v of
                            Some x \<Rightarrow> (if setOk n x then flagRest setOk fs as else None)
                          | None \<Rightarrow> (case as of [] \<Rightarrow> None | x # as' \<Rightarrow> if setOk n x then flagRest setOk fs as' else None))))))"

definition argsOk :: "int \<Rightarrow> nat \<Rightarrow> bool" where
  "argsOk want n =
     (if want = 0 then True else if want < 0 then int n \<ge> - want else int n = want)"

text \<open>
  \<open>argv\<close> is what the flags of the program itself leave. A command that runs gets all its arguments, its
  flags among them; those that its flags leave come last.
\<close>

definition ToolMain ::
  "(string \<Rightarrow> string \<Rightarrow> string \<Rightarrow> bool) \<Rightarrow> (string \<times> command) list \<Rightarrow> string list \<Rightarrow> toolRun" where
  "ToolMain setOk commands argv =
     (if length argv < 1 then ToolUsage
      else
        (let isUrl = hasPrefix (argv ! 0) ''http://'';
             u = (if isUrl then argv ! 0 else ''http://cbfs:8484/'');
             off = (if isUrl then 1 else 0);
             cmdName = (if off < length argv then argv ! off else []) in
         case map_of commands cmdName of
           None \<Rightarrow> ToolUsage
         | Some cmd \<Rightarrow>
             (let args = drop (off + 1) argv in
              case (case cm_Flags cmd of None \<Rightarrow> Some args | Some fs \<Rightarrow> flagRest (setOk cmdName) fs args) of
                None \<Rightarrow> FlagExit
              | Some rest \<Rightarrow>
                  if argsOk (cm_Nargs cmd) (length rest) then Run u cmdName args rest else CommandUsage cmdName)))"

definition admCommands :: "(string \<times> command) list" where
  "admCommands =
     [(''getconf'', \<lparr>cm_Nargs = 0, cm_Flags = None\<rparr>),
      (''setconf'', \<lparr>cm_Nargs = 2, cm_Flags = None\<rparr>),
      (''fsck'', \<lparr>cm_Nargs = 0, cm_Flags = Some [(''v'', True)]\<rparr>),
      (''backup'', \<lparr>cm_Nargs = 1, cm_Flags = Some [(''w'', True)]\<rparr>),
      (''rmbak'', \<lparr>cm_Nargs = 0, cm_Flags = Some [(''n'', True), (''keep'', False), (''v'', True)]\<rparr>),
      (''restore'', \<lparr>cm_Nargs = 1, cm_Flags = Some [(''f'', True), (''n'', True), (''v'', True), (''match'', False),
                                         (''workers'', False), (''expire'', False)]\<rparr>),
      (''induce'', \<lparr>cm_Nargs = 0, cm_Flags = Some [(''all'', True)]\<rparr>),
      (''lsbak'', \<lparr>cm_Nargs = 0, cm_Flags = None\<rparr>)]"

definition clientCommands :: "(string \<times> command) list" where
  "clientCommands =
     [(''upload'', \<lparr>cm_Nargs = 2, cm_Flags = Some [(''v'', True), (''delete'', True), (''meta'', True), (''workers'', False),
                     (''revs'', False), (''n'', True), (''ignore'', False), (''unsafe'', True), (''nohash'', True),
                     (''expire'', False), (''encryptTo'', False)]\<rparr>),
      (''download'', \<lparr>cm_Nargs = - 1, cm_Flags = Some [(''v'', True), (''ct'', False), (''cn'', False), (''n'', True),
                       (''L'', True)]\<rparr>),
      (''find'', \<lparr>cm_Nargs = 1, cm_Flags = Some [(''t'', False), (''T'', False), (''name'', False), (''iname'', False),
                   (''mtime'', False), (''depth'', False), (''type'', False)]\<rparr>),
      (''ls'', \<lparr>cm_Nargs = 0, cm_Flags = Some [(''l'', True)]\<rparr>),
      (''rm'', \<lparr>cm_Nargs = - 1, cm_Flags = Some [(''r'', True), (''v'', True), (''n'', True)]\<rparr>),
      (''info'', \<lparr>cm_Nargs = 0, cm_Flags = Some [(''t'', False), (''T'', False), (''json'', True)]\<rparr>),
      (''fileinfo'', \<lparr>cm_Nargs = 1, cm_Flags = Some [(''t'', False), (''T'', False)]\<rparr>)]"

text \<open>The path that \<open>fileinfo\<close> opens: its first argument.\<close>

definition fileInfoPath :: "string list \<Rightarrow> string go" where
  "fileInfoPath args = (case args of (c # p) # _ \<Rightarrow> Ret (c # p) | _ \<Rightarrow> Panic)"

text \<open>The text of a template: given, from a file or the standard input, or the default; \<open>None\<close> ends the program.\<close>

definition templateText :: "gerr + string \<Rightarrow> (string \<Rightarrow> gerr + string) \<Rightarrow> string \<Rightarrow> string \<Rightarrow> string \<Rightarrow> string option" where
  "templateText stdin readFile ttext filename tdefault =
     (if ttext \<noteq> [] then Some ttext
      else if filename = [] then Some tdefault
      else (case (if filename = ''-'' then stdin else readFile filename) of Inl er \<Rightarrow> None | Inr s \<Rightarrow> Some s))"

section \<open>Requests\<close>

definition toolURL :: "string \<Rightarrow> string \<Rightarrow> string \<Rightarrow> string" where
  "toolURL base path query = base @ escapePath path @ (if query = [] then [] else ''?'' @ query)"

definition queryChar :: "char \<Rightarrow> string" where
  "queryChar c =
     (if c = CHR '' '' then ''+''
      else if c \<in> set ''ABCDEFGHIJKLMNOPQRSTUVWXYZabcdefghijklmnopqrstuvwxyz0123456789-_.~'' then [c]
      else [CHR ''%'', upperDigit (of_char c div 16), upperDigit (of_char c)])"

definition formEncode :: "(string \<times> string) list \<Rightarrow> string" where
  "formEncode kvs = joinWith ''&'' (map (\<lambda>(k, v). concat (map queryChar k) @ ''='' @ concat (map queryChar v)) kvs)"

definition postForm :: "string \<Rightarrow> string \<Rightarrow> webReq" where
  "postForm u b = \<lparr>wq_Method = ''POST'', wq_Url = u,
     wq_Header = hdrSet ''Content-Type'' ''application/x-www-form-urlencoded'' [], wq_Body = b, wq_Json = None\<rparr>"

text \<open>The values of a stream of JSON, and whether it ends with something that cannot be decoded.\<close>

fun jsonStream :: "body \<Rightarrow> json list \<times> bool" where
  "jsonStream BEmpty = ([], True)"
| "jsonStream (BJson j) = ([j], True)"
| "jsonStream (BCat a b) =
     (case jsonStream a of (js, False) \<Rightarrow> (js, False) | (js, True) \<Rightarrow> (case jsonStream b of (ks, ok) \<Rightarrow> (js @ ks, ok)))"
| "jsonStream (BText s) = ([], set s \<subseteq> {CHR '' '', CHR 0x09, CHR 0x0A, CHR 0x0D})"
| "jsonStream (BBytes s) = ([], set s \<subseteq> {CHR '' '', CHR 0x09, CHR 0x0A, CHR 0x0D})"
| "jsonStream (BError er) = ([], False)"

section \<open>Commands\<close>

definition getConfCommand :: "(time \<Rightarrow> string) \<Rightarrow> 'w web \<Rightarrow> client \<Rightarrow> 'w \<Rightarrow> nat go \<times> 'w" where
  "getConfCommand tt web c w =
     (case GetConfig tt web c w of
        (Panic, w') \<Rightarrow> (Panic, w')
      | (Ret r, w') \<Rightarrow> (Ret (case r of Inl _ \<Rightarrow> 1 | Inr _ \<Rightarrow> 0), w'))"

definition setConfCommand :: "(time \<Rightarrow> string) \<Rightarrow> 'w web \<Rightarrow> client \<Rightarrow> string list \<Rightarrow> 'w \<Rightarrow> nat go \<times> 'w" where
  "setConfCommand tt web c args w =
     (case args of
        key # val # _ \<Rightarrow>
          (case SetConfigParam tt web c key val w of
             (Panic, w') \<Rightarrow> (Panic, w')
           | (Ret er, w') \<Rightarrow> (Ret (if er = None then 0 else 1), w'))
      | _ \<Rightarrow> (Panic, w))"

definition backupCommand :: "'w web \<Rightarrow> string \<Rightarrow> bool \<Rightarrow> string \<Rightarrow> 'w \<Rightarrow> nat \<times> 'w" where
  "backupCommand web base wait fn w =
     (case web (postForm (toolURL base ''/.cbfs/backup/'' [])
                  (formEncode [(''bg'', if wait then ''false'' else ''true''), (''fn'', fn)])) w of
        (Inl er, w') \<Rightarrow> (1, w')
      | (Inr r, w') \<Rightarrow> (if wr_Status r = 202 \<or> wr_Status r = 201 then 0 else 1, w'))"

text \<open>The records of a consistency check: how many, and how many with an error; \<open>None\<close> for one of another shape.\<close>

definition statusError :: "json \<Rightarrow> string option" where
  "statusError j =
     (case j of
        JObj ms \<Rightarrow>
          (if list_all (\<lambda>n. fld n decStr [] ms \<noteq> None) [''path'', ''oid'', ''etype''] \<and> fld ''reps'' decInt 0 ms \<noteq> None
           then fld ''error'' decStr [] ms else None)
      | JNull \<Rightarrow> Some []
      | _ \<Rightarrow> None)"

fun fsckCount :: "json list \<Rightarrow> nat \<times> nat \<Rightarrow> (nat \<times> nat) option" where
  "fsckCount [] n = Some n"
| "fsckCount (j # js) (found, errors) =
     (case statusError j of
        None \<Rightarrow> None
      | Some er \<Rightarrow> fsckCount js (Suc found, if er \<noteq> [] then Suc errors else errors))"

definition fsckCommand :: "'w web \<Rightarrow> string \<Rightarrow> bool \<Rightarrow> 'w \<Rightarrow> (nat \<times> (nat \<times> nat) option) \<times> 'w" where
  "fsckCommand web base verbose w =
     (case web (httpGet (toolURL base ''/.cbfs/fsck/'' (if verbose then [] else ''errsonly=true''))) w of
        (Inl er, w') \<Rightarrow> ((1, None), w')
      | (Inr r, w') \<Rightarrow>
          (if wr_Status r \<noteq> 200 then ((1, None), w')
           else (case jsonStream (wr_Body r) of
                   (js, ok) \<Rightarrow>
                     (case fsckCount js (0, 0) of
                        None \<Rightarrow> ((1, None), w')
                      | Some n \<Rightarrow> if ok \<and> wr_Err r = None then ((0, Some n), w') else ((1, None), w')))))"

definition admInduceTask :: "'w web \<Rightarrow> string \<Rightarrow> string \<Rightarrow> 'w \<Rightarrow> cerr option \<times> 'w" where
  "admInduceTask web base taskname w =
     (case web (postForm (toolURL base (''/.cbfs/tasks/'' @ taskname) []) []) w of
        (Inl er, w') \<Rightarrow> (Some (CWeb er), w')
      | (Inr r, w') \<Rightarrow> (if wr_Status r < 200 \<or> wr_Status r \<ge> 300 then Some (CStatus (wr_Status r)) else None, w'))"

fun induceNodes :: "'w web \<Rightarrow> (string \<times> clientNode) list \<Rightarrow> string \<Rightarrow> 'w \<Rightarrow> nat \<times> 'w" where
  "induceNodes web [] taskname w = (0, w)"
| "induceNodes web ((name, n) # ns) taskname w =
     (case admInduceTask web (''http://'' @ cn_Addr n) taskname w of
        (er, w') \<Rightarrow> (case induceNodes web ns taskname w' of (errs, w'') \<Rightarrow> (if er = None then errs else Suc errs, w'')))"

definition induceTaskAll :: "'w web \<Rightarrow> client \<Rightarrow> string \<Rightarrow> 'w \<Rightarrow> nat \<times> 'w" where
  "induceTaskAll web c taskname w =
     (case clNodes web c w of
        ((Some er, _, _), w') \<Rightarrow> (1, w')
      | ((None, ns, _), w') \<Rightarrow> (case induceNodes web ns taskname w' of (errs, w'') \<Rightarrow> (if errs \<noteq> 0 then 1 else 0, w'')))"

definition listTasks :: "'w web \<Rightarrow> string \<Rightarrow> 'w \<Rightarrow> nat \<times> 'w" where
  "listTasks web base w =
     (case getJsonData web (toolURL base ''/.cbfs/tasks/info/'' []) w of
        (Inl er, w') \<Rightarrow> (1, w')
      | (Inr j, w') \<Rightarrow>
          (case j of
             JObj ms \<Rightarrow>
               if list_all (\<lambda>n. fld n (decMap (decList decStr []) []) None ms \<noteq> None) [''global'', ''local''] then 0 else 1
           | JNull \<Rightarrow> 0
           | _ \<Rightarrow> 1, w'))"

definition induceCommand :: "'w web \<Rightarrow> string \<Rightarrow> client \<Rightarrow> bool \<Rightarrow> string list \<Rightarrow> 'w \<Rightarrow> nat \<times> 'w" where
  "induceCommand web base c all args w =
     (case args of
        [] \<Rightarrow> listTasks web base w
      | taskname # _ \<Rightarrow>
          (if all then induceTaskAll web c taskname w
           else (case admInduceTask web base taskname w of (er, w') \<Rightarrow> (if er = None then 0 else 1, w'))))"

section \<open>Backups\<close>

definition listedBackups :: "(time \<Rightarrow> string) \<Rightarrow> json \<Rightarrow> backupItem list option go" where
  "listedBackups tt j =
     (case j of
        JObj ms \<Rightarrow>
          (if list_ex (confPanics tt) (case jmember ''backups'' ms of Some (JArr js) \<Rightarrow> js | _ \<Rightarrow> []) then Panic
           else Ret (fld ''backups'' (decList (decBackupItem tt) backupItem_zero) [] ms))
      | JNull \<Rightarrow> Ret (Some [])
      | _ \<Rightarrow> Ret None)"

definition lsBakCommand :: "(time \<Rightarrow> string) \<Rightarrow> 'w web \<Rightarrow> string \<Rightarrow> 'w \<Rightarrow> (nat \<times> (string \<times> time) list) go \<times> 'w" where
  "lsBakCommand tt web base w =
     (case getJsonData web (toolURL base ''/.cbfs/backup/'' []) w of
        (Inl er, w') \<Rightarrow> (Ret (1, []), w')
      | (Inr j, w') \<Rightarrow>
          (case listedBackups tt j of
             Panic \<Rightarrow> Panic
           | Ret None \<Rightarrow> Ret (1, [])
           | Ret (Some bs) \<Rightarrow> Ret (0, map (\<lambda>b. (bi_Fn b, bi_When b)) bs), w'))"

text \<open>The order of the backups compares one of them with itself.\<close>

definition bakLess :: "backupItem \<Rightarrow> backupItem \<Rightarrow> bool" where
  "bakLess a b \<longleftrightarrow> bi_When a < bi_When a"

definition relativeUrl :: "string \<Rightarrow> string \<Rightarrow> string go" where
  "relativeUrl base path =
     (case path of [] \<Rightarrow> Panic | c # s \<Rightarrow> Ret (toolURL base (if c \<noteq> CHR ''/'' then ''/'' @ path else path) []))"

definition rmBak :: "bool \<Rightarrow> 'w web \<Rightarrow> string \<Rightarrow> 'w \<Rightarrow> cerr option \<times> 'w" where
  "rmBak noop web u w =
     (if noop then (None, w)
      else (case web ((httpGet u)\<lparr>wq_Method := ''DELETE''\<rparr>) w of
              (Inl er, w') \<Rightarrow> (Some (CWeb er), w')
            | (Inr r, w') \<Rightarrow> (if wr_Status r \<noteq> 204 \<and> wr_Status r \<noteq> 404 then Some (CStatus (wr_Status r)) else None, w')))"

fun rmBakWorker :: "bool \<Rightarrow> 'w web \<Rightarrow> string list \<Rightarrow> 'w \<Rightarrow> cerr option \<times> 'w" where
  "rmBakWorker noop web [] w = (None, w)"
| "rmBakWorker noop web (u # us) w =
     (case rmBak noop web u w of (Some er, w') \<Rightarrow> (Some er, w') | (None, w') \<Rightarrow> rmBakWorker noop web us w')"

text \<open>
  The backups to remove: \<open>None\<close> when there are fewer than \<open>keep\<close>, and otherwise all but the last \<open>keep\<close> of
  what sorting (\<open>srt\<close>) gives. A negative \<open>keep\<close> panics, at the slice or at the empty names it would add.
\<close>

definition rmBakPlan :: "(backupItem list \<Rightarrow> backupItem list) \<Rightarrow> int \<Rightarrow> backupItem list \<Rightarrow> backupItem list option go" where
  "rmBakPlan srt keep bs =
     (let s = srt bs in
      if int (length s) < keep then Ret None
      else if keep < 0 then Panic
      else Ret (Some (take (nat (int (length s) - keep)) s)))"

fun urlsOf :: "string \<Rightarrow> backupItem list \<Rightarrow> string list go" where
  "urlsOf base [] = Ret []"
| "urlsOf base (b # bs) =
     (case relativeUrl base (bi_Fn b) of
        Panic \<Rightarrow> Panic
      | Ret u \<Rightarrow> (case urlsOf base bs of Panic \<Rightarrow> Panic | Ret us \<Rightarrow> Ret (u # us)))"

definition markBackups :: "'w web \<Rightarrow> string \<Rightarrow> 'w \<Rightarrow> nat \<times> 'w" where
  "markBackups web base w =
     (case web (postForm (toolURL base ''/.cbfs/backup/mark/'' ''all=true'') []) w of
        (Inl er, w') \<Rightarrow> (1, w')
      | (Inr r, w') \<Rightarrow> (if wr_Status r \<noteq> 204 then 1 else 0, w'))"

text \<open>The four workers are one, which takes the names in the order of the channel; the state after a panic is not kept.\<close>

definition rmBakCommand ::
  "(time \<Rightarrow> string) \<Rightarrow> (backupItem list \<Rightarrow> backupItem list) \<Rightarrow> bool \<Rightarrow> int \<Rightarrow> 'w web \<Rightarrow> string \<Rightarrow> 'w \<Rightarrow> (nat \<times> 'w) go" where
  "rmBakCommand tt srt noop keep web base w =
     (case getJsonData web (toolURL base ''/.cbfs/backup/'' []) w of
        (Inl er, w') \<Rightarrow> Ret (1, w')
      | (Inr j, w') \<Rightarrow>
          (case listedBackups tt j of
             Panic \<Rightarrow> Panic
           | Ret None \<Rightarrow> Ret (1, w')
           | Ret (Some bs) \<Rightarrow>
               (case rmBakPlan srt keep bs of
                  Panic \<Rightarrow> Panic
                | Ret None \<Rightarrow> Ret (0, w')
                | Ret (Some torm) \<Rightarrow>
                    (case urlsOf base torm of
                       Panic \<Rightarrow> Panic
                     | Ret us \<Rightarrow>
                         (case rmBakWorker noop web us w' of
                            (Some er, w'') \<Rightarrow> Ret (1, w'')
                          | (None, w'') \<Rightarrow> Ret (markBackups web base w''))))))"

section \<open>Restoring\<close>

record restoreWorkItem =
  rw_Path :: string
  rw_Meta :: json

text \<open>The result is \<open>None\<close> where the program ends: a request that cannot be sent.\<close>

definition restoreFile ::
  "bool \<Rightarrow> bool \<Rightarrow> int \<Rightarrow> 'w web \<Rightarrow> string \<Rightarrow> restoreWorkItem \<Rightarrow> 'w \<Rightarrow> cerr option option \<times> 'w" where
  "restoreFile noop force expire web base ob w =
     (if noop then (Some None, w)
      else (case web \<lparr>wq_Method = ''POST'', wq_Url = toolURL base (''/.cbfs/backup/restore/'' @ rw_Path ob) [],
                      wq_Header = hdrSet ''X-CBFS-Expiration'' (itoa expire) (hdrSet ''Content-Type'' ''application/json'' []),
                      wq_Body = [], wq_Json = Some (rw_Meta ob)\<rparr> w of
              (Inl er, w') \<Rightarrow> (None, w')
            | (Inr r, w') \<Rightarrow>
                (Some (if wr_Status r = 201 then None
                       else if wr_Status r = 409 \<and> \<not> force then None
                       else Some (CStatus (wr_Status r))), w')))"

fun restoreWorker ::
  "bool \<Rightarrow> bool \<Rightarrow> int \<Rightarrow> 'w web \<Rightarrow> string \<Rightarrow> restoreWorkItem list \<Rightarrow> 'w \<Rightarrow> nat \<times> 'w" where
  "restoreWorker noop force expire web base [] w = (0, w)"
| "restoreWorker noop force expire web base (ob # obs) w =
     (case restoreFile noop force expire web base ob w of
        (None, w') \<Rightarrow> (1, w')
      | (Some er, w') \<Rightarrow> restoreWorker noop force expire web base obs w')"

text \<open>The files of a backup that match, up to one that cannot be decoded, which ends the program.\<close>

definition decItem :: "json \<Rightarrow> restoreWorkItem option" where
  "decItem j =
     (case j of
        JObj ms \<Rightarrow> map_option (\<lambda>p. \<lparr>rw_Path = p, rw_Meta = (case jmember ''meta'' ms of Some m \<Rightarrow> m | None \<Rightarrow> JNull)\<rparr>)
                     (fld ''path'' decStr [] ms)
      | JNull \<Rightarrow> Some \<lparr>rw_Path = [], rw_Meta = JNull\<rparr>
      | _ \<Rightarrow> None)"

fun restoreItems :: "(string \<Rightarrow> bool) \<Rightarrow> json list \<Rightarrow> restoreWorkItem list \<times> bool" where
  "restoreItems regex [] = ([], True)"
| "restoreItems regex (j # js) =
     (case decItem j of
        None \<Rightarrow> ([], False)
      | Some ob \<Rightarrow> (case restoreItems regex js of (obs, ok) \<Rightarrow> (if regex (rw_Path ob) then ob # obs else obs, ok)))"

text \<open>
  \<open>opened\<close> is the uncompressed file. A file that ends badly ends the program, when the workers have come to
  some \<open>n\<close> of the files before.
\<close>

definition restoreCommand ::
  "nat \<Rightarrow> bool \<Rightarrow> bool \<Rightarrow> int \<Rightarrow> (string \<Rightarrow> bool) option \<Rightarrow> gerr + body \<Rightarrow> 'w web \<Rightarrow> string \<Rightarrow> 'w \<Rightarrow> nat \<times> 'w" where
  "restoreCommand n noop force expire regex opened web base w =
     (case (regex, opened) of
        (Some rx, Inr b) \<Rightarrow>
          (case jsonStream b of
             (js, ok) \<Rightarrow>
               (case restoreItems rx js of
                  (obs, ok') \<Rightarrow>
                    (if ok \<and> ok' then restoreWorker noop force expire web base obs w
                     else (1, snd (restoreWorker noop force expire web base (take n obs) w)))))
      | _ \<Rightarrow> (1, w))"

section \<open>Copying statistics\<close>

record seriesly =
  se_client :: client
  se_nodes :: "(string, clientNode) gomap"

fun createDatabases :: "'w web \<Rightarrow> string \<Rightarrow> (string \<times> clientNode) list \<Rightarrow> 'w \<Rightarrow> 'w" where
  "createDatabases web base [] w = w"
| "createDatabases web base ((k, n) # m) w =
     (case web ((httpGet (toolURL base (''/'' @ k) []))\<lparr>wq_Method := ''PUT''\<rparr>) w of
        (Inl er, w') \<Rightarrow> w'
      | (Inr r, w') \<Rightarrow> createDatabases web base m w')"

text \<open>A failure before the first success ends the program: \<open>None\<close>.\<close>

definition updateNodes :: "'w web \<Rightarrow> string \<Rightarrow> seriesly \<Rightarrow> 'w \<Rightarrow> seriesly option \<times> 'w" where
  "updateNodes web base s w =
     (case clNodes web (se_client s) w of
        ((Some er, _, c'), w') \<Rightarrow> (if se_nodes s = None then None else Some (s\<lparr>se_client := c'\<rparr>), w')
      | ((None, n, c'), w') \<Rightarrow>
          (Some (s\<lparr>se_client := c', se_nodes := cl_nodes c'\<rparr>),
           if int (length n) \<noteq> mlen (se_nodes s) then createDatabases web base n w' else w'))"

text \<open>A source that breaks off fails the copy; what the destination makes of its beginning is left out.\<close>

definition httpCopy :: "'w web \<Rightarrow> string \<Rightarrow> string \<Rightarrow> 'w \<Rightarrow> cerr option \<times> 'w" where
  "httpCopy web dest src w =
     (case web (httpGet src) w of
        (Inl er, w') \<Rightarrow> (Some (CWeb er), w')
      | (Inr r, w') \<Rightarrow>
          (if wr_Status r \<noteq> 200 then (Some (CStatus (wr_Status r)), w')
           else if wr_Err r \<noteq> None then (map_option CWeb (wr_Err r), w')
           else (case web \<lparr>wq_Method = ''POST'', wq_Url = dest,
                           wq_Header = hdrSet ''Content-Type'' (hdrGet (Some (wr_Header r)) ''Content-Type'') [],
                           wq_Body = bodyBytes (wr_Body r), wq_Json = bodyJson r\<rparr> w' of
                   (Inl er, w'') \<Rightarrow> (Some (CWeb er), w'')
                 | (Inr r2, w'') \<Rightarrow> (if wr_Status r2 \<noteq> 201 then Some (CStatus (wr_Status r2)) else None, w''))))"

definition pollNode :: "'w web \<Rightarrow> string \<Rightarrow> time \<Rightarrow> string \<times> clientNode \<Rightarrow> 'w \<Rightarrow> cerr option \<times> 'w" where
  "pollNode web base t n w =
     httpCopy web (toolURL base (''/'' @ fst n) (''ts='' @ itoa t)) (''http://'' @ cn_Addr (snd n) @ ''/.cbfs/debug/'') w"

definition poll :: "'w web \<Rightarrow> string \<Rightarrow> time \<Rightarrow> seriesly \<Rightarrow> 'w \<Rightarrow> 'w" where
  "poll web base t s w = fold (\<lambda>n w. snd (pollNode web base t n w)) (mrange (se_nodes s)) w"

section \<open>Lemmas\<close>

text \<open>A command of the administration tool that runs got the arguments it indexes.\<close>

lemma setconf_args:
  assumes "ToolMain setOk admCommands argv = Run u ''setconf'' args rest"
  shows "\<exists>key val. args = [key, val]"
proof -
  have "map_of admCommands ''setconf'' = Some \<lparr>cm_Nargs = 2, cm_Flags = None\<rparr>" by (simp add: admCommands_def)
  with assms have "length args = 2"
    by (auto simp: ToolMain_def Let_def argsOk_def split: option.splits if_splits)
  then show ?thesis by (auto simp: numeral_2_eq_2 length_Suc_conv)
qed

text \<open>With a template given, \<open>fileinfo\<close> opens a file of the flag's name.\<close>

lemma fileinfo_opens_flag:
  "case ToolMain (\<lambda>c f v. True) clientCommands [''fileinfo'', ''-t'', ''x'', ''/a''] of
     Run u c args rest \<Rightarrow> rest = [''/a''] \<and> fileInfoPath args = Ret ''-t''
   | _ \<Rightarrow> False"
  by code_simp

text \<open>The comparison of backups leaves a list as it is where sorting inserts, which is up to twelve of them.\<close>

lemma bubble_bakLess: "bubble bakLess x ps = x # ps"
  by (cases ps) (simp_all add: bakLess_def)

lemma fold_bubble_bakLess: "fold (bubble bakLess) bs ps = rev bs @ ps"
  by (induction bs arbitrary: ps) (simp_all add: bubble_bakLess)

lemma sort_bakLess: "sortGo bakLess bs = bs"
  by (simp add: sortGo_def fold_bubble_bakLess)

lemma rmBakPlan_counts:
  assumes "mset (srt bs) = mset bs" and "0 \<le> keep" and "keep \<le> int (length bs)"
  shows "\<exists>torm. rmBakPlan srt keep bs = Ret (Some torm) \<and> mset torm \<subseteq># mset bs \<and> int (length torm) = int (length bs) - keep"
proof -
  have l: "length (srt bs) = length bs" using assms(1) by (metis size_mset)
  have "mset (take n (srt bs)) \<subseteq># mset bs" for n
    using assms(1) by (metis append_take_drop_id mset_append mset_subset_eq_add_left)
  with assms(2,3) l show ?thesis by (auto simp: rmBakPlan_def Let_def)
qed

text \<open>A dry run deletes nothing, but has the servers mark their backups all the same.\<close>

lemma rmBakWorker_noop: "rmBakWorker True web us w = (None, w)"
  by (induction us) (simp_all add: rmBak_def)

text \<open>Forcing a restore sends the same requests; it only changes what counts as an error.\<close>

lemma restoreFile_force: "snd (restoreFile noop True expire web base ob w) = snd (restoreFile noop False expire web base ob w)"
  by (auto simp: restoreFile_def split: prod.splits sum.splits)

lemma restoreFile_fatal:
  "fst (restoreFile noop True expire web base ob w) = None \<longleftrightarrow> fst (restoreFile noop False expire web base ob w) = None"
  by (auto simp: restoreFile_def split: prod.splits sum.splits)

text \<open>The nodes of the copier are those of the first answer: every later update asks nothing and changes nothing.\<close>

lemma updateNodes_fixed:
  assumes "updateNodes web base \<lparr>se_client = c\<lparr>cl_nodes := None\<rparr>, se_nodes = None\<rparr> w = (Some s, w')"
    and "se_nodes s \<noteq> None"
  shows "updateNodes web' base' s v = (Some s, v)"
  using assms by (auto simp: updateNodes_def clNodes_def mlen_def mrange_def Let_def split: prod.splits sum.splits option.splits if_splits)

text \<open>Servers that answer each request by itself and keep the requests.\<close>

definition logWeb :: "(webReq \<Rightarrow> gerr + webRes) \<Rightarrow> webReq list web" where
  "logWeb ans r log = (ans r, log @ [r])"

definition deleteOf :: "string \<Rightarrow> webReq" where
  "deleteOf u = (httpGet u)\<lparr>wq_Method := ''DELETE''\<rparr>"

definition backupURL :: "string \<Rightarrow> backupItem \<Rightarrow> string" where
  "backupURL base b = toolURL base (if hasPrefix (bi_Fn b) ''/'' then bi_Fn b else ''/'' @ bi_Fn b) []"

lemma urlsOf_named:
  assumes "\<forall>b \<in> set bs. bi_Fn b \<noteq> []"
  shows "urlsOf base bs = Ret (map (backupURL base) bs)"
  using assms by (induction bs) (auto simp: relativeUrl_def backupURL_def hasPrefix_def split: list.splits)

lemma rmBakWorker_log:
  assumes "\<forall>u. \<exists>r. ans (deleteOf u) = Inr r \<and> wr_Status r \<in> {204, 404}"
  shows "rmBakWorker False (logWeb ans) us log = (None, log @ map deleteOf us)"
proof (induction us arbitrary: log)
  case (Cons u us)
  obtain r where "ans (deleteOf u) = Inr r" "wr_Status r \<in> {204, 404}" using assms by blast
  then have "rmBak False (logWeb ans) u log = (None, log @ [deleteOf u])"
    by (auto simp: rmBak_def logWeb_def simp flip: deleteOf_def)
  with Cons show ?case by simp
qed simp

lemma getJsonData_log:
  assumes "ans (httpGet u) = Inr r" and "wr_Status r = 200" and "bodyJson r = Some j"
  shows "getJsonData (logWeb ans) u log = (Inr j, log @ [httpGet u])"
  using assms by (simp add: getJsonData_def logWeb_def)

lemma markBackups_log:
  "snd (markBackups (logWeb ans) base log) = log @ [postForm (toolURL base ''/.cbfs/backup/mark/'' ''all=true'') []]"
  by (auto simp: markBackups_def logWeb_def split: sum.splits)

text \<open>
  C26: Removing old backups, when the server lists at least as many as are to be kept, sends exactly: the
  question for the list, a deletion for each of all but \<open>keep\<close> of the listed backups, none of them twice, and
  the request to mark the rest. It assumes only that sorting permutes the list, that the listed names are
  not empty, and that each deletion is answered with 204 or 404.
\<close>

theorem rmbak_requests:
  assumes "mset (srt bs) = mset bs" and "0 \<le> keep" and "keep \<le> int (length bs)"
    and "\<forall>b \<in> set bs. bi_Fn b \<noteq> []"
    and "ans (httpGet (toolURL base ''/.cbfs/backup/'' [])) = Inr rl" and "wr_Status rl = 200"
    and "bodyJson rl = Some j" and "listedBackups tt j = Ret (Some bs)"
    and "\<forall>u. \<exists>r. ans (deleteOf u) = Inr r \<and> wr_Status r \<in> {204, 404}"
  shows "\<exists>torm code. mset torm \<subseteq># mset bs \<and> int (length torm) = int (length bs) - keep \<and>
     rmBakCommand tt srt False keep (logWeb ans) base log =
       Ret (code, log @ [httpGet (toolURL base ''/.cbfs/backup/'' [])] @ map (deleteOf \<circ> backupURL base) torm @
                  [postForm (toolURL base ''/.cbfs/backup/mark/'' ''all=true'') []])"
proof -
  obtain torm where t: "rmBakPlan srt keep bs = Ret (Some torm)" "mset torm \<subseteq># mset bs"
      "int (length torm) = int (length bs) - keep"
    using rmBakPlan_counts [of srt bs keep, OF assms(1-3)] by blast
  have "\<forall>b \<in> set torm. bi_Fn b \<noteq> []" using t(2) assms(4) by (metis mset_subset_eqD set_mset_mset)
  note steps = getJsonData_log [of ans, OF assms(5-7)] assms(8) t(1) urlsOf_named [OF this] rmBakWorker_log [of ans, OF assms(9)]
  let ?log = "(log @ [httpGet (toolURL base ''/.cbfs/backup/'' [])]) @ map deleteOf (map (backupURL base) torm)"
  have "rmBakCommand tt srt False keep (logWeb ans) base log = Ret (markBackups (logWeb ans) base ?log)"
    by (simp add: rmBakCommand_def steps)
  also have "\<dots> = Ret (fst (markBackups (logWeb ans) base ?log),
      ?log @ [postForm (toolURL base ''/.cbfs/backup/mark/'' ''all=true'') []])"
    by (metis markBackups_log prod.collapse)
  finally show ?thesis using t(2,3) by fastforce
qed

definition twoListed :: json where
  "twoListed = JObj [(''backups'', JArr [JObj [(''filename'', JStr ''a'')], JObj [(''filename'', JStr ''/b'')]])]"

definition listingAns :: "webReq \<Rightarrow> gerr + webRes" where
  "listingAns r = Inr \<lparr>wr_Status = (if wq_Method r = ''GET'' then 200 else 204), wr_Header = [],
     wr_Body = (if wq_Method r = ''GET'' then BJson twoListed else BEmpty), wr_Err = None\<rparr>"

theorem rmbak_requests_witness:
  "\<exists>torm code. mset torm \<subseteq># mset (map (\<lambda>n. backupItem_zero\<lparr>bi_Fn := n\<rparr>) [''a'', ''/b'']) \<and> int (length torm) = int 2 - 1 \<and>
     rmBakCommand (\<lambda>t. []) (sortGo bakLess) False 1 (logWeb listingAns) ''http://h'' [] =
       Ret (code, [] @ [httpGet (toolURL ''http://h'' ''/.cbfs/backup/'' [])] @ map (deleteOf \<circ> backupURL ''http://h'') torm @
                  [postForm (toolURL ''http://h'' ''/.cbfs/backup/mark/'' ''all=true'') []])"
proof -
  let ?bs = "map (\<lambda>n. backupItem_zero\<lparr>bi_Fn := n\<rparr>) [''a'', ''/b'']"
  have l: "listedBackups (\<lambda>t. []) twoListed = Ret (Some ?bs)" by code_simp
  show ?thesis
    using rmbak_requests [of "sortGo bakLess" ?bs 1 listingAns "''http://h''" _ twoListed "\<lambda>t. []" "[]", OF _ _ _ _ _ _ _ l]
    by (simp add: sort_bakLess listingAns_def httpGet_def deleteOf_def bodyJson_def)
qed

text \<open>
  Restoring from a backup with the flag that asks to overwrite what exists is the same as restoring
  without it: the same requests in the same order, hence the same files on the servers, and the same exit code.
\<close>

theorem restore_force_ignored:
  "restoreCommand n noop True expire regex opened web base w = restoreCommand n noop False expire regex opened web base w"
proof -
  have "restoreWorker noop True expire web base obs w = restoreWorker noop False expire web base obs w" for obs w
  proof (induction obs arbitrary: w)
    case (Cons ob obs)
    then show ?case
      using restoreFile_force [of noop expire web base ob w] restoreFile_fatal [of noop expire web base ob w]
      by (auto split: prod.splits option.splits)
  qed simp
  then show ?thesis by (auto simp: restoreCommand_def split: option.splits sum.splits prod.splits)
qed

end
