(* ===== verification/Upload_Crypto.thy ===== *)
theory Upload_Crypto
  imports Nodes "HOL-Library.Word"
begin

text \<open>
  The choice of keys for encrypted uploads (\<open>src/tools/cbfsclient/upload_crypto.go\<close>). The keyring is read by a
  library and given here as what it holds; so is the encryption itself. The preferences of the chosen keys
  are intersected in place, in the array of the first key. The lemmas show that this leaves a filtered list
  and that what remains suits every chosen key that has preferences.
\<close>

section \<open>Preferences\<close>

text \<open>
  The loop over the indices of \<open>a\<close>, which reads at \<open>i\<close> and writes at \<open>j\<close>; \<open>n\<close> rounds remain. A slice is \<open>None\<close>
  where it is nil.
\<close>

fun interLoop :: "'a list \<Rightarrow> nat \<Rightarrow> nat \<Rightarrow> nat \<Rightarrow> 'a list \<Rightarrow> 'a list \<times> nat" where
  "interLoop b 0 i j a = (a, j)"
| "interLoop b (Suc n) i j a =
     (let v = a ! i in
      if List.member b v then interLoop b n (Suc i) (Suc j) (a[j := v]) else interLoop b n (Suc i) j a)"

definition intersectPref :: "8 word list option \<Rightarrow> 8 word list option \<Rightarrow> 8 word list option" where
  "intersectPref a b =
     (case a of
        None \<Rightarrow> b
      | Some xs \<Rightarrow>
          (case interLoop (case b of None \<Rightarrow> [] | Some ys \<Rightarrow> ys) (length xs) 0 0 xs of (a', j) \<Rightarrow> Some (take j a')))"

section \<open>Keys\<close>

record identity =
  id_IsPrimaryId :: "bool option"
  id_PreferredHash :: "8 word list option"
  id_PreferredSymmetric :: "8 word list option"

record entity =
  en_KeyId :: string
  en_Identities :: "identity list"

fun primaryLoop :: "identity option \<Rightarrow> identity list \<Rightarrow> identity option" where
  "primaryLoop f [] = f"
| "primaryLoop f (i # is) =
     (let f' = (if f = None then Some i else f) in
      if id_IsPrimaryId i = Some True then Some i else primaryLoop f' is)"

definition primaryIdentity :: "entity \<Rightarrow> identity option" where
  "primaryIdentity e = primaryLoop None (en_Identities e)"

record crypto =
  cr_keys :: "entity list"
  cr_hprefs :: "8 word list option"
  cr_sprefs :: "8 word list option"

text \<open>A key without an identity panics.\<close>

fun pickFrom :: "string \<Rightarrow> entity list \<Rightarrow> crypto \<Rightarrow> crypto go" where
  "pickFrom w [] c = Ret c"
| "pickFrom w (e # kl) c =
     (if en_KeyId e = w
      then (case primaryIdentity e of
              None \<Rightarrow> Panic
            | Some pi \<Rightarrow>
                pickFrom w kl \<lparr>cr_keys = cr_keys c @ [e], cr_hprefs = intersectPref (cr_hprefs c) (id_PreferredHash pi),
                               cr_sprefs = intersectPref (cr_sprefs c) (id_PreferredSymmetric pi)\<rparr>)
      else pickFrom w kl c)"

fun pickKeys :: "string list \<Rightarrow> entity list \<Rightarrow> crypto \<Rightarrow> crypto go" where
  "pickKeys [] kl c = Ret c"
| "pickKeys (w # ws) kl c = (case pickFrom w kl c of Panic \<Rightarrow> Panic | Ret c' \<Rightarrow> pickKeys ws kl c')"

definition prefLen :: "'a list option \<Rightarrow> nat" where
  "prefLen p = (case p of None \<Rightarrow> 0 | Some xs \<Rightarrow> length xs)"

text \<open>
  The keys to encrypt to and whether hashes are left out; \<open>None\<close> where the program ends. \<open>ring\<close> is the
  keyring, \<open>None\<close> if it cannot be opened or read.
\<close>

definition initCrypto :: "entity list option \<Rightarrow> string \<Rightarrow> bool \<Rightarrow> (bool \<times> entity list) option go" where
  "initCrypto ring encryptTo noHash =
     (if encryptTo = [] then Ret (Some (noHash, []))
      else (case ring of
              None \<Rightarrow> Ret None
            | Some kl \<Rightarrow>
                (case pickKeys (splitOn CHR '','' encryptTo) kl \<lparr>cr_keys = [], cr_hprefs = None, cr_sprefs = None\<rparr> of
                   Panic \<Rightarrow> Panic
                 | Ret c \<Rightarrow>
                     Ret (if length (cr_keys c) \<noteq> length (splitOn CHR '','' encryptTo) then None
                          else if prefLen (cr_hprefs c) = 0 then None
                          else if prefLen (cr_sprefs c) = 0 then None
                          else Some (True, cr_keys c)))))"

section \<open>Lemmas\<close>

lemma interLoop_filter:
  assumes "j \<le> i" and "i + n = length a"
  shows "case interLoop b n i j a of (a', k) \<Rightarrow>
           k \<le> length a' \<and> take k a' = take j a @ filter (\<lambda>v. v \<in> set b) (drop i a)"
  using assms
proof (induction b n i j a rule: interLoop.induct)
  case (2 b n i j a)
  then have d: "drop i a = a ! i # drop (Suc i) a" by (simp add: Cons_nth_drop_Suc)
  have t: "take (Suc j) (a[j := a ! i]) = take j a @ [a ! i]"
    using 2(3,4) by (simp add: take_Suc_conv_app_nth)
  show ?case using 2 d t by (auto simp: Let_def List.member_iff split: prod.splits)
qed simp

lemma intersectPref_Some:
  "intersectPref (Some xs) b = Some (filter (\<lambda>v. v \<in> set (case b of None \<Rightarrow> [] | Some ys \<Rightarrow> ys)) xs)"
  using interLoop_filter [of 0 0 "length xs" xs "case b of None \<Rightarrow> [] | Some ys \<Rightarrow> ys"]
  by (auto simp: intersectPref_def split: prod.splits)

lemma intersectPref_None: "intersectPref None b = b"
  by (simp add: intersectPref_def)

text \<open>What remains is among the preferences of both sides, where a side has any.\<close>

definition suits :: "8 word list option \<Rightarrow> 8 word list option \<Rightarrow> bool" where
  "suits h p \<longleftrightarrow> p = None \<or> (h \<noteq> None \<and> set (the h) \<subseteq> set (the p))"

lemma suits_new: "suits (intersectPref a b) b"
  by (cases a; cases b) (auto simp: suits_def intersectPref_Some intersectPref_None)

lemma suits_old: "suits a p \<Longrightarrow> suits (intersectPref a b) p"
  by (cases a) (auto simp: suits_def intersectPref_Some)

definition cryptoOk :: "crypto \<Rightarrow> bool" where
  "cryptoOk c \<longleftrightarrow> (\<forall>e \<in> set (cr_keys c). \<exists>pi. primaryIdentity e = Some pi \<and>
     suits (cr_hprefs c) (id_PreferredHash pi) \<and> suits (cr_sprefs c) (id_PreferredSymmetric pi))"

lemma cryptoOk_add:
  assumes "cryptoOk c" and "primaryIdentity e = Some pi"
  shows "cryptoOk \<lparr>cr_keys = cr_keys c @ [e], cr_hprefs = intersectPref (cr_hprefs c) (id_PreferredHash pi),
                   cr_sprefs = intersectPref (cr_sprefs c) (id_PreferredSymmetric pi)\<rparr>"
  unfolding cryptoOk_def
proof
  fix e' assume "e' \<in> set (cr_keys \<lparr>cr_keys = cr_keys c @ [e], cr_hprefs = intersectPref (cr_hprefs c) (id_PreferredHash pi),
                   cr_sprefs = intersectPref (cr_sprefs c) (id_PreferredSymmetric pi)\<rparr>)"
  then have "e' = e \<or> e' \<in> set (cr_keys c)" by auto
  then show "\<exists>pi'. primaryIdentity e' = Some pi' \<and>
      suits (cr_hprefs \<lparr>cr_keys = cr_keys c @ [e], cr_hprefs = intersectPref (cr_hprefs c) (id_PreferredHash pi),
                   cr_sprefs = intersectPref (cr_sprefs c) (id_PreferredSymmetric pi)\<rparr>) (id_PreferredHash pi') \<and>
      suits (cr_sprefs \<lparr>cr_keys = cr_keys c @ [e], cr_hprefs = intersectPref (cr_hprefs c) (id_PreferredHash pi),
                   cr_sprefs = intersectPref (cr_sprefs c) (id_PreferredSymmetric pi)\<rparr>) (id_PreferredSymmetric pi')"
    using assms suits_new suits_old unfolding cryptoOk_def by (metis crypto.select_convs(2,3))
qed

lemma pickFrom_ok: "cryptoOk c \<Longrightarrow> pickFrom w kl c = Ret c' \<Longrightarrow> cryptoOk c'"
  by (induction w kl c rule: pickFrom.induct) (auto intro: cryptoOk_add split: if_splits option.splits)

lemma pickKeys_ok: "cryptoOk c \<Longrightarrow> pickKeys ws kl c = Ret c' \<Longrightarrow> cryptoOk c'"
  by (induction ws kl c rule: pickKeys.induct) (auto dest: pickFrom_ok split: go.splits)

text \<open>
  When keys are asked for and the choice succeeds, hashes are left out, there are as many keys as were
  asked for, and some hash and some cipher are among the preferences of every chosen key that has any.
\<close>

theorem crypto_keys_agree:
  assumes "initCrypto ring to noHash = Ret (Some (nh, keys))" and "to \<noteq> []"
  shows "nh \<and> length keys = length (splitOn CHR '','' to) \<and>
    (\<exists>h s. \<forall>e \<in> set keys. \<exists>pi. primaryIdentity e = Some pi \<and>
       (id_PreferredHash pi = None \<or> h \<in> set (the (id_PreferredHash pi))) \<and>
       (id_PreferredSymmetric pi = None \<or> s \<in> set (the (id_PreferredSymmetric pi))))"
proof -
  let ?c0 = "\<lparr>cr_keys = [], cr_hprefs = None, cr_sprefs = None\<rparr>"
  obtain kl c where p: "pickKeys (splitOn CHR '','' to) kl ?c0 = Ret c" and "nh" and k: "keys = cr_keys c"
      and "length keys = length (splitOn CHR '','' to)" and "prefLen (cr_hprefs c) \<noteq> 0" "prefLen (cr_sprefs c) \<noteq> 0"
    using assms by (auto simp: initCrypto_def split: option.splits go.splits if_splits)
  then obtain h hs s ss where "cr_hprefs c = Some (h # hs)" and "cr_sprefs c = Some (s # ss)"
    by (auto simp: prefLen_def neq_Nil_conv split: option.splits)
  moreover have "cryptoOk c" by (rule pickKeys_ok [OF _ p]) (simp add: cryptoOk_def)
  ultimately have "\<forall>e \<in> set keys. \<exists>pi. primaryIdentity e = Some pi \<and>
       (id_PreferredHash pi = None \<or> h \<in> set (the (id_PreferredHash pi))) \<and>
       (id_PreferredSymmetric pi = None \<or> s \<in> set (the (id_PreferredSymmetric pi)))"
    unfolding cryptoOk_def suits_def k by fastforce
  with \<open>nh\<close> \<open>length keys = _\<close> show ?thesis by blast
qed

definition keyOf :: "string \<Rightarrow> 8 word list \<Rightarrow> entity" where
  "keyOf n h = \<lparr>en_KeyId = n, en_Identities = [\<lparr>id_IsPrimaryId = None, id_PreferredHash = Some h, id_PreferredSymmetric = Some [9]\<rparr>]\<rparr>"

theorem crypto_keys_agree_witness:
  "length [keyOf ''A'' [8, 2], keyOf ''B'' [2]] = length (splitOn CHR '','' ''A,B'') \<and>
    (\<exists>h s. h \<in> {8, 2} \<inter> {2} \<and> s = (9 :: 8 word) \<and> h = (2 :: 8 word))"
proof -
  have "initCrypto (Some [keyOf ''A'' [8, 2], keyOf ''B'' [2]]) ''A,B'' False =
      Ret (Some (True, [keyOf ''A'' [8, 2], keyOf ''B'' [2]]))" by code_simp
  from crypto_keys_agree [OF this] show ?thesis by (auto simp: keyOf_def primaryIdentity_def)
qed

end
