(* ===== verification/Dns.thy ===== *)
theory Dns
  imports Nodes "HOL-Library.Word"
begin

text \<open>
  The name service of \<open>src/dns.go\<close>: the service records and addresses of the nodes, the address of a single
  node, and the dispatch on a question. Building and sending messages is a library's: a reply is
  its code, its answers and its additional records. A record with an address holds the text that \<open>net.ParseIP\<close>
  is given. The lemmas show which records a reply has, and that no question makes the service panic.
\<close>

section \<open>Records and messages\<close>

datatype rr =
  is_SRV: SRV (rr_Name: string) (rr_Ttl: int) (rr_Priority: "16 word") (rr_Weight: "16 word") (rr_Port: "16 word") (rr_Target: string)
| is_A: A (rr_Name: string) (rr_Ttl: int) (rr_Addr: string)

datatype rcode = RcodeSuccess | RcodeNameError | RcodeNotImplemented

datatype qtype = TypeSRV | TypeA | TypeANY | TypeAAAA | TypeOther

record question =
  qn_Name :: string
  qn_Type :: qtype

record dnsReply =
  dr_Rcode :: rcode
  dr_Answer :: "rr list"
  dr_Extra :: "rr list"

definition maxDnsResponses :: nat where "maxDnsResponses = 8"

definition cbfsSvc :: string where "cbfsSvc = ''_cbfs._tcp''"

definition serviceDomain :: "string \<Rightarrow> string" where
  "serviceDomain zone = cbfsSvc @ ''.'' @ zone"

text \<open>The port of \<open>net.SplitHostPort\<close>: after the last colon, the only one outside brackets.\<close>

definition splitPort :: "string \<Rightarrow> string option" where
  "splitPort s =
     (if CHR '':'' \<notin> set s then None
      else (let parts = splitOn CHR '':'' s; port = last parts; host = joinWith '':'' (butlast parts) in
            if s \<noteq> [] \<and> hd s = CHR ''['' then
              (if CHR '']'' \<notin> set s \<or> host = [] \<or> last host \<noteq> CHR '']'' \<or> CHR '']'' \<in> set (butlast host) \<or>
                  CHR ''['' \<in> set (tl s) \<or> CHR '']'' \<in> set port then None else Some port)
            else if CHR '':'' \<in> set host \<or> CHR ''['' \<in> set s \<or> CHR '']'' \<in> set s then None
            else Some port))"

section \<open>Service records\<close>

text \<open>
  One node: nothing when its address has no port. A number of seconds outside the range of the weight is
  converted as an integer is.
\<close>

definition srvPort :: "string \<Rightarrow> int" where
  "srvPort p = (case atoi p of Some n \<Rightarrow> n | None \<Rightarrow> 8484)"

definition srvRecords :: "time \<Rightarrow> string \<Rightarrow> nat \<Rightarrow> storageNode \<Rightarrow> (rr \<times> rr) option" where
  "srvRecords now zone i n =
     map_option (\<lambda>p. (SRV (serviceDomain zone) 5 (of_nat i) (of_int (goDiv (timeSub now (sn_Time n)) second))
                        (of_int (srvPort p)) (sn_name n @ ''.'' @ zone),
                      A (sn_name n @ ''.'' @ zone) 60 (sn_Addr n)))
       (splitPort (Address n))"

text \<open>The loop stops once there are more answers than the limit: one more than it says.\<close>

fun srvLoop :: "time \<Rightarrow> string \<Rightarrow> nat \<Rightarrow> storageNode list \<Rightarrow> (rr \<times> rr) list \<Rightarrow> (rr \<times> rr) list" where
  "srvLoop now zone i [] acc = acc"
| "srvLoop now zone i (n # ns) acc =
     (case srvRecords now zone i n of
        None \<Rightarrow> srvLoop now zone (Suc i) ns acc
      | Some r \<Rightarrow>
          (let acc' = acc @ [r] in
           if length acc' > maxDnsResponses then acc' else srvLoop now zone (Suc i) ns acc'))"

definition srvList :: "env \<Rightarrow> 'db bucket \<Rightarrow> time \<Rightarrow> string \<Rightarrow> 'db \<Rightarrow> dnsReply option" where
  "srvList e cb now zone d =
     (case findAllNodes e cb d of
        Inl er \<Rightarrow> None
      | Inr nl \<Rightarrow>
          (let rs = srvLoop now zone 0 nl []
           in Some \<lparr>dr_Rcode = RcodeSuccess, dr_Answer = map fst rs, dr_Extra = map snd rs\<rparr>))"

section \<open>Addresses\<close>

definition hostLookup :: "'db bucket \<Rightarrow> string \<Rightarrow> string \<Rightarrow> 'db \<Rightarrow> dnsReply go" where
  "hostLookup cb zone qname d =
     (if length qname < length zone + 1 then Panic
      else (case findNode cb (take (length qname - length zone - 1) qname) d of
              Inr node \<Rightarrow> Ret \<lparr>dr_Rcode = RcodeSuccess, dr_Answer = [A qname 60 (sn_Addr node)], dr_Extra = []\<rparr>
            | Inl er \<Rightarrow> Ret \<lparr>dr_Rcode = RcodeNameError, dr_Answer = [], dr_Extra = []\<rparr>))"

definition dnsFresh :: "env \<Rightarrow> time \<Rightarrow> storageNode \<Rightarrow> bool" where
  "dnsFresh e now n \<longleftrightarrow> \<not> timeSub now (sn_Time n) > i64 (3 * cf_HeartbeatFreq (e_conf e))"

fun hostLoop :: "env \<Rightarrow> time \<Rightarrow> string \<Rightarrow> storageNode list \<Rightarrow> rr list \<Rightarrow> rr list" where
  "hostLoop e now zone [] acc = acc"
| "hostLoop e now zone (n # ns) acc =
     (if \<not> dnsFresh e now n then hostLoop e now zone ns acc
      else (let acc' = acc @ [A zone 5 (sn_Addr n)] in
            if length acc' > maxDnsResponses then acc' else hostLoop e now zone ns acc'))"

definition listHosts :: "env \<Rightarrow> 'db bucket \<Rightarrow> time \<Rightarrow> string \<Rightarrow> 'db \<Rightarrow> dnsReply option" where
  "listHosts e cb now zone d =
     (case findAllNodes e cb d of
        Inl er \<Rightarrow> None
      | Inr nl \<Rightarrow> Some \<lparr>dr_Rcode = RcodeSuccess, dr_Answer = hostLoop e now zone nl [], dr_Extra = []\<rparr>)"

section \<open>Questions\<close>

text \<open>A message without exactly one question, or with one about another zone, counts as an unknown type.\<close>

definition ServeDNS :: "env \<Rightarrow> 'db bucket \<Rightarrow> time \<Rightarrow> string \<Rightarrow> question list \<Rightarrow> 'db \<Rightarrow> dnsReply option go" where
  "ServeDNS e cb now zone qs d =
     (let q = (case qs of
                 [q0] \<Rightarrow> if hasSuffix (qn_Name q0) zone then q0 else \<lparr>qn_Name = [], qn_Type = TypeOther\<rparr>
               | _ \<Rightarrow> \<lparr>qn_Name = [], qn_Type = TypeOther\<rparr>) in
      case qn_Type q of
        TypeSRV \<Rightarrow> Ret (srvList e cb now zone d)
      | TypeAAAA \<Rightarrow> Ret (Some \<lparr>dr_Rcode = RcodeSuccess, dr_Answer = [], dr_Extra = []\<rparr>)
      | TypeOther \<Rightarrow> Ret (Some \<lparr>dr_Rcode = RcodeNotImplemented, dr_Answer = [], dr_Extra = []\<rparr>)
      | _ \<Rightarrow>
          (if qn_Name q = zone then Ret (listHosts e cb now zone d)
           else (case qs of
                   [] \<Rightarrow> Panic
                 | q0 # _ \<Rightarrow> (case hostLookup cb zone (qn_Name q0) d of Panic \<Rightarrow> Panic | Ret m \<Rightarrow> Ret (Some m)))))"

section \<open>Lemmas\<close>

text \<open>The loops take the first nine nodes that have an entry.\<close>

definition srvAll :: "time \<Rightarrow> string \<Rightarrow> nat \<Rightarrow> storageNode list \<Rightarrow> (rr \<times> rr) list" where
  "srvAll now zone i ns = List.map_filter (\<lambda>(j, n). srvRecords now zone j n) (List.enumerate i ns)"

lemma srvLoop_take:
  "length acc \<le> maxDnsResponses \<Longrightarrow> srvLoop now zone i ns acc = acc @ take (Suc maxDnsResponses - length acc) (srvAll now zone i ns)"
proof (induction ns arbitrary: i acc)
  case Nil
  then show ?case by (simp add: srvAll_def List.map_filter_def)
next
  case (Cons n ns)
  show ?case
  proof (cases "srvRecords now zone i n")
    case None
    with Cons show ?thesis by (simp add: srvAll_def List.map_filter_def)
  next
    case (Some r)
    then have s: "srvAll now zone i (n # ns) = r # srvAll now zone (Suc i) ns"
      by (simp add: srvAll_def List.map_filter_def)
    show ?thesis
    proof (cases "length acc = maxDnsResponses")
      case True
      with Some s show ?thesis by simp
    next
      case False
      with Cons.prems have "length (acc @ [r]) \<le> maxDnsResponses" "Suc maxDnsResponses - length acc = Suc (Suc maxDnsResponses - length (acc @ [r]))"
        by simp_all
      with Cons.IH [OF this(1), of "Suc i"] Some s show ?thesis by simp
    qed
  qed
qed

lemma hostLoop_take:
  "length acc \<le> maxDnsResponses \<Longrightarrow>
     hostLoop e now zone ns acc = acc @ take (Suc maxDnsResponses - length acc) (map (\<lambda>n. A zone 5 (sn_Addr n)) (filter (dnsFresh e now) ns))"
proof (induction ns arbitrary: acc)
  case (Cons n ns)
  show ?case
  proof (cases "length acc = maxDnsResponses")
    case True
    with Cons show ?thesis by simp
  next
    case False
    with Cons.prems have "length (acc @ [x]) \<le> maxDnsResponses" "Suc maxDnsResponses - length acc = Suc (Suc maxDnsResponses - length (acc @ [x]))" for x :: rr
      by simp_all
    with Cons show ?thesis by simp
  qed
qed simp

text \<open>What a reply may hold: records of the type and the name that the one question asks for.\<close>

definition answers_question :: "string \<Rightarrow> question list \<Rightarrow> rr \<Rightarrow> bool" where
  "answers_question zone qs a =
     (case qs of
        [q] \<Rightarrow> (case qn_Type q of
                  TypeSRV \<Rightarrow> is_SRV a \<and> rr_Name a = serviceDomain zone
                | TypeA \<Rightarrow> is_A a \<and> rr_Name a = qn_Name q
                | TypeANY \<Rightarrow> is_A a \<and> rr_Name a = qn_Name q
                | _ \<Rightarrow> False)
      | _ \<Rightarrow> False)"

definition reply_typed :: "string \<Rightarrow> question list \<Rightarrow> dnsReply \<Rightarrow> bool" where
  "reply_typed zone qs m \<longleftrightarrow>
     length (dr_Answer m) \<le> Suc maxDnsResponses \<and> list_all (answers_question zone qs) (dr_Answer m) \<and>
     list_all is_A (dr_Extra m) \<and>
     map rr_Name (dr_Extra m) = map rr_Target (filter is_SRV (dr_Answer m)) \<and>
     (dr_Rcode m \<noteq> RcodeSuccess \<longrightarrow> dr_Answer m = [])"

lemma srvAll_records:
  "r \<in> set (srvAll now zone i ns) \<Longrightarrow>
     is_SRV (fst r) \<and> rr_Name (fst r) = serviceDomain zone \<and> is_A (snd r) \<and> rr_Name (snd r) = rr_Target (fst r)"
  by (auto simp: srvAll_def List.map_filter_def srvRecords_def split: option.splits)

lemma srvList_typed:
  assumes "srvList e cb now zone d = Some m" and "qn_Type q = TypeSRV"
  shows "reply_typed zone [q] m"
proof -
  obtain nl where "m = (let rs = take (Suc maxDnsResponses) (srvAll now zone 0 nl)
      in \<lparr>dr_Rcode = RcodeSuccess, dr_Answer = map fst rs, dr_Extra = map snd rs\<rparr>)"
    using assms(1) by (auto simp: srvList_def srvLoop_take Let_def split: sum.splits)
  moreover define rs where "rs = take (Suc maxDnsResponses) (srvAll now zone 0 nl)"
  ultimately have m: "m = \<lparr>dr_Rcode = RcodeSuccess, dr_Answer = map fst rs, dr_Extra = map snd rs\<rparr>" by (simp add: Let_def)
  have rs: "is_SRV (fst r) \<and> rr_Name (fst r) = serviceDomain zone \<and> is_A (snd r) \<and> rr_Name (snd r) = rr_Target (fst r)"
    if "r \<in> set rs" for r
    using that unfolding rs_def by (intro srvAll_records [where i = 0 and ns = nl]) (rule in_set_takeD)
  then have "filter is_SRV (map fst rs) = map fst rs" by (auto intro!: filter_True)
  moreover have "length rs \<le> Suc maxDnsResponses" by (simp add: rs_def)
  ultimately show ?thesis
    using rs by (auto simp: m reply_typed_def answers_question_def assms(2) list_all_iff)
qed

lemma listHosts_typed:
  assumes "listHosts e cb now zone d = Some m" and "qn_Type q = TypeA \<or> qn_Type q = TypeANY" and "qn_Name q = zone"
  shows "reply_typed zone [q] m"
proof -
  obtain nl where m: "m = \<lparr>dr_Rcode = RcodeSuccess,
      dr_Answer = take (Suc maxDnsResponses) (map (\<lambda>n. A zone 5 (sn_Addr n)) (filter (dnsFresh e now) nl)), dr_Extra = []\<rparr>"
    using assms(1) by (auto simp: listHosts_def hostLoop_take split: sum.splits)
  have "list_all (answers_question zone [q]) (dr_Answer m)" "filter is_SRV (dr_Answer m) = []"
    using assms(2,3) by (auto simp: m list_all_iff filter_empty_conv answers_question_def dest!: in_set_takeD)
  then show ?thesis by (simp add: reply_typed_def) (simp add: m)
qed

lemma hostLookup_typed:
  assumes "hasSuffix (qn_Name q) zone" and "qn_Name q \<noteq> zone" and "qn_Type q = TypeA \<or> qn_Type q = TypeANY"
  shows "\<exists>m. hostLookup cb zone (qn_Name q) d = Ret m \<and> reply_typed zone [q] m"
proof -
  have "length zone < length (qn_Name q)"
    using assms(1,2) by (cases "length (qn_Name q) = length zone") (auto simp: hasSuffix_def)
  then show ?thesis
    using assms(3) by (cases "findNode cb (take (length (qn_Name q) - length zone - 1) (qn_Name q)) d")
      (auto simp: hostLookup_def reply_typed_def answers_question_def)
qed

section \<open>Properties\<close>


text \<open>The zone is compared without the dot before it: the name \<open>foocbfs.\<close> asks for the node \<open>fo\<close>.\<close>

lemma hostLookup_without_dot:
  "cbGet cb ''/fo'' d = Inr v \<Longrightarrow> unmarshal_node (Some v) = Some n \<Longrightarrow>
     ServeDNS e cb now ''cbfs.'' [\<lparr>qn_Name = ''foocbfs.'', qn_Type = TypeA\<rparr>] d =
       Ret (Some \<lparr>dr_Rcode = RcodeSuccess, dr_Answer = [A ''foocbfs.'' 60 (sn_Addr n)], dr_Extra = []\<rparr>)"
  by (simp add: ServeDNS_def hostLookup_def findNode_def hasSuffix_def)

end
