(* ===== verification/Frames.thy ===== *)
theory Frames
  imports Nodes
begin

text \<open>
  The multiplexed connections between nodes of \<open>src/frames.go\<close>: one client per address, made on demand,
  checked every five seconds and dropped when it is idle or does not answer.

  Clients are objects with an identity, kept in a store, because a check that waits for an answer goes on
  with its object after the table has changed. Timers fire in any order, dialling and pinging take their
  time, and every handler may run between the steps of another. The lemmas show that in every reachable
  state each client in the table has an open connection of its own and a check to come; that a new
  client with little traffic is dropped at its first check; and that two dials at once leave a connection
  open outside the table.
\<close>

section \<open>State\<close>

definition frameCheckFreq :: duration where "frameCheckFreq = 5 * second"
definition frameMaxIdle :: duration where "frameMaxIdle = 5 * minute"
definition minFrameRead :: int where "minFrameRead = 180"
definition minFrameWritten :: int where "minFrameWritten = 120"

text \<open>What the connection counts.\<close>

record framesInfo =
  in_BytesRead :: int
  in_BytesWritten :: int

text \<open>A client; \<open>fc_addr\<close> is the address its timers are made for.\<close>

record frameClient =
  fc_addr :: string
  fc_checker :: nat
  fc_prevInfo :: framesInfo
  fc_lastActivity :: time

text \<open>
  The table, the store of client objects, the open connections, the pending timers with the address each
  will check, the checks that wait for the answer to their ping, the dials under way, and the next
  number for a timer. The number of an object is its place in the store.
\<close>

record frameState =
  fr_clients :: "(string \<times> nat) list"
  fr_objs :: "frameClient list"
  fr_open :: "nat list"
  fr_timers :: "(nat \<times> string) list"
  fr_checks :: "(string \<times> nat \<times> framesInfo) list"
  fr_dials :: "string list"
  fr_next :: nat

definition frames_start :: frameState where
  "frames_start = \<lparr>fr_clients = [], fr_objs = [], fr_open = [], fr_timers = [], fr_checks = [], fr_dials = [], fr_next = 0\<rparr>"

section \<open>Operations\<close>

definition getFramesInfos :: "(nat \<Rightarrow> framesInfo) \<Rightarrow> frameState \<Rightarrow> (string \<times> framesInfo) list" where
  "getFramesInfos info s = map (\<lambda>(a, k). (a, info k)) (fr_clients s)"

definition findExistingFrameClient :: "string \<Rightarrow> frameState \<Rightarrow> nat option" where
  "findExistingFrameClient addr s = map_of (fr_clients s) addr"

text \<open>Stopping a timer that has fired does nothing.\<close>

definition stopTimer :: "nat \<Rightarrow> frameState \<Rightarrow> frameState" where
  "stopTimer t s = s\<lparr>fr_timers := filter (\<lambda>x. fst x \<noteq> t) (fr_timers s)\<rparr>"

definition destroyFrameClient :: "string \<Rightarrow> frameState \<Rightarrow> frameState" where
  "destroyFrameClient addr s =
     (case map_of (fr_clients s) addr of
        None \<Rightarrow> s
      | Some k \<Rightarrow>
          (let s1 = stopTimer (fc_checker (fr_objs s ! k)) s in
           s1\<lparr>fr_open := removeAll k (fr_open s1), fr_clients := AList.delete addr (fr_clients s1)\<rparr>))"

text \<open>The end of a check: the object remembers the counts and gets a new timer.\<close>

definition rearm :: "string \<Rightarrow> nat \<Rightarrow> framesInfo \<Rightarrow> frameState \<Rightarrow> frameState" where
  "rearm addr k info s =
     s\<lparr>fr_objs := (fr_objs s)[k := (fr_objs s ! k)\<lparr>fc_prevInfo := info, fc_checker := fr_next s\<rparr>],
       fr_timers := fr_timers s @ [(fr_next s, addr)], fr_next := Suc (fr_next s)\<rparr>"

definition sufficient :: "framesInfo \<Rightarrow> framesInfo \<Rightarrow> bool" where
  "sufficient info prev \<longleftrightarrow>
     in_BytesRead info - in_BytesRead prev > minFrameRead \<or> in_BytesWritten info - in_BytesWritten prev > minFrameWritten"

text \<open>A check up to its ping, which waits in \<open>fr_checks\<close>; and the rest of it, once the ping was answered or not.\<close>

definition checkFrameClient :: "time \<Rightarrow> string \<Rightarrow> (nat \<Rightarrow> framesInfo) \<Rightarrow> frameState \<Rightarrow> frameState" where
  "checkFrameClient now addr getInfo s =
     (case findExistingFrameClient addr s of
        None \<Rightarrow> s
      | Some k \<Rightarrow>
          (let info = getInfo k;
               suff = sufficient info (fc_prevInfo (fr_objs s ! k));
               s1 = (if suff then s\<lparr>fr_objs := (fr_objs s)[k := (fr_objs s ! k)\<lparr>fc_lastActivity := now\<rparr>]\<rparr> else s) in
           if timeSub now (fc_lastActivity (fr_objs s1 ! k)) > frameMaxIdle then destroyFrameClient addr s1
           else if suff then rearm addr k info s1
           else s1\<lparr>fr_checks := fr_checks s1 @ [(addr, k, info)]\<rparr>))"

definition checkPinged :: "bool \<Rightarrow> string \<times> nat \<times> framesInfo \<Rightarrow> frameState \<Rightarrow> frameState" where
  "checkPinged ok c s =
     (case c of (addr, k, info) \<Rightarrow>
        (let s1 = s\<lparr>fr_checks := remove1 c (fr_checks s)\<rparr> in
         if ok then rearm addr k info s1 else destroyFrameClient addr s1))"

text \<open>A new client has the zero time as its last activity.\<close>

definition connectNewFramesClient :: "string \<Rightarrow> frameState \<Rightarrow> frameState" where
  "connectNewFramesClient addr s =
     (let k = length (fr_objs s); t = fr_next s in
      s\<lparr>fr_objs := fr_objs s @ [\<lparr>fc_addr = addr, fc_checker = t, fc_prevInfo = \<lparr>in_BytesRead = 0, in_BytesWritten = 0\<rparr>,
                                 fc_lastActivity = 0\<rparr>],
        fr_timers := fr_timers s @ [(t, addr)], fr_open := k # fr_open s,
        fr_clients := AList.update addr k (fr_clients s), fr_next := Suc t\<rparr>)"

text \<open>A request for a client: the one there is, or a dial, after which there is a new one or the default.\<close>

definition getFrameClient :: "string \<Rightarrow> frameState \<Rightarrow> nat option \<times> frameState" where
  "getFrameClient addr s =
     (case findExistingFrameClient addr s of
        Some k \<Rightarrow> (Some k, s)
      | None \<Rightarrow> (None, s\<lparr>fr_dials := addr # fr_dials s\<rparr>))"

definition dialDone :: "bool \<Rightarrow> string \<Rightarrow> frameState \<Rightarrow> nat option \<times> frameState" where
  "dialDone ok addr s =
     (let s1 = s\<lparr>fr_dials := remove1 addr (fr_dials s)\<rparr> in
      if ok then (Some (length (fr_objs s1)), connectNewFramesClient addr s1) else (None, s1))"

inductive frStep :: "frameState \<Rightarrow> frameState \<Rightarrow> bool" where
  get: "frStep s (snd (getFrameClient addr s))"
| dial: "addr \<in> set (fr_dials s) \<Longrightarrow> frStep s (snd (dialDone ok addr s))"
| fire: "(t, addr) \<in> set (fr_timers s) \<Longrightarrow> frStep s (checkFrameClient now addr getInfo (stopTimer t s))"
| pinged: "c \<in> set (fr_checks s) \<Longrightarrow> frStep s (checkPinged ok c s)"

inductive_cases frStepE: "frStep s t"

section \<open>Invariant\<close>

text \<open>A check for the address is to come: a timer or a ping under way.\<close>

definition watched :: "string \<Rightarrow> frameState \<Rightarrow> bool" where
  "watched addr s \<longleftrightarrow> addr \<in> snd ` set (fr_timers s) \<or> addr \<in> fst ` set (fr_checks s)"

definition objs_ok :: "frameState \<Rightarrow> bool" where
  "objs_ok s \<longleftrightarrow>
     (\<forall>c \<in> set (fr_objs s). fc_checker c < fr_next s \<and> (\<forall>a. (fc_checker c, a) \<in> set (fr_timers s) \<longrightarrow> fc_addr c = a)) \<and>
     distinct (map fst (fr_timers s)) \<and> (\<forall>t a. (t, a) \<in> set (fr_timers s) \<longrightarrow> t < fr_next s) \<and> (\<forall>k \<in> set (fr_open s). k < length (fr_objs s)) \<and>
     (\<forall>a k i. (a, k, i) \<in> set (fr_checks s) \<longrightarrow> k < length (fr_objs s) \<and> fc_addr (fr_objs s ! k) = a)"

text \<open>The invariant, but for the check of one address, which is being carried out.\<close>

definition clients_ok :: "string set \<Rightarrow> frameState \<Rightarrow> bool" where
  "clients_ok A s \<longleftrightarrow>
     distinct (map fst (fr_clients s)) \<and>
     (\<forall>a k. (a, k) \<in> set (fr_clients s) \<longrightarrow> k \<in> set (fr_open s) \<and> fc_addr (fr_objs s ! k) = a \<and> (a \<in> A \<or> watched a s))"

definition fr_inv :: "string set \<Rightarrow> frameState \<Rightarrow> bool" where
  "fr_inv A s \<longleftrightarrow> objs_ok s \<and> clients_ok A s"

lemma fr_inv_start: "fr_inv {} frames_start"
  by (simp add: fr_inv_def objs_ok_def clients_ok_def frames_start_def)

lemma watched_stop:
  assumes "watched a s" and "\<And>b. (t, b) \<in> set (fr_timers s) \<Longrightarrow> b \<noteq> a"
  shows "watched a (stopTimer t s)"
  using assms by (force simp: watched_def stopTimer_def)

lemma objs_ok_stop: "objs_ok s \<Longrightarrow> objs_ok (stopTimer t s)"
  by (auto simp: objs_ok_def stopTimer_def distinct_map inj_on_def)

lemma stopTimer_fields [simp]:
  "fr_clients (stopTimer t s) = fr_clients s" "fr_objs (stopTimer t s) = fr_objs s" "fr_open (stopTimer t s) = fr_open s"
  "fr_checks (stopTimer t s) = fr_checks s" "fr_dials (stopTimer t s) = fr_dials s" "fr_next (stopTimer t s) = fr_next s"
  by (simp_all add: stopTimer_def)

lemma inv_fired:
  assumes "fr_inv {} s" and "(t, addr) \<in> set (fr_timers s)"
  shows "fr_inv {addr} (stopTimer t s)"
proof -
  have "b = addr" if "(t, b) \<in> set (fr_timers s)" for b
    using assms that by (auto simp: fr_inv_def objs_ok_def dest: eq_key_imp_eq_value)
  then have "watched a (stopTimer t s)" if "watched a s" "a \<noteq> addr" for a
    using watched_stop [OF that(1)] that(2) by blast
  with assms(1) objs_ok_stop [of s t] show ?thesis by (auto simp: fr_inv_def clients_ok_def)
qed

lemma inv_unlisted: "fr_inv {addr} s \<Longrightarrow> map_of (fr_clients s) addr = None \<Longrightarrow> fr_inv {} s"
  by (auto simp: fr_inv_def clients_ok_def map_of_eq_None_iff) (force+)

lemma inv_waiting:
  assumes "fr_inv {addr} s" and "k < length (fr_objs s)" and "fc_addr (fr_objs s ! k) = addr"
  shows "fr_inv {} (s\<lparr>fr_checks := fr_checks s @ [(addr, k, info)]\<rparr>)"
  using assms by (auto simp: fr_inv_def objs_ok_def clients_ok_def watched_def)

lemma inv_rearm:
  assumes "fr_inv {addr} s" and "k < length (fr_objs s)" and "fc_addr (fr_objs s ! k) = addr"
  shows "fr_inv {} (rearm addr k info s)"
proof -
  have "objs_ok (rearm addr k info s)"
    using assms unfolding fr_inv_def objs_ok_def rearm_def
    by (auto simp: nth_list_update less_Suc_eq dest!: set_update_subset_insert [THEN subsetD])
  moreover have "clients_ok {} (rearm addr k info s)"
    using assms by (auto simp: fr_inv_def clients_ok_def rearm_def watched_def nth_list_update)
  ultimately show ?thesis by (simp add: fr_inv_def)
qed

lemma inv_destroy:
  assumes "fr_inv {addr} s"
  shows "fr_inv {} (destroyFrameClient addr s)"
proof (cases "map_of (fr_clients s) addr")
  case None
  with assms inv_unlisted show ?thesis by (simp add: destroyFrameClient_def)
next
  case (Some k)
  have k: "k < length (fr_objs s)" "fc_addr (fr_objs s ! k) = addr" "(addr, k) \<in> set (fr_clients s)"
    using assms map_of_SomeD [OF Some] by (auto simp: fr_inv_def clients_ok_def objs_ok_def)
  let ?t = "fc_checker (fr_objs s ! k)"
  let ?s = "stopTimer ?t s"
  have t: "b = addr" if "(?t, b) \<in> set (fr_timers s)" for b
    using assms k(1,2) that by (auto simp: fr_inv_def objs_ok_def)
  have keep: "a \<noteq> addr \<and> k' \<noteq> k \<and> k' \<in> set (fr_open s) \<and> fc_addr (fr_objs s ! k') = a \<and> watched a ?s"
    if "(a, k') \<in> set (AList.delete addr (fr_clients s))" for a k'
  proof -
    have a: "(a, k') \<in> set (fr_clients s)" "a \<noteq> addr" using that by (auto simp: AList.delete_eq)
    then have "k' \<in> set (fr_open s)" "fc_addr (fr_objs s ! k') = a" "watched a s"
      using assms by (auto simp: fr_inv_def clients_ok_def)
    with a k(2) watched_stop [of a s ?t] t show ?thesis by blast
  qed
  let ?d = "?s\<lparr>fr_open := removeAll k (fr_open s), fr_clients := AList.delete addr (fr_clients s)\<rparr>"
  have d: "destroyFrameClient addr s = ?d" by (simp add: destroyFrameClient_def Some)
  have w: "watched a ?d = watched a ?s" for a by (simp add: watched_def)
  have "distinct (map fst (AList.delete addr (fr_clients s)))"
    using assms by (simp add: fr_inv_def clients_ok_def distinct_delete)
  then have "clients_ok {} ?d" using keep w unfolding clients_ok_def by simp
  moreover have "objs_ok ?s" using assms by (simp add: fr_inv_def objs_ok_stop)
  then have "objs_ok ?d" by (simp add: objs_ok_def)
  ultimately show ?thesis by (simp add: fr_inv_def d)
qed

lemma set_update_pairs: "x \<in> set (AList.update a v l) \<Longrightarrow> x = (a, v) \<or> x \<in> set l"
  by (induction l) (auto split: if_splits)

lemma inv_connect:
  assumes "fr_inv {} s"
  shows "fr_inv {} (connectNewFramesClient addr s)"
proof -
  have "objs_ok (connectNewFramesClient addr s)"
    using assms unfolding fr_inv_def objs_ok_def connectNewFramesClient_def by (auto simp: nth_append less_Suc_eq Let_def)
  moreover have "clients_ok {} (connectNewFramesClient addr s)"
    unfolding clients_ok_def
  proof (intro conjI allI impI)
    show "distinct (map fst (fr_clients (connectNewFramesClient addr s)))"
      using assms by (simp add: fr_inv_def clients_ok_def connectNewFramesClient_def Let_def distinct_update)
    fix a k
    assume "(a, k) \<in> set (fr_clients (connectNewFramesClient addr s))"
    then consider "a = addr" "k = length (fr_objs s)" | "(a, k) \<in> set (fr_clients s)"
      using set_update_pairs [of "(a, k)" addr] by (auto simp: connectNewFramesClient_def Let_def)
    then have "k \<in> set (fr_open (connectNewFramesClient addr s)) \<and> fc_addr (fr_objs (connectNewFramesClient addr s) ! k) = a \<and>
        watched a (connectNewFramesClient addr s)"
    proof cases
      case 1
      then show ?thesis by (simp add: connectNewFramesClient_def Let_def watched_def)
    next
      case 2
      then have "k \<in> set (fr_open s)" "fc_addr (fr_objs s ! k) = a" "watched a s"
        using assms by (auto simp: fr_inv_def clients_ok_def)
      moreover from this(1) have "k < length (fr_objs s)" using assms by (auto simp: fr_inv_def objs_ok_def)
      ultimately show ?thesis by (auto simp: connectNewFramesClient_def Let_def watched_def nth_append)
    qed
    then show "k \<in> set (fr_open (connectNewFramesClient addr s))" "fc_addr (fr_objs (connectNewFramesClient addr s) ! k) = a"
      "a \<in> {} \<or> watched a (connectNewFramesClient addr s)" by simp_all
  qed
  ultimately show ?thesis by (simp add: fr_inv_def)
qed

lemma inv_check:
  assumes "fr_inv {addr} s"
  shows "fr_inv {} (checkFrameClient now addr getInfo s)"
proof (cases "map_of (fr_clients s) addr")
  case None
  with assms inv_unlisted show ?thesis by (simp add: checkFrameClient_def findExistingFrameClient_def)
next
  case (Some k)
  have k: "k < length (fr_objs s)" "fc_addr (fr_objs s ! k) = addr"
    using assms map_of_SomeD [OF Some] by (auto simp: fr_inv_def clients_ok_def objs_ok_def)
  define s1 where "s1 = (if sufficient (getInfo k) (fc_prevInfo (fr_objs s ! k))
     then s\<lparr>fr_objs := (fr_objs s)[k := (fr_objs s ! k)\<lparr>fc_lastActivity := now\<rparr>]\<rparr> else s)"
  have "fr_inv {addr} s1"
    using assms k unfolding s1_def fr_inv_def objs_ok_def clients_ok_def watched_def
    by (auto simp: nth_list_update dest!: set_update_subset_insert [THEN subsetD])
  moreover have "k < length (fr_objs s1)" "fc_addr (fr_objs s1 ! k) = addr" using k by (simp_all add: s1_def)
  ultimately have "fr_inv {} (destroyFrameClient addr s1)" "fr_inv {} (rearm addr k (getInfo k) s1)"
      "fr_inv {} (s1\<lparr>fr_checks := fr_checks s1 @ [(addr, k, getInfo k)]\<rparr>)"
    by (simp_all add: inv_destroy inv_rearm inv_waiting)
  moreover have "checkFrameClient now addr getInfo s =
      (if timeSub now (fc_lastActivity (fr_objs s1 ! k)) > frameMaxIdle then destroyFrameClient addr s1
       else if sufficient (getInfo k) (fc_prevInfo (fr_objs s ! k)) then rearm addr k (getInfo k) s1
       else s1\<lparr>fr_checks := fr_checks s1 @ [(addr, k, getInfo k)]\<rparr>)"
    unfolding checkFrameClient_def findExistingFrameClient_def Some option.case Let_def s1_def by (rule refl)
  ultimately show ?thesis by presburger
qed

lemma inv_pinged:
  assumes "fr_inv {} s" and "c \<in> set (fr_checks s)"
  shows "fr_inv {} (checkPinged ok c s)"
proof -
  obtain addr k info where c: "c = (addr, k, info)" by (cases c) auto
  let ?s = "s\<lparr>fr_checks := remove1 c (fr_checks s)\<rparr>"
  have sub: "x \<in> set (fr_checks s)" if "x \<in> set (remove1 c (fr_checks s))" for x
    using that set_remove1_subset by (rule rev_subsetD)
  have "watched a ?s" if "watched a s" "a \<noteq> addr" for a
  proof (cases "a \<in> snd ` set (fr_timers s)")
    case False
    then have "a \<in> fst ` set (fr_checks s)" using that(1) unfolding watched_def by blast
    then obtain x where "(a, x) \<in> set (fr_checks s)" by auto
    then have "(a, x) \<in> set (remove1 c (fr_checks s))" using that(2) c by (simp add: in_set_remove1)
    then show ?thesis by (force simp: watched_def)
  qed (simp add: watched_def)
  then have "clients_ok {addr} ?s"
    using assms(1) unfolding fr_inv_def clients_ok_def by simp (metis (mono_tags, lifting))
  moreover have "objs_ok ?s"
    using assms(1) unfolding fr_inv_def objs_ok_def by simp (meson sub)
  ultimately have "fr_inv {addr} ?s" by (simp add: fr_inv_def)
  moreover have "k < length (fr_objs ?s)" "fc_addr (fr_objs ?s ! k) = addr"
    using assms unfolding fr_inv_def objs_ok_def c by (simp_all) (meson)+
  ultimately show ?thesis by (simp add: checkPinged_def Let_def c inv_rearm inv_destroy)
qed

lemma inv_dials: "fr_inv A s \<Longrightarrow> fr_inv A (s\<lparr>fr_dials := x\<rparr>)"
  by (simp add: fr_inv_def objs_ok_def clients_ok_def watched_def)

lemma inv_step: "frStep s t \<Longrightarrow> fr_inv {} s \<Longrightarrow> fr_inv {} t"
proof (induction rule: frStep.induct)
  case (get s addr)
  then show ?case by (simp add: getFrameClient_def inv_dials split: option.split)
next
  case (dial addr s ok)
  then show ?case by (simp add: dialDone_def Let_def inv_dials inv_connect)
next
  case (fire t addr s now getInfo)
  then show ?case by (intro inv_check inv_fired)
next
  case (pinged c s ok)
  then show ?case by (intro inv_pinged)
qed

lemma inv_reach: "frStep\<^sup>*\<^sup>* frames_start s \<Longrightarrow> fr_inv {} s"
  by (induction rule: rtranclp_induct) (auto intro: fr_inv_start inv_step)

section \<open>Properties\<close>

text \<open>
  C27: no client of the table is forgotten. In every state that any interleaving of requests, dials, timers
  and pings can reach, an address has one client, its connection is open and belongs to no other address,
  and a check of the address is to come: a timer is pending or a ping under way.
\<close>

theorem frames_watched:
  assumes "frStep\<^sup>*\<^sup>* frames_start s" and "findExistingFrameClient addr s = Some k"
  shows "k \<in> set (fr_open s) \<and> watched addr s \<and> (\<forall>addr'. findExistingFrameClient addr' s = Some k \<longrightarrow> addr' = addr)"
proof -
  have "k \<in> set (fr_open s) \<and> watched a s \<and> fc_addr (fr_objs s ! k) = a" if "findExistingFrameClient a s = Some k" for a
    using inv_reach [OF assms(1)] map_of_SomeD [OF that [unfolded findExistingFrameClient_def]]
    by (auto simp: fr_inv_def clients_ok_def)
  with assms(2) show ?thesis by blast
qed

text \<open>One request for a client of \<open>h:1\<close>, and its dial.\<close>

definition oneClient :: frameState where
  "oneClient = snd (dialDone True ''h:1'' (snd (getFrameClient ''h:1'' frames_start)))"

lemma oneClient_reach: "frStep\<^sup>*\<^sup>* frames_start oneClient"
proof -
  have "frStep frames_start (snd (getFrameClient ''h:1'' frames_start))" by (rule frStep.get)
  moreover have "frStep (snd (getFrameClient ''h:1'' frames_start)) oneClient"
    unfolding oneClient_def by (rule frStep.dial) code_simp
  ultimately show ?thesis by (meson r_into_rtranclp rtranclp_trans)
qed

theorem frames_watched_witness:
  "findExistingFrameClient ''h:1'' oneClient = Some 0 \<and> 0 \<in> set (fr_open oneClient) \<and> watched ''h:1'' oneClient"
proof -
  have "findExistingFrameClient ''h:1'' oneClient = Some 0" by code_simp
  with frames_watched [OF oneClient_reach this] show ?thesis by blast
qed

text \<open>
  A client that is used seldom is dropped at its first check: the time of its last activity is still zero,
  so that it counts as idle for longer than the limit.
\<close>

lemma new_client_dropped:
  assumes "now > frameMaxIdle" and "now < 2 ^ 62" and "\<not> sufficient (getInfo (length (fr_objs s))) \<lparr>in_BytesRead = 0, in_BytesWritten = 0\<rparr>"
  shows "findExistingFrameClient addr (checkFrameClient now addr getInfo (connectNewFramesClient addr s)) = None"
proof -
  have "timeSub now 0 > frameMaxIdle" using assms(1,2) by (simp add: timeSub_def)
  then show ?thesis
    using assms(3) by (simp add: checkFrameClient_def connectNewFramesClient_def findExistingFrameClient_def Let_def update_conv'
        destroyFrameClient_def delete_conv')
qed

text \<open>
  Two requests that both find no client dial twice; the first connection stays open outside the table,
  where nothing closes it any more.
\<close>

definition twoDials :: frameState where
  "twoDials = snd (dialDone True ''h:1'' (snd (dialDone True ''h:1''
     (snd (getFrameClient ''h:1'' (snd (getFrameClient ''h:1'' frames_start)))))))"

lemma connection_leaked: "fr_open twoDials = [1, 0] \<and> fr_clients twoDials = [(''h:1'', 1)]"
  by code_simp

end
