(* ===== verification/Spec2Isabelle.thy ===== *)
theory Spec2Isabelle
  imports Http Multi_Reader Client_Tools Admin_Tools Upload_Crypto Dns Frames
begin

text \<open>
  A verification development for cbfs, a distributed blob store over a couchbase bucket: the server, its
  client library and its command line tools, as they are written in Go under \<open>src/\<close>.

  \<^bold>\<open>The program.\<close> Every node keeps objects, files named by the hash of their contents, below a root directory. The
  bucket has the shared state: one document per file (its metadata and older revisions), one ownership
  document per object (which nodes have it), the registry of the nodes, the configuration, the list of
  backups and the markers of running jobs. Handlers of HTTP requests store and serve files; a queue of
  commands between nodes copies and removes objects; periodic jobs check, copy, prune and collect objects.
  All changes of documents are compare-and-swap updates by a callback that may be tried again.

  \<^bold>\<open>Conventions.\<close> Operations pass the state explicitly; a panic is the value \<open>Panic\<close> of the type \<open>go\<close>, errors are
  values of \<open>gerr\<close> (server) and \<open>cerr\<close> (client), Go maps are association lists or nil, integers are \<open>int\<close> with the
  64-bit wrap-around written out where the code can reach it, and JSON is a syntax tree. The clock, random
  choices, the order of concurrent messages and what other nodes answer are arguments. The bucket, the
  digest functions, compression, the matching of patterns and the network are arguments as well; what is
  relied on is named (\<open>bucket_ok\<close>, \<open>collation_ok\<close>, \<open>file_server\<close> and the like), and each theorem with such a
  hypothesis is applied to a concrete instance.

  \<^bold>\<open>Foundations.\<close>
  \<^item> \<open>Go_Prelude\<close>: the language and library features the sources share.
  \<^item> \<open>Couchbase\<close>, \<open>Views\<close>: the bucket, its updates with retries and interleaving, the views of \<open>database.go\<close>, paging. The
    locale \<open>doc_callback\<close> states what an update callback promises; the callbacks of files, ownership documents,
    the registry and deletion interpret it.
  \<^item> \<open>Config\<close> (\<open>config/config.go\<close>, \<open>conf.go\<close>): parameters, JSON form, storing; a stored configuration is read back.

  \<^bold>\<open>State of the cluster.\<close>
  \<^item> \<open>Nodes\<close> (\<open>nodes.go\<close>, \<open>registry.go\<close>, \<open>heartbeat.go\<close>): node records and filters, the registry, space, heartbeats.
  \<^item> \<open>File_Meta\<close> (\<open>main.go\<close>): metadata, short keys, preconditions, revisions; an upload stores exactly its metadata,
    If-Match is a compare-and-swap, revision numbers stay consecutive under interleaving.
  \<^item> \<open>Blobs\<close> (\<open>blobs.go\<close>): ownership; copies are given up only while enough remain, references protect from garbage.
  \<^item> \<open>Hash_Store\<close> (\<open>hash.go\<close>, \<open>files.go\<close>): object files; every object is named by its contents.
  \<^item> \<open>Named_Lock\<close> (\<open>namedlock.go\<close>): locks by name, with a specification as a locale, and mutual exclusion of fetches.

  \<^bold>\<open>Work between nodes.\<close>
  \<^item> \<open>Replication\<close> (\<open>blobs.go\<close>, \<open>files.go\<close>): the command queue, fetching, pruning, verification.
  \<^item> \<open>Paths\<close> (\<open>pathgen.go\<close>, \<open>export.go\<close>, \<open>fsck.go\<close>, \<open>list.go\<close>, \<open>zip.go\<close>): the walk over all files is complete and ends.
  \<^item> \<open>Backup\<close> (\<open>backup.go\<close>): backups, restores, the hashes that backups protect, in every order of the loaders.
  \<^item> \<open>Tasks\<close>, \<open>Garbage\<close> (\<open>tasks.go\<close>): jobs under cluster locks, clean-up after nodes, collection, which spares what files and
    backups refer to and ends.
  \<^item> \<open>Frames\<close> (\<open>frames.go\<close>): connections with their timers as a step relation; none in the table is forgotten.
  \<^item> \<open>Dns\<close> (\<open>dns.go\<close>): the name service; its replies are well typed.

  \<^bold>\<open>Requests.\<close>
  \<^item> \<open>Http_Types\<close>, \<open>Http_Files\<close>, \<open>Http_Api\<close>, \<open>Http\<close> (\<open>http.go\<close>, \<open>http_api.go\<close>, \<open>tar.go\<close>): requests, handlers and their dispatch; what was
    uploaded is downloaded, and no sequence of requests breaks the naming of objects by contents.
  \<^item> \<open>Multi_Reader\<close> (\<open>ioutil.go\<close>): the body of an upload read by two consumers at once, as steps of both sides.

  \<^bold>\<open>Client side.\<close>
  \<^item> \<open>Client\<close> (\<open>client/\<close>): the client library over an HTTP transport; reading a handle gives the file.
  \<^item> \<open>Filepath\<close>, \<open>Upload_Tool\<close> (\<open>upload.go\<close>, \<open>ignore.go\<close>, \<open>rm.go\<close> of \<open>tools/cbfsclient\<close>): synchronising a tree; it converges.
  \<^item> \<open>Upload_Crypto\<close> (\<open>upload_crypto.go\<close>): the choice of keys.
  \<^item> \<open>Client_Tools\<close> (\<open>find.go\<close>, \<open>ls.go\<close>, \<open>download.go\<close>): search, totals, where a download is written.
  \<^item> \<open>Admin_Tools\<close> (\<open>tools/tool.go\<close>, \<open>tools/cbfsadm\<close>, \<open>tools/cbfsseriesly\<close>): command lines, requests and exit codes.
  \<^item> This theory composes client and server: what the client stores through a node it reads back from it.

  \<^bold>\<open>Loops.\<close> Recursion is structural or has a measure where the code's loop has one. The walk of a collection and
  reading to the end take fuel; \<open>gc_terminates\<close> shows that one more than the number of keys is enough for the
  first, and \<open>handle_reads_file\<close> gives the amount for the second. The search for parent directories may run for
  ever and is a partial function, which \<open>find_reports_once\<close> shows to return for relative names.

  \<^bold>\<open>Simplifications.\<close> \<open>sort.Sort\<close> is an insertion sort; the facts used hold of every sort that permutes. Workers of a
  tool that take requests from one channel are one worker, with the order free where a theorem says so. JSON
  is not spelled out as bytes, so a body is either JSON or text. In this theory URLs are not
  percent-encoded.

  \<^bold>\<open>Not modelled.\<close> The start of the server in \<open>main.go\<close> (flags and goroutines); counters, logs and debug pages (\<open>debug.go\<close>,
  \<open>logging.go\<close>); deadlines of connections (\<open>timeout.go\<close>) and the system calls for free space, whose result is an
  argument; serving of frames and starting of the name service, which are library calls; encryption
  itself and the keyring; templates, columns, usage texts and progress of the tools (\<open>info.go\<close>, \<open>progress.go\<close>, the
  rest of \<open>fileinfo.go\<close>), which only print; the installation of the design document; the web pages.
\<close>

section \<open>A client of a node\<close>

text \<open>
  The server side of \<open>net/http\<close>: a request for a URL of the node's address becomes a request with the path
  and the query of the URL; the transport adds its own headers. A handler that panics or does not return
  ends the connection. Percent-encoding is left out: the names below are made of characters that stand
  for themselves.
\<close>

definition plainPath :: "string \<Rightarrow> bool" where
  "plainPath p \<longleftrightarrow> list_all (\<lambda>c. c \<noteq> CHR ''?'' \<and> c \<noteq> CHR ''#'' \<and> c \<noteq> CHR ''%'') p"

definition queryForm :: "string \<Rightarrow> (string \<times> string list) list" where
  "queryForm q =
     List.map_filter (\<lambda>kv. case splitOn CHR ''='' kv of [k, v] \<Rightarrow> Some (k, [v]) | _ \<Rightarrow> None) (splitOn CHR ''&'' q)"

definition toRequest :: "webReq \<Rightarrow> string \<Rightarrow> request" where
  "toRequest r p =
     \<lparr>rq_Method = wq_Method r, rq_Path = takeWhile (\<lambda>c. c \<noteq> CHR ''?'') p,
      rq_Header = Some (hdrSet ''Accept-Encoding'' ''gzip'' (hdrSet ''User-Agent'' ''Go-http-client/1.1'' (wq_Header r))),
      rq_Form = queryForm (drop 1 (dropWhile (\<lambda>c. c \<noteq> CHR ''?'') p)), rq_Body = [(wq_Body r, None)], rq_BodyErr = None,
      rq_ContentLength = - 1\<rparr>"

definition nodeWeb :: "'db apiEnv \<Rightarrow> string \<Rightarrow> 'db server web" where
  "nodeWeb ae addr r sv =
     (if \<not> hasPrefix (wq_Url r) (''http://'' @ addr) then (Inl (EMsg ''no such host''), sv)
      else
        (case httpHandler ae (toRequest r (drop (length (''http://'' @ addr)) (wq_Url r))) sv of
           Some (Ret (rs, sv')) \<Rightarrow>
             (Inr \<lparr>wr_Status = rs_Status rs, wr_Header = rs_Header rs, wr_Body = rs_Body rs, wr_Err = None\<rparr>, sv')
         | _ \<Rightarrow> (Inl (EMsg ''EOF''), sv)))"

lemma toRequest_plain:
  assumes "plainPath p"
  shows "rq_Path (toRequest r p) = p" "FormValue (toRequest r p) k = []"
proof -
  have c: "\<forall>x \<in> set p. x \<noteq> CHR ''?''" using assms by (auto simp: plainPath_def list_all_iff)
  show "rq_Path (toRequest r p) = p" using c by (simp add: toRequest_def)
  have "dropWhile (\<lambda>c. c \<noteq> CHR ''?'') p = []" using c by simp
  then have "rq_Form (toRequest r p) = queryForm []" by (simp add: toRequest_def del: dropWhile_eq_Nil_conv)
  also have "\<dots> = []" by code_simp
  finally show "FormValue (toRequest r p) k = []" by (simp add: FormValue_def)
qed

lemma nodeWeb_plain:
  assumes "wq_Url r = ''http://'' @ addr @ p"
  shows "nodeWeb ae addr r sv =
     (case httpHandler ae (toRequest r p) sv of
        Some (Ret (rs, sv')) \<Rightarrow>
          (Inr \<lparr>wr_Status = rs_Status rs, wr_Header = rs_Header rs, wr_Body = rs_Body rs, wr_Err = None\<rparr>, sv')
      | _ \<Rightarrow> (Inl (EMsg ''EOF''), sv))"
  using assms by (simp add: nodeWeb_def hasPrefix_def)

text \<open>A client that knows the node and has heard of it lately.\<close>

definition knows_node :: "client \<Rightarrow> string \<Rightarrow> bool" where
  "knows_node c addr \<longleftrightarrow>
     cl_u c = ''http://'' @ addr @ ''/'' \<and>
     (\<exists>name n. cl_nodes c = Some [(name, n)] \<and> cn_Addr n = addr \<and> \<not> stale (cn_HBAgeStr n))"

lemma Put_sent:
  assumes "Put web rnd sniff byExt c srcname dest src opts w = Ret (None, w')" and "knows_node c addr"
    and "po_ContentTransform opts = None" and "rnd 1 = 0"
  obtains r resp where "wq_Method r = ''PUT''" "wq_Body r = sr_data src"
    "wq_Url r = ''http://'' @ addr @ (if hd dest \<noteq> CHR ''/'' then ''/'' @ dest else dest)"
    "\<exists>ctype len. wq_Header r = putHeader ctype len opts"
    "dest \<noteq> []" "web r w = (Inr resp, w')" "wr_Status resp = 201"
proof -
  obtain name n where c: "cl_nodes c = Some [(name, n)]" "cn_Addr n = addr" "\<not> stale (cn_HBAgeStr n)"
    using assms(2) by (auto simp: knows_node_def)
  have rn: "RandomNode web rnd c w = ((Inr (name, n), c), w)"
    using c assms(4) by (simp add: RandomNode_def clNodes_def Let_def orZero_def)
  obtain someBytes len where sp: "sendPut web rnd sniff byExt c srcname dest someBytes (sr_data src) len opts w = Ret (None, w')"
    using assms(1,3) by (auto simp: Put_def Let_def split: option.splits prod.splits)
  let ?r = "\<lparr>wq_Method = ''PUT'', wq_Url = ''http://'' @ addr @ (if hd dest \<noteq> CHR ''/'' then ''/'' @ dest else dest),
     wq_Header = putHeader (putType sniff byExt srcname someBytes opts) len opts, wq_Body = sr_data src, wq_Json = None\<rparr>"
  have ne: "dest \<noteq> []" using sp rn by (auto simp: sendPut_def nodeURLFor_def)
  then have u: "nodeURLFor n dest = Ret (wq_Url ?r)" using c(2) by (cases dest) (simp_all add: nodeURLFor_def)
  obtain x w2 where web: "web ?r w = (x, w2)" by (cases "web ?r w")
  obtain resp where "x = Inr resp" "w2 = w'" "wr_Status resp = 201"
    using sp rn u web by (auto simp: sendPut_def split: sum.splits if_splits)
  with web ne that [of ?r resp] show ?thesis by auto
qed
lemma mwf_hdrSet: "distinct (map fst h) \<Longrightarrow> distinct (map fst (hdrSet k v h))"
  by (simp add: hdrSet_def distinct_update)

lemma putHeader_distinct: "distinct (map fst (putHeader ctype len opts))"
  by (simp add: putHeader_def Let_def mwf_hdrSet)

lemma altStoreFile_whole:
  assumes "altStoreFile alt e cb req len d = (ps, re, ms)" and "al_reqErr alt = None" and "1 \<le> al_got alt"
    and "rq_Body req = [b]" and "rq_BodyErr req = None"
  shows "ps = [b] \<and> re = None"
  using assms by (auto simp: altStoreFile_def Let_def split: if_splits sum.splits list.splits)

lemma trimmed_path:
  assumes "dest \<noteq> []" and "p = (if hd dest \<noteq> CHR ''/'' then ''/'' @ dest else dest)" and "\<not> containsStr p ''//''"
  shows "''/'' @ trimSlashes dest = p"
proof (cases "hd dest = CHR ''/''")
  case True
  then obtain d where d: "dest = CHR ''/'' # d" using assms(1) by (cases dest) auto
  with assms(2,3) have "\<not> (\<exists>x. d = CHR ''/'' # x)" by (auto simp: containsStr.simps hasPrefix_def)
  then have "trimSlashes d = d" by (cases d) auto
  with d assms(2) show ?thesis by simp
next
  case False
  with assms(1,2) show ?thesis by (cases dest) auto
qed

text \<open>The request of a \<open>Get\<close>: it carries no condition.\<close>

lemma get_request_plain:
  "\<not> conditional (toRequest ((httpGet u)\<lparr>wq_Header := hdrSet ''X-CBFS-LocalOnly'' ''true'' []\<rparr>) p)"
proof -
  let ?h = "Some (hdrSet ''Accept-Encoding'' ''gzip'' (hdrSet ''User-Agent'' ''Go-http-client/1.1'' (hdrSet ''X-CBFS-LocalOnly'' ''true'' [])))"
  have "\<not> list_ex (\<lambda>k. hdrGet ?h k \<noteq> [])
      [''Range'', ''If-Range'', ''If-Match'', ''If-None-Match'', ''If-Modified-Since'', ''If-Unmodified-Since'']" by code_simp
  then show ?thesis by (simp add: conditional_def reqHeader_def toRequest_def)
qed

text \<open>
  C4: what a client stores, the client gets. When \<open>Put\<close> reports no error over a node whose dispatcher,
  handlers, hash records and bucket are those of this development, a following \<open>Get\<close> of the same name,
  whose read of the metadata succeeds, gives the bytes of the source, and no error. The second node of the
  upload, if there was one, was sent the whole body.
\<close>

theorem client_put_get:
  assumes "bucket_ok (ae_cb ae) st" and "sha1_ok (hp_sha1 (ae_hp ae))" and "tmp_ok (sv_env sv) (hp_tmp (ae_hp ae))"
    and "getHash (hp_sm (ae_hp ae)) (sv_env sv) = Some s" and "1 \<le> length (s (sr_data src))" and "int (length (sr_data src)) < 2 ^ 63"
    and "al_reqErr (hp_alt (ae_hp ae)) = None" and "1 \<le> al_got (hp_alt (ae_hp ae))"
    and "knows_node c addr" and "po_ContentTransform opts = None" and "rnd 1 = 0"
    and "plainPath dest" and "\<not> hasPrefix (''/'' @ trimSlashes dest) apiPrefix"
    and "Put (nodeWeb ae addr) rnd sniff byExt c srcname dest src opts sv = Ret (None, sv')"
    and "\<And>req. rq_Path req = ''/'' @ trimSlashes dest \<Longrightarrow>
       cbGet (ae_cb ae) (snd (resolvePath (hp_sha1 (ae_hp ae)) req)) (w_db (sv_w sv')) = Inr v"
  shows "\<exists>sv''. clGet (nodeWeb ae addr) c dest sv' = (Inr (sr_data src, None), sv'')"
proof -
  let ?hp = "ae_hp ae" and ?cb = "ae_cb ae" and ?e = "sv_env sv"
  let ?p = "if hd dest \<noteq> CHR ''/'' then ''/'' @ dest else dest"
  obtain r resp where r: "wq_Method r = ''PUT''" "wq_Body r = sr_data src" "wq_Url r = ''http://'' @ addr @ ?p"
    "\<exists>ctype len. wq_Header r = putHeader ctype len opts" "dest \<noteq> []" "nodeWeb ae addr r sv = (Inr resp, sv')" "wr_Status resp = 201"
    by (rule Put_sent [OF assms(14,9-11)])
  let ?req = "toRequest r ?p"
  have pl: "plainPath ?p" using assms(12) by (simp add: plainPath_def)
  have api: "\<not> hasPrefix ?p apiPrefix"
    using assms(13) r(5) by (cases dest) (auto simp: hasPrefix_iff apiPrefix_def split: if_splits)
  obtain rs where h: "httpHandler ae ?req sv = Some (Ret (rs, sv'))" and st: "rs_Status rs = 201"
    using r(6,7) unfolding nodeWeb_plain [OF r(3)] by (auto split: option.splits go.splits)
  have m: "rq_Method ?req = ''PUT''" "rq_Path ?req = ?p" "rq_Body ?req = [(sr_data src, None)]" "rq_BodyErr ?req = None"
    using r(1,2) toRequest_plain(1) [OF pl] by (simp_all add: toRequest_def)
  obtain w1 where put: "putUserFile ?hp ?e ?cb ?req (sv_w sv) = Ret (rs, w1)" and sv': "sv' = sv\<lparr>sv_w := w1\<rparr>"
    using h user_path_routed [of ?req ae sv] api m by (auto simp: inWorld_def split: go.splits)
  obtain ps re ms where alt: "altStoreFile (hp_alt ?hp) ?e ?cb ?req (uploadLength ?req) (w_db (sv_w sv)) = (ps, re, ms)"
    by (cases "altStoreFile (hp_alt ?hp) ?e ?cb ?req (uploadLength ?req) (w_db (sv_w sv))") auto
  have ps: "sr_data src = concat (map fst ps)" using altStoreFile_whole [OF alt assms(7,8) m(3,4)] by simp
  have mw: "mwf (rq_Header ?req)" using r(4) by (auto simp: toRequest_def mwf_def mrange_def mwf_hdrSet putHeader_distinct)
  have path: "''/'' @ trimSlashes dest = ?p"
    using trimmed_path [OF r(5) refl] put st m(2) by (auto simp: putUserFile_def httpError_def split: if_splits)
  let ?get = "(httpGet (URLFor c dest))\<lparr>wq_Header := hdrSet ''X-CBFS-LocalOnly'' ''true'' []\<rparr>"
  let ?g = "toRequest ?get ?p"
  have url: "wq_Url ?get = ''http://'' @ addr @ ?p"
    unfolding path [symmetric] using assms(9) by (simp add: httpGet_def URLFor_def knows_node_def)
  have g: "rq_Method ?g = ''GET''" "rq_Path ?g = ?p" using toRequest_plain(1) [OF pl] by (simp_all add: toRequest_def httpGet_def)
  have v: "cbGet ?cb (snd (resolvePath (hp_sha1 ?hp) ?g)) (w_db w1) = Inr v" using assms(15) [of ?g] g path sv' by simp
  have same: "rq_Path ?g = rq_Path ?req" using g m by simp
  obtain rs2 w2 where get: "doGetUserDoc ?hp ?e ?cb ?g w1 = Ret (rs2, w2)" "rs_Status rs2 = 200" "rs_Body rs2 = BBytes (sr_data src)"
    using upload_then_get [OF assms(1-4) mw alt ps assms(5,6) put st same toRequest_plain(2) [OF pl] get_request_plain v] by blast
  have "httpHandler ae ?g sv' = Some (Ret (rs2, sv'\<lparr>sv_w := w2\<rparr>))"
    using user_path_routed [of ?g ae sv'] api g get(1) sv' by (simp add: inWorld_def)
  then show ?thesis using get(2,3) by (auto simp: clGet_def nodeWeb_plain [OF url])
qed
definition helloApi :: "memdb apiEnv" where
  "helloApi = anApi\<lparr>ae_hp := aHttp\<lparr>hp_alt := \<lparr>al_reqErr = None, al_got = 1, al_res = Inl EJson\<rparr>\<rparr>\<rparr>"

definition helloSource :: source where
  "helloSource = \<lparr>sr_data = ''hello'', sr_first = 5, sr_readErr = None, sr_seek = Some (None, None)\<rparr>"

definition helloOptions :: putOptions where
  "helloOptions = \<lparr>po_Unsafe = True, po_Expiration = 0, po_Hash = [], po_ContentType = [], po_ContentTransform = None,
     po_keeprevs = 0, po_keeprevset = False\<rparr>"

definition helloClient :: client where
  "helloClient = \<lparr>cl_u = ''http://h:1/'', cl_nodes = Some [(''n1'', aNode\<lparr>cn_HBAgeStr := ''0''\<rparr>)]\<rparr>"

abbreviation helloPut :: "(cerr option \<times> memdb server) go" where
  "helloPut \<equiv> Put (nodeWeb helloApi ''h:1'') (\<lambda>n. 0) (\<lambda>b. ''text/html'') (\<lambda>n. []) helloClient ''b'' ''a/b'' helloSource helloOptions aServer"

theorem client_put_get_witness:
  "\<exists>sv' sv''. helloPut = Ret (None, sv') \<and> clGet (nodeWeb helloApi ''h:1'') helloClient ''a/b'' sv' = (Inr (''hello'', None), sv'')"
proof -
  have "case helloPut of Ret (None, sv) \<Rightarrow> map_of (w_db (sv_w sv)) (snd (resolvePath sha1_0 aGet)) \<noteq> None | _ \<Rightarrow> False" by code_simp
  then obtain sv' v where p: "helloPut = Ret (None, sv')" and v: "map_of (w_db (sv_w sv')) (snd (resolvePath sha1_0 aGet)) = Some v"
    by (auto split: go.splits option.splits)
  have "rq_Path aGet = ''/'' @ trimSlashes ''a/b''" by code_simp
  then have g: "cbGet (ae_cb helloApi) (snd (resolvePath (hp_sha1 (ae_hp helloApi)) req)) (w_db (sv_w sv')) = Inr v"
    if "rq_Path req = ''/'' @ trimSlashes ''a/b''" for req
    using that v by (simp add: helloApi_def anApi_def memBucket_def aHttp_def resolvePath_def)
  have b: "bucket_ok (ae_cb helloApi) map_of" using memBucket_ok [of noView] by (simp add: helloApi_def anApi_def)
  have h: "sha1_ok (hp_sha1 (ae_hp helloApi))" "tmp_ok (sv_env aServer) (hp_tmp (ae_hp helloApi))"
    "getHash (hp_sm (ae_hp helloApi)) (sv_env aServer) = Some (sum0 ''sha1'')"
    using aPut_hyps(1-3) by (simp_all add: helloApi_def anApi_def aServer_def aHttp_def)
  have l: "1 \<le> length (sum0 ''sha1'' (sr_data helloSource))" "int (length (sr_data helloSource)) < 2 ^ 63"
    "al_reqErr (hp_alt (ae_hp helloApi)) = None" "1 \<le> al_got (hp_alt (ae_hp helloApi))"
    by (simp_all add: sum0_def helloSource_def helloApi_def)
  have "\<not> stale ''0''" by code_simp
  then have k: "knows_node helloClient ''h:1''" by (simp add: knows_node_def helloClient_def aNode_def)
  have o: "po_ContentTransform helloOptions = None" "(\<lambda>n::nat. 0::nat) 1 = 0" "plainPath ''a/b''"
    "\<not> hasPrefix (''/'' @ trimSlashes ''a/b'') apiPrefix" by code_simp+
  from client_put_get [where st = map_of, OF b h l k o p g] p show ?thesis by (auto simp: helloSource_def)
qed

end
